theory Spec2Isabelle
  imports Complex_Main "HOL-Library.Sublist" "HOL-Library.Multiset"
begin

section \<open>Data model\<close>

text \<open>
  A raw gaze sample as the three scripts read it from the recorder's file. Only the two
  columns the segmenters look at are named; every other column of the frame (pupil
  diameters, blink flags, subject, session) travels in the record's extension. A blank
  cell is read as NaN, which is \<open>None\<close> here. The position of a row in the list is its
  index label (the frame comes straight from \<open>read_csv\<close>, so the index is 0, 1, 2, ...).
\<close>

record gaze =
  TETTime :: real
  CurrentObject :: "string option"

text \<open>
  A row of the trial-event table built by \<open>get_trial_events\<close> in
  \<open>fluency_proc_subject.py\<close> and \<open>hvlt_recall_proc_subject.py\<close>. The columns are added one
  after the other; a column that a row does not have (yet) holds NaN, \<open>None\<close> here.
  \<open>StatStop\<close> is the column that line 91 of the recall script writes.
\<close>

record event =
  row_index :: nat
  ev_TETTime :: "real option"
  ev_CurrentObject :: "string option"
  TrialPhase :: "string option"
  StartStop :: "string option"
  StatStop :: "string option"
  Trial :: "nat option"
  Condition :: "string option"

text \<open>The exceptions a run can end with; \<open>UtilsError\<close> is one raised inside \<open>pupil_utils\<close>.\<close>

datatype py_error =
  ValueError | IndexError | IOError | NameError string | AttributeError | UtilsError

section \<open>The pandas operations the segmenters use\<close>

text \<open>\<open>Series.ffill\<close>: a NaN takes the last value before it that is not NaN, if there is one.\<close>

fun ffill_from :: "'a option \<Rightarrow> 'a option list \<Rightarrow> 'a option list" where
  "ffill_from c [] = []"
| "ffill_from c (None # xs) = c # ffill_from c xs"
| "ffill_from c (Some v # xs) = Some v # ffill_from (Some v) xs"

definition ffill :: "'a option list \<Rightarrow> 'a option list" where
  "ffill xs = ffill_from None xs"

definition bfill :: "'a option list \<Rightarrow> 'a option list" where
  "bfill xs = rev (ffill (rev xs))"

text \<open>\<open>Series.shift()\<close> and \<open>Series.shift(-1)\<close>: the hole is NaN.\<close>

definition shift_fwd :: "'a option list \<Rightarrow> 'a option list" where
  "shift_fwd xs = (if xs = [] then [] else None # butlast xs)"

definition shift_back :: "'a option list \<Rightarrow> 'a option list" where
  "shift_back xs = (if xs = [] then [] else tl xs @ [None])"

text \<open>\<open>Series.ne\<close>, element by element: NaN is unequal to everything, itself included.\<close>

fun ne :: "'a option \<Rightarrow> 'a option \<Rightarrow> bool" where
  "ne (Some x) (Some y) = (x \<noteq> y)"
| "ne _ _ = True"

definition startidx :: "'a gaze_scheme list \<Rightarrow> bool list" where
  "startidx df = (let co = map CurrentObject df in map2 ne co (ffill (shift_fwd co)))"

definition stopidx :: "'a gaze_scheme list \<Rightarrow> bool list" where
  "stopidx df = (let co = map CurrentObject df in map2 ne co (bfill (shift_back co)))"

text \<open>\<open>df.loc[mask, ['TETTime','CurrentObject']]\<close>: the rows the mask selects, under their labels.\<close>

definition event_of :: "nat \<Rightarrow> 'a gaze_scheme \<Rightarrow> event" where
  "event_of i r = \<lparr>row_index = i, ev_TETTime = Some (TETTime r),
     ev_CurrentObject = CurrentObject r, TrialPhase = None, StartStop = None,
     StatStop = None, Trial = None, Condition = None\<rparr>"

definition loc_rows :: "bool list \<Rightarrow> 'a gaze_scheme list \<Rightarrow> event list" where
  "loc_rows sel df =
     map (\<lambda>(i, b, r). event_of i r)
       (filter (\<lambda>(i, b, r). b) (zip [0..<length df] (zip sel df)))"

definition blank_row :: "nat \<Rightarrow> event" where
  "blank_row i = \<lparr>row_index = i, ev_TETTime = None, ev_CurrentObject = None,
     TrialPhase = None, StartStop = None, StatStop = None, Trial = None, Condition = None\<rparr>"

text \<open>
  \<open>frame[col] = array\<close>. pandas first runs \<open>DataFrame._ensure_valid_index\<close>: a frame that has
  no rows takes the index of a non-empty list-like value, 0, 1, ..., and its other columns
  are filled with NaN there. Otherwise the lengths must agree, or the assignment raises
  ValueError ("Length of values does not match length of index").
\<close>

definition set_column ::
  "('v \<Rightarrow> event \<Rightarrow> event) \<Rightarrow> 'v list \<Rightarrow> event list \<Rightarrow> py_error + event list" where
  "set_column upd vals frame =
     (if frame = [] \<and> vals \<noteq> [] then Inr (map2 upd vals (map blank_row [0..<length vals]))
      else if length vals \<noteq> length frame then Inl ValueError
      else Inr (map2 upd vals frame))"

text \<open>\<open>np.tile(xs, n)\<close> and \<open>np.repeat(xs, n)\<close>.\<close>

definition np_tile :: "'a list \<Rightarrow> nat \<Rightarrow> 'a list" where
  "np_tile xs n = concat (replicate n xs)"

definition np_repeat :: "'a list \<Rightarrow> nat \<Rightarrow> 'a list" where
  "np_repeat xs n = concat (map (replicate n) xs)"

section \<open>Verbal fluency and word-list recall: \<open>get_trial_events\<close>\<close>

definition is_start_label :: "event \<Rightarrow> bool" where
  "is_start_label e = (ev_CurrentObject e = Some ''ReadLetter'' \<or>
                       ev_CurrentObject e = Some ''RecordLetter'')"

definition is_stop_label :: "event \<Rightarrow> bool" where
  "is_stop_label e = (ev_CurrentObject e = Some ''BeginFile'' \<or>
                      ev_CurrentObject e = Some ''RecordLetter'')"

definition start_rows :: "'a gaze_scheme list \<Rightarrow> event list" where
  "start_rows df = filter is_start_label (loc_rows (startidx df) df)"

definition stop_rows :: "'a gaze_scheme list \<Rightarrow> event list" where
  "stop_rows df = filter is_stop_label (loc_rows (stopidx df) df)"

text \<open>
  The body the two scripts share (fluency lines 64-79, recall lines 82-97). They differ in
  one statement, the scalar column written on the start rows, which is the parameter
  \<open>mark_start\<close>.

  Line 76 (recall: 94) sorts the appended frame with \<open>sort_index()\<close>, whose default
  \<open>kind='quicksort'\<close> is not stable: the result is a rearrangement of the rows in the order
  of their labels, and the order in which rows of one label come out depends on the sorting
  routine of the installed numpy. The sort is therefore a parameter, \<open>sort_index\<close>, of which
  only \<open>is_sort_index\<close> is known. When the stream has start rows and stop rows, two rows of
  the appended frame have the same label exactly when one row of the stream is both a start
  row and a stop row.
\<close>

definition is_sort_index :: "(event list \<Rightarrow> event list) \<Rightarrow> bool" where
  "is_sort_index sort_index =
     (\<forall>frame. mset (sort_index frame) = mset frame \<and>
              sorted (map row_index (sort_index frame)))"

definition trial_events ::
  "(event list \<Rightarrow> event list) \<Rightarrow> (event \<Rightarrow> event) \<Rightarrow> 'a gaze_scheme list \<Rightarrow>
     py_error + event list" where
  "trial_events sort_index mark_start df =
     (case set_column (\<lambda>v e. e\<lparr>TrialPhase := Some v\<rparr>)
             (np_tile [''Baseline'', ''Response''] 6) (start_rows df) of
        Inl err \<Rightarrow> Inl err
      | Inr s1 \<Rightarrow>
          let trialevents_start = map mark_start s1 in
          (case set_column (\<lambda>v e. e\<lparr>TrialPhase := Some v\<rparr>)
                  (np_tile [''Baseline'', ''Response''] 6) (stop_rows df) of
             Inl err \<Rightarrow> Inl err
           | Inr t1 \<Rightarrow>
               let trialevents_stop = map (\<lambda>e. e\<lparr>StartStop := Some ''Stop''\<rparr>) t1;
                   trialevents = sort_index (trialevents_start @ trialevents_stop)
               in (case set_column (\<lambda>v e. e\<lparr>Trial := Some v\<rparr>)
                         (np_repeat [1..<7] 4) trialevents of
                     Inl err \<Rightarrow> Inl err
                   | Inr te \<Rightarrow>
                       set_column (\<lambda>v e. e\<lparr>Condition := Some v\<rparr>)
                         (np_repeat [''Letter'', ''Category''] 12) te)))"

text \<open>\<open>fluency_proc_subject.get_trial_events\<close>: line 73 writes \<open>StartStop\<close>.\<close>

definition get_trial_events_fluency ::
  "(event list \<Rightarrow> event list) \<Rightarrow> 'a gaze_scheme list \<Rightarrow> py_error + event list" where
  "get_trial_events_fluency sort_index df =
     trial_events sort_index (\<lambda>e. e\<lparr>StartStop := Some ''Start''\<rparr>) df"

text \<open>\<open>hvlt_recall_proc_subject.get_trial_events\<close>: line 91 writes \<open>StatStop\<close>.\<close>

definition get_trial_events_recall ::
  "(event list \<Rightarrow> event list) \<Rightarrow> 'a gaze_scheme list \<Rightarrow> py_error + event list" where
  "get_trial_events_recall sort_index df =
     trial_events sort_index (\<lambda>e. e\<lparr>StatStop := Some ''Start''\<rparr>) df"

text \<open>
  The task's grammar, on the boundary rows: the k-th start row lies at or before the k-th
  stop row, which lies before the next start row. A session of six trials, each a run of
  ReadLetter, a run of BeginFile and a run of RecordLetter, has this shape.
\<close>

fun interleaved :: "nat list \<Rightarrow> nat list \<Rightarrow> bool" where
  "interleaved [] [] = True"
| "interleaved (s # ss) (e # es) =
     (s \<le> e \<and> (case ss of [] \<Rightarrow> True | s' # _ \<Rightarrow> e < s') \<and> interleaved ss es)"
| "interleaved _ _ = False"

definition well_formed :: "'a gaze_scheme list \<Rightarrow> bool" where
  "well_formed df =
     (length (start_rows df) = 12 \<and>
      interleaved (map row_index (start_rows df)) (map row_index (stop_rows df)))"

text \<open>
  The two lists merged in turn. In the sorted table of a well-formed session the k-th pair
  of rows is the k-th start row and the k-th stop row; they come in this order when their
  labels differ, and in either order when they are one row of the stream.
\<close>

fun interleave :: "'a list \<Rightarrow> 'a list \<Rightarrow> 'a list" where
  "interleave (x # xs) (y # ys) = x # y # interleave xs ys"
| "interleave [] ys = ys"
| "interleave xs [] = xs"

fun tie_interleaved :: "('a \<Rightarrow> nat) \<Rightarrow> 'a list \<Rightarrow> 'a list \<Rightarrow> 'a list \<Rightarrow> bool" where
  "tie_interleaved f (a # b # zs) (x # xs) (y # ys) =
     ((a = x \<and> b = y \<or> a = y \<and> b = x \<and> f x = f y) \<and> tie_interleaved f zs xs ys)"
| "tie_interleaved f [] [] [] = True"
| "tie_interleaved f _ _ _ = False"

section \<open>Trial windows: \<open>clean_trials\<close> of the fluency and recall scripts\<close>

text \<open>\<open>Series.unique()\<close>: the values in the order of their first appearance.\<close>

definition unique :: "'a list \<Rightarrow> 'a list" where
  "unique xs = rev (remdups (rev xs))"

text \<open>Comparisons of a timestamp with a cell that may be NaN: with NaN they are False.\<close>

fun ge_cell :: "real \<Rightarrow> real option \<Rightarrow> bool" where
  "ge_cell t (Some b) = (t \<ge> b)"
| "ge_cell t None = False"

fun le_cell :: "real \<Rightarrow> real option \<Rightarrow> bool" where
  "le_cell t (Some b) = (t \<le> b)"
| "le_cell t None = False"

text \<open>
  Fluency, lines 45-46: the first and the last \<open>TETTime\<close> of the trial's event rows, and the
  samples between them, ends included. Recall, lines 53-55, unpacks the trial's four
  \<open>TETTime\<close> values and selects from the first to the fourth, which is the same window when
  the trial has four event rows (it raises ValueError otherwise).
\<close>

definition trial_times :: "event list \<Rightarrow> nat \<Rightarrow> real option list" where
  "trial_times trialevents trialnum =
     map ev_TETTime (filter (\<lambda>e. Trial e = Some trialnum) trialevents)"

definition rawtrial_fluency :: "'a gaze_scheme list \<Rightarrow> event list \<Rightarrow> nat \<Rightarrow> 'a gaze_scheme list" where
  "rawtrial_fluency df trialevents trialnum =
     (case trial_times trialevents trialnum of
        [] \<Rightarrow> []
      | t # ts \<Rightarrow>
          (let starttime = t; stoptime = last (t # ts)
           in filter (\<lambda>r. ge_cell (TETTime r) starttime \<and> le_cell (TETTime r) stoptime) df))"

definition rawtrial_recall ::
  "'a gaze_scheme list \<Rightarrow> event list \<Rightarrow> nat \<Rightarrow> py_error + 'a gaze_scheme list" where
  "rawtrial_recall df trialevents trialnum =
     (case trial_times trialevents trialnum of
        [basestart, basestop, respstart, respstop] \<Rightarrow>
          Inr (filter (\<lambda>r. ge_cell (TETTime r) basestart \<and> le_cell (TETTime r) respstop) df)
      | _ \<Rightarrow> Inl ValueError)"

section \<open>Word-list encoding: \<open>get_trial_events\<close> and the rows kept for conditioning\<close>






text \<open>
  The specification's words: a trial is a maximal run of consecutive rows whose label is
  not empty. \<open>label_runs\<close> cuts the stream at its blank rows; \<open>cur\<close> is the run being read.
\<close>

fun runs_from :: "'a gaze_scheme list \<Rightarrow> 'a gaze_scheme list \<Rightarrow> 'a gaze_scheme list list" where
  "runs_from cur [] = (if cur = [] then [] else [cur])"
| "runs_from cur (r # rs) =
     (if CurrentObject r = None
      then (if cur = [] then runs_from [] rs else cur # runs_from [] rs)
      else runs_from (cur @ [r]) rs)"

definition label_runs :: "'a gaze_scheme list \<Rightarrow> 'a gaze_scheme list list" where
  "label_runs df = runs_from [] df"

definition numbered_runs :: "'r list list \<Rightarrow> (nat \<times> 'r) list" where
  "numbered_runs runs = concat (map2 (\<lambda>n rows. map (Pair n) rows) [1..<length runs + 1] runs)"



text \<open>\<open>Series.str.contains(pat)\<close> and \<open>Series.str.match(pat)\<close> for a pattern of plain letters:
  the pattern occurs somewhere in the string, or at its start.\<close>

fun str_contains :: "string \<Rightarrow> string \<Rightarrow> bool" where
  "str_contains pat [] = (pat = [])"
| "str_contains pat (c # cs) = (prefix pat (c # cs) \<or> str_contains pat cs)"

definition str_match :: "string \<Rightarrow> string \<Rightarrow> bool" where
  "str_match pat s = prefix pat s"

text \<open>Encoding \<open>clean_trials\<close>, lines 53-54: the rows of one trial, and those kept of them.\<close>

definition retained :: "'a gaze_scheme \<Rightarrow> bool" where
  "retained r =
     (CurrentObject r = Some ''Ready'' \<or>
      (case CurrentObject r of None \<Rightarrow> False | Some l \<Rightarrow> str_contains ''PlayWord'' l))"

definition rawtrial_encoding :: "(nat \<times> 'a gaze_scheme) list \<Rightarrow> nat \<Rightarrow> 'a gaze_scheme list" where
  "rawtrial_encoding trialevents trial =
     filter retained (map snd (filter (\<lambda>(n, r). n = trial) trialevents))"

section \<open>Baseline and dilation: \<open>clean_trials\<close> of the encoding and recall scripts\<close>

text \<open>
  A row of \<open>trial_resamp\<close>, the frame \<open>pupil_utils.resamp_filt_data\<close> returns: the time index in
  nanoseconds, the string columns and the filtered diameter, with the columns the scripts
  add. A NaN cell is \<open>None\<close>. The arithmetic is that of the reals, not of floating point.
\<close>

record pupil =
  Timestamp :: int
  Object :: "string option"
  Phase :: "string option"
  DiameterPupilLRFilt :: "real option"
  Baseline :: "real option"
  Dilation :: "real option"
  TrialCondition :: "string option"

text \<open>\<open>Series.mean()\<close> skips NaN; the mean of no value is NaN.\<close>

definition valid :: "real option list \<Rightarrow> real list" where
  "valid vs = concat (map (\<lambda>v. case v of None \<Rightarrow> [] | Some x \<Rightarrow> [x]) vs)"

definition nanmean :: "real option list \<Rightarrow> real option" where
  "nanmean vs =
     (if valid vs = [] then None else Some (sum_list (valid vs) / real (length (valid vs))))"

fun nan_sub :: "real option \<Rightarrow> real option \<Rightarrow> real option" where
  "nan_sub (Some a) (Some b) = Some (a - b)"
| "nan_sub _ _ = None"

text \<open>
  \<open>Series.last(offset)\<close> and \<open>Series.first(offset)\<close> on a time-ordered index: the rows later
  than the last time minus the offset, and the rows earlier than the first time plus the
  offset. Of an empty series they return the series.
\<close>

definition last_offset :: "int \<Rightarrow> pupil list \<Rightarrow> pupil list" where
  "last_offset off rows =
     (if rows = [] then []
      else dropWhile (\<lambda>r. Timestamp r \<le> Timestamp (last rows) - off) rows)"

definition first_offset :: "int \<Rightarrow> pupil list \<Rightarrow> pupil list" where
  "first_offset off rows =
     (if rows = [] then []
      else takeWhile (\<lambda>r. Timestamp r < Timestamp (hd rows) + off) rows)"

definition ms :: "int \<Rightarrow> int" where
  "ms n = n * 1000000"

text \<open>Encoding, line 59: the window the baseline is averaged over.\<close>

definition baseline_window_encoding :: "pupil list \<Rightarrow> real option list" where
  "baseline_window_encoding trial_resamp =
     map DiameterPupilLRFilt
       (last_offset (ms 500) (filter (\<lambda>r. Object r = Some ''Ready'') trial_resamp))"

definition is_PlayWord :: "pupil \<Rightarrow> bool" where
  "is_PlayWord r = (case Object r of None \<Rightarrow> False | Some l \<Rightarrow> str_match ''PlayWord'' l)"

text \<open>
  Encoding, lines 59-63, for one trial. A NaN in the string column makes the Boolean
  selection of line 62 raise ValueError; with no PlayWord row, \<open>index[0]\<close> of line 63 raises
  IndexError.
\<close>

definition clean_trial_encoding :: "pupil list \<Rightarrow> py_error + pupil list" where
  "clean_trial_encoding trial_resamp =
     (let baseline = nanmean (baseline_window_encoding trial_resamp);
          with_baseline = map (\<lambda>r. r\<lparr>Baseline := baseline\<rparr>) trial_resamp;
          with_dilation =
            map (\<lambda>r. r\<lparr>Dilation := nan_sub (DiameterPupilLRFilt r) (Baseline r)\<rparr>) with_baseline
      in if \<exists>r \<in> set with_dilation. Object r = None then Inl ValueError
         else (let response = filter is_PlayWord with_dilation
               in if response = [] then Inl IndexError
                  else Inr (map (\<lambda>r. r\<lparr>Timestamp := Timestamp r - Timestamp (hd response)\<rparr>)
                             response)))"

text \<open>The loop of \<open>clean_trials\<close>: the first exception ends it.\<close>

fun for_each :: "('k \<Rightarrow> py_error + 'v) \<Rightarrow> 'k list \<Rightarrow> py_error + ('k \<times> 'v) list" where
  "for_each body [] = Inr []"
| "for_each body (k # ks) =
     (case body k of
        Inl err \<Rightarrow> Inl err
      | Inr v \<Rightarrow> (case for_each body ks of Inl err \<Rightarrow> Inl err | Inr rest \<Rightarrow> Inr ((k, v) # rest)))"

text \<open>\<open>pd.concat(resampled_dict, ...)\<close>: of a dict without entries it raises ValueError.\<close>

definition pd_concat :: "('k \<times> 'v) list \<Rightarrow> py_error + ('k \<times> 'v) list" where
  "pd_concat resampled_dict = (if resampled_dict = [] then Inl ValueError else Inr resampled_dict)"

text \<open>
  Encoding \<open>clean_trials\<close>, lines 50-66. \<open>conditioning\<close> stands for \<open>pupil_utils.deblink\<close>
  followed by \<open>pupil_utils.resamp_filt_data\<close>, which are not part of these sources.
  \<open>trial_encoding\<close> is the body of the loop, lines 53-63, for one trial.
\<close>

definition trial_encoding ::
  "('a gaze_scheme list \<Rightarrow> py_error + pupil list) \<Rightarrow> (nat \<times> 'a gaze_scheme) list \<Rightarrow> nat \<Rightarrow>
     py_error + pupil list" where
  "trial_encoding conditioning trialevents trial =
     (case conditioning (rawtrial_encoding trialevents trial) of
        Inl err \<Rightarrow> Inl err
      | Inr trial_resamp \<Rightarrow> clean_trial_encoding trial_resamp)"

definition clean_trials_encoding ::
  "('a gaze_scheme list \<Rightarrow> py_error + pupil list) \<Rightarrow> (nat \<times> 'a gaze_scheme) list \<Rightarrow>
     py_error + (nat \<times> pupil list) list" where
  "clean_trials_encoding conditioning trialevents =
     (case for_each (trial_encoding conditioning trialevents) (unique (map fst trialevents)) of
        Inl err \<Rightarrow> Inl err
      | Inr resampled_dict \<Rightarrow> pd_concat resampled_dict)"

text \<open>Recall, line 61: the window the baseline is averaged over.\<close>

definition baseline_window_recall :: "pupil list \<Rightarrow> real option list" where
  "baseline_window_recall trial_resamp =
     map DiameterPupilLRFilt (first_offset (ms 2000) trial_resamp)"

text \<open>Recall, lines 61-66, for one trial.\<close>

definition clean_trial_recall :: "string option \<Rightarrow> pupil list \<Rightarrow> pupil list" where
  "clean_trial_recall condition trial_resamp =
     (let baseline = nanmean (baseline_window_recall trial_resamp);
          with_baseline = map (\<lambda>r. r\<lparr>Baseline := baseline\<rparr>) trial_resamp;
          with_dilation =
            map (\<lambda>r. r\<lparr>Dilation := nan_sub (DiameterPupilLRFilt r) (Baseline r)\<rparr>) with_baseline;
          response = filter (\<lambda>r. Phase r = Some ''Response'') with_dilation
      in map (\<lambda>r. r\<lparr>TrialCondition := condition\<rparr>) response)"

text \<open>
  Recall \<open>clean_trials\<close>, lines 50-69. Lines 56-57 label the raw rows with their phase, the
  response window last; \<open>conditioning\<close> receives the labelled rows. Line 56 adds the column
  \<open>Phase\<close> through \<open>.loc\<close> with a scalar, which raises ValueError on a frame without rows
  ("cannot set a frame with no defined index and a scalar"). \<open>trial_recall\<close> is the body of
  the loop, lines 53-66, for one trial.
\<close>

definition phase_of :: "real option list \<Rightarrow> real \<Rightarrow> string option" where
  "phase_of bounds t =
     (case bounds of
        [basestart, basestop, respstart, respstop] \<Rightarrow>
          (if ge_cell t respstart \<and> le_cell t respstop then Some ''Response''
           else if ge_cell t basestart \<and> le_cell t basestop then Some ''Baseline''
           else None)
      | _ \<Rightarrow> None)"

definition trial_recall ::
  "((string option \<times> 'a gaze_scheme) list \<Rightarrow> py_error + pupil list) \<Rightarrow>
     'a gaze_scheme list \<Rightarrow> event list \<Rightarrow> nat \<Rightarrow> py_error + pupil list" where
  "trial_recall conditioning df trialevents trialnum =
     (case rawtrial_recall df trialevents trialnum of
        Inl err \<Rightarrow> Inl err
      | Inr rawtrial \<Rightarrow>
          (case map Condition (filter (\<lambda>e. Trial e = Some trialnum) trialevents) of
             [] \<Rightarrow> Inl IndexError
           | condition # _ \<Rightarrow>
               if rawtrial = [] then Inl ValueError
               else (case conditioning
                            (map (\<lambda>r. (phase_of (trial_times trialevents trialnum) (TETTime r), r))
                               rawtrial) of
                       Inl err \<Rightarrow> Inl err
                     | Inr trial_resamp \<Rightarrow> Inr (clean_trial_recall condition trial_resamp))))"

definition clean_trials_recall ::
  "((string option \<times> 'a gaze_scheme) list \<Rightarrow> py_error + pupil list) \<Rightarrow>
     'a gaze_scheme list \<Rightarrow> event list \<Rightarrow> py_error + (nat \<times> pupil list) list" where
  "clean_trials_recall conditioning df trialevents =
     (case for_each (trial_recall conditioning df trialevents)
             (unique (concat (map (\<lambda>e. case Trial e of None \<Rightarrow> [] | Some n \<Rightarrow> [n]) trialevents))) of
        Inl err \<Rightarrow> Inl err
      | Inr resampled_dict \<Rightarrow> pd_concat resampled_dict)"

section \<open>Time bins: \<open>resample(...).mean()\<close> in \<open>proc_subject\<close>\<close>

text \<open>
  A series to be binned is a list of samples, the time in nanoseconds and the value. The
  three widths divide a day, so the bin edges are the multiples of the width; \<open>bin_index\<close>
  numbers the bins. A bin closed on the left is \<open>[k * w, (k + 1) * w)\<close>, a bin closed on the
  right is \<open>((k - 1) * w, k * w]\<close>.
\<close>

datatype side = LeftSide | RightSide

definition bin_index :: "side \<Rightarrow> int \<Rightarrow> int \<Rightarrow> int" where
  "bin_index clsd w t = (case clsd of LeftSide \<Rightarrow> t div w | RightSide \<Rightarrow> - ((- t) div w))"

definition bin_label :: "side \<Rightarrow> side \<Rightarrow> int \<Rightarrow> int \<Rightarrow> int" where
  "bin_label clsd lbl w k =
     (case clsd of
        LeftSide \<Rightarrow> (case lbl of LeftSide \<Rightarrow> k * w | RightSide \<Rightarrow> (k + 1) * w)
      | RightSide \<Rightarrow> (case lbl of LeftSide \<Rightarrow> (k - 1) * w | RightSide \<Rightarrow> k * w))"

definition bin_values :: "side \<Rightarrow> int \<Rightarrow> int \<Rightarrow> (int \<times> real option) list \<Rightarrow> real option list" where
  "bin_values clsd w k samples =
     map snd (filter (\<lambda>(t, v). bin_index clsd w t = k) samples)"

text \<open>
  One row per bin from the bin of the earliest sample to the bin of the latest, a bin
  without samples included; the value of a bin is the mean of its samples.
\<close>

definition resample_mean ::
  "side \<Rightarrow> side \<Rightarrow> int \<Rightarrow> (int \<times> real option) list \<Rightarrow> (int \<times> real option) list" where
  "resample_mean clsd lbl w samples =
     (case map (\<lambda>(t, v). bin_index clsd w t) samples of
        [] \<Rightarrow> []
      | k # ks \<Rightarrow>
          map (\<lambda>b. (bin_label clsd lbl w b, nanmean (bin_values clsd w b samples)))
            [fold min ks k .. fold max ks k])"

text \<open>
  \<open>resample(rule, closed=None, label=None)\<close>: for a rule that is a span of time, as 500ms, 1s
  and 6s are, pandas takes \<open>'left'\<close> for an argument that is not given.
\<close>

definition resample_call ::
  "int \<Rightarrow> side option \<Rightarrow> side option \<Rightarrow> (int \<times> real option) list \<Rightarrow> (int \<times> real option) list" where
  "resample_call w clsd lbl samples =
     resample_mean (case clsd of None \<Rightarrow> LeftSide | Some c \<Rightarrow> c)
       (case lbl of None \<Rightarrow> LeftSide | Some l \<Rightarrow> l) w samples"

text \<open>Fluency, line 94: \<open>x.resample('500ms', level='Timestamp').mean()\<close>.\<close>

definition fluency_bins :: "(int \<times> real option) list \<Rightarrow> (int \<times> real option) list" where
  "fluency_bins = resample_call (ms 500) None None"

text \<open>Encoding, line 109: \<open>x.resample('1s', on='Timestamp', closed='right', label='right').mean()\<close>.\<close>

definition encoding_bins_1s :: "(int \<times> real option) list \<Rightarrow> (int \<times> real option) list" where
  "encoding_bins_1s = resample_call (ms 1000) (Some RightSide) (Some RightSide)"

text \<open>Encoding, line 125: \<open>x.resample('6s', on='Timestamp', closed='right', label='right').mean()\<close>.\<close>

definition encoding_bins_6s :: "(int \<times> real option) list \<Rightarrow> (int \<times> real option) list" where
  "encoding_bins_6s = resample_call (ms 6000) (Some RightSide) (Some RightSide)"

text \<open>
  Recall, line 122, passes the same arguments, but to a column of time differences (line
  121), for which pandas lays out the bins in another way; that call is not modelled.
\<close>

text \<open>The mean of bin means, each weighted by the number of values it averages.\<close>

definition weighted_mean :: "real option list list \<Rightarrow> real option" where
  "weighted_mean bins =
     (let n = sum_list (map (\<lambda>vs. length (valid vs)) bins)
      in if n = 0 then None
         else Some (sum_list (map (\<lambda>vs. case nanmean vs of None \<Rightarrow> 0
                                        | Some m \<Rightarrow> real (length (valid vs)) * m) bins) / real n))"

section \<open>Word-list recall: \<open>proc_subject\<close>\<close>

text \<open>\<open>os.path.splitext(fname)[-1]\<close>: from the last dot of the last path component, unless
  only dots stand before it.\<close>

definition splitext_ext :: "string \<Rightarrow> string" where
  "splitext_ext p =
     (let base = rev (takeWhile (\<lambda>c. c \<noteq> CHR ''/'') (rev p));
          ext = rev (takeWhile (\<lambda>c. c \<noteq> CHR ''.'') (rev base));
          stem = take (length base - length ext - 1) base
      in if CHR ''.'' \<notin> set base \<or> (\<forall>c \<in> set stem. c = CHR ''.'') then []
         else CHR ''.'' # ext)"

text \<open>
  What a run does to the outside, in order. The collaborators of \<open>proc_subject\<close> that are
  not part of these sources are parameters: reading a file, \<open>pupil_utils.deblink\<close>,
  \<open>pupil_utils.resamp_filt_data\<close>, and \<open>finish\<close>, which stands for lines 119-131 once their
  names are resolved (\<open>clean_trials\<close>, the 1s bins, \<open>to_csv\<close>, \<open>plot_trials\<close>) and returns the
  files it wrote.
\<close>

datatype effect = Printed string | Read string | Deblinked | Resampled | Wrote string

record ('d, 'r) collaborators =
  read_csv :: "string \<Rightarrow> py_error + 'd gaze_scheme list"
  read_excel :: "string \<Rightarrow> py_error + 'd gaze_scheme list"
  deblink :: "'d gaze_scheme list \<Rightarrow> py_error + 'd gaze_scheme list"
  resamp_filt_data :: "'d gaze_scheme list \<Rightarrow> py_error + 'r"
  finish :: "string \<Rightarrow> 'd gaze_scheme list \<Rightarrow> py_error + string list"

text \<open>The names bound at module level when \<open>proc_subject\<close> runs: the imports and the four
  functions. No builtin is called \<open>trialevents\<close>.\<close>

definition module_globals :: "string list" where
  "module_globals = [''os'', ''sys'', ''np'', ''pd'', ''plt'', ''sns'', ''pupil_utils'',
     ''tkinter'', ''filedialog'', ''plot_trials'', ''clean_trials'', ''get_trial_events'',
     ''proc_subject'']"

text \<open>Reading a name: a local of the function, else a global of the module, else NameError.\<close>

definition load_name :: "string list \<Rightarrow> string \<Rightarrow> py_error + unit" where
  "load_name locals name =
     (if name \<in> set locals \<or> name \<in> set module_globals then Inr () else Inl (NameError name))"

text \<open>
  Line 114: \<open>df[df.CurrentObject.str.contains("Recall", na=False)]\<close>. The accessor \<open>.str\<close>
  exists on a column of strings only. A column whose cells are all blank is read as a
  column of floats, and \<open>.str\<close> raises AttributeError ("Can only use .str accessor with
  string values"); a column of a frame without rows is read as a column of objects, which
  has the accessor.
\<close>

definition recall_rows :: "'a gaze_scheme list \<Rightarrow> py_error + 'a gaze_scheme list" where
  "recall_rows df =
     (if df \<noteq> [] \<and> (\<forall>r \<in> set df. CurrentObject r = None) then Inl AttributeError
      else Inr (filter (\<lambda>r. case CurrentObject r of None \<Rightarrow> False
                             | Some l \<Rightarrow> str_contains ''Recall'' l) df))"

text \<open>Lines 107-131, the body of the loop for one file: the effects so far and the outcome.\<close>

definition proc_file_recall ::
  "('d, 'r) collaborators \<Rightarrow> string \<Rightarrow> effect list \<times> (py_error + unit)" where
  "proc_file_recall c fname =
     (let ext = splitext_ext fname;
          e0 = [Printed fname]
      in case (if ext = ''.gazedata'' \<or> ext = ''.csv'' then read_csv c fname
               else if ext = ''.xlsx'' then read_excel c fname
               else Inl IOError) of
           Inl err \<Rightarrow> (e0, Inl err)
         | Inr df0 \<Rightarrow>
             (let e1 = e0 @ [Read fname]
              in case recall_rows df0 of
                   Inl err \<Rightarrow> (e1, Inl err)
                 | Inr df1 \<Rightarrow>
                     (case deblink c df1 of
                        Inl err \<Rightarrow> (e1, Inl err)
                      | Inr df \<Rightarrow>
                          (let e2 = e1 @ [Deblinked]
                           in case resamp_filt_data c df of
                                Inl err \<Rightarrow> (e2, Inl err)
                              | Inr dfresamp \<Rightarrow>
                                  (let e3 = e2 @ [Resampled];
                                       locals = [''filelist'', ''fname'', ''df'', ''dfresamp'']
                                   in case load_name locals ''clean_trials'' of
                                        Inl err \<Rightarrow> (e3, Inl err)
                                      | Inr _ \<Rightarrow>
                                          (case load_name locals ''df'' of
                                             Inl err \<Rightarrow> (e3, Inl err)
                                           | Inr _ \<Rightarrow>
                                               (case load_name locals ''trialevents'' of
                                                  Inl err \<Rightarrow> (e3, Inl err)
                                                | Inr _ \<Rightarrow>
                                                    (case finish c fname df of
                                                       Inl err \<Rightarrow> (e3, Inl err)
                                                     | Inr files \<Rightarrow>
                                                         (e3 @ map Wrote files, Inr ())))))))))"

text \<open>\<open>proc_subject(filelist)\<close>: the loop ends at the first exception.\<close>

fun proc_subject_recall ::
  "('d, 'r) collaborators \<Rightarrow> string list \<Rightarrow> effect list \<times> (py_error + unit)" where
  "proc_subject_recall c [] = ([], Inr ())"
| "proc_subject_recall c (fname # filelist) =
     (case proc_file_recall c fname of
        (es, Inl err) \<Rightarrow> (es, Inl err)
      | (es, Inr _) \<Rightarrow>
          (case proc_subject_recall c filelist of (es', res) \<Rightarrow> (es @ es', res)))"

section \<open>Example sessions\<close>

text \<open>A session with the given labels, one row per label, the rows one time unit apart.\<close>

definition session_of :: "string list \<Rightarrow> gaze list" where
  "session_of labels =
     map2 (\<lambda>i l. \<lparr>TETTime = real i, CurrentObject = Some l\<rparr>) [0..<length labels] labels"

text \<open>Six trials: the letter is read, the file begins, the answer is recorded over two rows.\<close>

definition six_trial_session :: "gaze list" where
  "six_trial_session =
     session_of (concat (replicate 6
       [''ReadLetter'', ''BeginFile'', ''RecordLetter'', ''RecordLetter'']))"

text \<open>Five trials only: 10 start rows and 10 stop rows.\<close>

definition five_trial_session :: "gaze list" where
  "five_trial_session =
     session_of (concat (replicate 5
       [''ReadLetter'', ''BeginFile'', ''RecordLetter'', ''RecordLetter'']))"

text \<open>A session without any of the task's markers.\<close>

definition unmarked_session :: "gaze list" where
  "unmarked_session = session_of [''Fixation'']"

text \<open>Six trials whose answers are recorded over a single row each.\<close>

definition short_response_session :: "gaze list" where
  "short_response_session =
     session_of (concat (replicate 6 [''ReadLetter'', ''BeginFile'', ''RecordLetter'']))"

text \<open>The six trials again, the first row of the second trial stamped with the time of the
  row before it.\<close>

definition tied_session :: "gaze list" where
  "tied_session = six_trial_session[4 := \<lparr>TETTime = 3, CurrentObject = Some ''ReadLetter''\<rparr>]"

text \<open>An encoding session: a blank row, a trial of three labelled rows, two blank rows, a
  trial of two labelled rows, a blank row.\<close>

definition encoding_session :: "gaze list" where
  "encoding_session =
     map2 (\<lambda>i l. \<lparr>TETTime = real i, CurrentObject = l\<rparr>) [0..<9]
       [None, Some ''Ready'', Some ''PlayWord1'', Some ''Rest'', None, None,
        Some ''Ready'', Some ''PlayWord2'', None]"

text \<open>An encoding session whose first trial has no PlayWord row.\<close>

definition no_response_session :: "gaze list" where
  "no_response_session =
     map2 (\<lambda>i l. \<lparr>TETTime = real i, CurrentObject = l\<rparr>) [0..<8]
       [None, Some ''Ready'', Some ''Rest'', Some ''Rest'', None,
        Some ''Ready'', Some ''PlayWord2'', None]"

text \<open>Collaborators that always succeed, for a run of the recall script.\<close>

definition ideal_collaborators :: "(unit, unit) collaborators" where
  "ideal_collaborators =
     \<lparr>read_csv = (\<lambda>f. Inr (session_of [''HVLT Recall'', ''HVLT Recall'', ''Fixation''])),
      read_excel = (\<lambda>f. Inl IOError),
      deblink = Inr,
      resamp_filt_data = (\<lambda>df. Inr ()),
      finish = (\<lambda>f df. Inr [f @ ''_ProcessedPupil.csv''])\<rparr>"

text \<open>A recall file whose event-label column is blank on every row, and collaborators
  that read it.\<close>

definition blank_session :: "gaze list" where
  "blank_session =
     [\<lparr>TETTime = 0, CurrentObject = None\<rparr>, \<lparr>TETTime = 1, CurrentObject = None\<rparr>]"

definition blank_collaborators :: "(unit, unit) collaborators" where
  "blank_collaborators = ideal_collaborators\<lparr>read_csv := (\<lambda>f. Inr blank_session)\<rparr>"

text \<open>Three samples of a fluency trial, the last on the edge of the first 500ms.\<close>

definition boundary_samples :: "(int \<times> real option) list" where
  "boundary_samples = [(0, Some 4), (ms 250, Some 6), (ms 500, Some 10)]"

text \<open>A regular series: \<open>n\<close> samples, \<open>period\<close> milliseconds apart from time 0, the
  \<open>i\<close>-th of value \<open>i\<close>.\<close>

definition grid_samples :: "int \<Rightarrow> nat \<Rightarrow> (int \<times> real option) list" where
  "grid_samples period n = map (\<lambda>i. (ms (period * int i), Some (real i))) [0..<n]"

text \<open>Rows of \<open>trial_resamp\<close>: the time, the label, the phase and the filtered diameter.\<close>

definition pupil_row :: "int \<Rightarrow> string \<Rightarrow> string \<Rightarrow> real option \<Rightarrow> pupil" where
  "pupil_row t obj ph d =
     \<lparr>Timestamp = t, Object = Some obj, Phase = Some ph, DiameterPupilLRFilt = d,
      Baseline = None, Dilation = None, TrialCondition = None\<rparr>"

text \<open>An encoding trial: three Ready rows and two PlayWord rows, 400ms apart.\<close>

definition encoding_trial :: "pupil list" where
  "encoding_trial =
     [pupil_row 0 ''Ready'' ''Baseline'' (Some 2),
      pupil_row (ms 400) ''Ready'' ''Baseline'' (Some 3),
      pupil_row (ms 800) ''Ready'' ''Baseline'' (Some 5),
      pupil_row (ms 1200) ''PlayWord1'' ''Response'' (Some 6),
      pupil_row (ms 1600) ''PlayWord1'' ''Response'' (Some 7)]"

text \<open>A recall trial: two Baseline rows and two Response rows, one second apart; and the
  same trial with no valid diameter in its first two seconds.\<close>

definition recall_trial :: "pupil list" where
  "recall_trial =
     [pupil_row 0 ''Recall'' ''Baseline'' (Some 2),
      pupil_row (ms 1000) ''Recall'' ''Baseline'' (Some 4),
      pupil_row (ms 2000) ''Recall'' ''Response'' (Some 5),
      pupil_row (ms 3000) ''Recall'' ''Response'' (Some 6)]"

definition recall_trial_blind :: "pupil list" where
  "recall_trial_blind =
     [pupil_row 0 ''Recall'' ''Baseline'' None,
      pupil_row (ms 1000) ''Recall'' ''Baseline'' None,
      pupil_row (ms 2000) ''Recall'' ''Response'' (Some 5),
      pupil_row (ms 3000) ''Recall'' ''Response'' (Some 6)]"

text \<open>A conditioning that leaves the Ready rows recorded before time 5 without a valid
  diameter, and one for recall trials that keeps the phase labels.\<close>

definition example_conditioning :: "gaze list \<Rightarrow> py_error + pupil list" where
  "example_conditioning rawtrial =
     Inr (map2 (\<lambda>i r.
            \<lparr>Timestamp = ms (100 * int i), Object = CurrentObject r, Phase = None,
             DiameterPupilLRFilt =
               (if CurrentObject r = Some ''Ready''
                then (if TETTime r < 5 then None else Some 2) else Some 3),
             Baseline = None, Dilation = None, TrialCondition = None\<rparr>)
          [0..<length rawtrial] rawtrial)"

definition recall_conditioning :: "(string option \<times> gaze) list \<Rightarrow> py_error + pupil list" where
  "recall_conditioning labelled =
     Inr (map2 (\<lambda>i (ph, r).
            \<lparr>Timestamp = ms (1000 * int i), Object = CurrentObject r, Phase = ph,
             DiameterPupilLRFilt = Some (TETTime r),
             Baseline = None, Dilation = None, TrialCondition = None\<rparr>)
          [0..<length labelled] labelled)"

section \<open>Segmentation of fluency and recall sessions: proofs\<close>

lemma is_sort_indexD:
  assumes "is_sort_index srt"
  shows "mset (srt xs) = mset xs" and "sorted (map row_index (srt xs))"
    and "length (srt xs) = length xs" and "set (srt xs) = set xs"
proof -
  from assms show m: "mset (srt xs) = mset xs" and "sorted (map row_index (srt xs))"
    by (simp_all add: is_sort_index_def)
  from m show "length (srt xs) = length xs" by (rule mset_eq_length)
  from m show "set (srt xs) = set xs" by (rule mset_eq_setD)
qed

lemma stable_is_sort_index: "is_sort_index (sort_key row_index)"
  by (simp add: is_sort_index_def)

lemma reversed_is_sort_index: "is_sort_index (\<lambda>frame. sort_key row_index (rev frame))"
  by (simp add: is_sort_index_def)

lemma interleaved_length: "interleaved ss es \<Longrightarrow> length ss = length es"
  by (induction ss es rule: interleaved.induct) auto

lemma interleaved_after:
  "interleaved (s # ss) (e # es) \<Longrightarrow> \<forall>x \<in> set ss \<union> set es. e < x"
proof (induction ss arbitrary: s e es)
  case Nil
  then show ?case by (cases es) auto
next
  case (Cons s' ss')
  then obtain e' es' where es: "es = e' # es'" by (cases es) auto
  from Cons.prems es have a: "e < s'" "s' \<le> e'" "interleaved (s' # ss') (e' # es')" by auto
  from Cons.IH[OF a(3)] have later: "\<forall>x \<in> set ss' \<union> set es'. e' < x" .
  show ?case
  proof
    fix x assume "x \<in> set (s' # ss') \<union> set es"
    then consider "x = s'" | "x = e'" | "x \<in> set ss' \<union> set es'" using es by auto
    then show "e < x"
    proof cases
      case 1 with a show ?thesis by simp
    next
      case 2 with a show ?thesis by simp
    next
      case 3
      with later have "e' < x" by blast
      with a show ?thesis by simp
    qed
  qed
qed

lemma sorted_tie_interleaved:
  "interleaved (map f xs) (map f ys) \<Longrightarrow> mset zs = mset (xs @ ys) \<Longrightarrow> sorted (map f zs) \<Longrightarrow>
     tie_interleaved f zs xs ys"
proof (induction xs ys arbitrary: zs rule: interleave.induct)
  case (1 x xs y ys)
  from 1(2) have il: "interleaved (f x # map f xs) (f y # map f ys)" by simp
  from interleaved_after[OF il] have after: "\<forall>z \<in> set xs \<union> set ys. f y < f z" by auto
  from il have le: "f x \<le> f y" and rest: "interleaved (map f xs) (map f ys)" by auto
  from 1(3) have m: "mset zs = add_mset x (add_mset y (mset (xs @ ys)))" by simp
  then obtain a zs1 where zs: "zs = a # zs1" by (cases zs) auto
  from mset_eq_setD[OF 1(3)] have sz: "set zs = insert x (insert y (set xs \<union> set ys))" by simp
  from 1(4) zs have amin: "\<forall>d \<in> set zs. f a \<le> f d" by auto
  have a: "a = x \<or> a = y"
  proof (rule ccontr)
    assume "\<not> (a = x \<or> a = y)"
    with sz zs have "a \<in> set xs \<union> set ys" by auto
    with after have "f y < f a" by blast
    moreover from amin sz have "f a \<le> f y" by simp
    ultimately show False by simp
  qed
  then obtain c where c: "a = x \<and> c = y \<or> a = y \<and> c = x"
    and m1: "mset zs1 = add_mset c (mset (xs @ ys))"
  proof
    assume "a = x"
    with m zs have "mset zs1 = add_mset y (mset (xs @ ys))" by simp
    with \<open>a = x\<close> that show thesis by blast
  next
    assume "a = y"
    with m zs have "add_mset y (mset zs1) = add_mset y (add_mset x (mset (xs @ ys)))"
      by (simp add: add_mset_commute)
    then have "mset zs1 = add_mset x (mset (xs @ ys))" by simp
    with \<open>a = y\<close> that show thesis by blast
  qed
  from c le have cle: "f c \<le> f y" by auto
  from m1 obtain b zs2 where zs1: "zs1 = b # zs2" by (cases zs1) auto
  from m1 have "mset zs1 = mset (c # xs @ ys)" by simp
  from mset_eq_setD[OF this] have sz1: "set zs1 = insert c (set xs \<union> set ys)" by simp
  from 1(4) zs zs1 have bmin: "\<forall>d \<in> set zs1. f b \<le> f d" by auto
  have b: "b = c"
  proof (rule ccontr)
    assume "b \<noteq> c"
    with sz1 zs1 have "b \<in> set xs \<union> set ys" by auto
    with after have "f y < f b" by blast
    moreover from bmin sz1 have "f b \<le> f c" by simp
    ultimately show False using cle by simp
  qed
  from m1 zs1 b have m2: "mset zs2 = mset (xs @ ys)" by simp
  from 1(4) zs zs1 have s2: "sorted (map f zs2)" by simp
  from 1(4) zs zs1 have ab: "f a \<le> f b" by simp
  from 1(1)[OF rest m2 s2] have "tie_interleaved f zs2 xs ys" .
  moreover from c b ab le have "a = x \<and> b = y \<or> a = y \<and> b = x \<and> f x = f y" by auto
  ultimately show ?case using zs zs1 by simp
next
  case (2 ys)
  then show ?case by (cases ys) auto
next
  case (3 v va)
  then show ?case by simp
qed

lemma tie_interleaved_column:
  "tie_interleaved f zs xs ys \<Longrightarrow>
   (\<forall>(x, y) \<in> set (zip xs ys). f x = f y \<longrightarrow> g x = g y) \<Longrightarrow>
   map g zs = interleave (map g xs) (map g ys)"
  by (induction f zs xs ys rule: tie_interleaved.induct) auto

lemma tie_interleaved_length:
  "tie_interleaved f zs xs ys \<Longrightarrow> length ys = length xs \<and> length zs = 2 * length xs"
  by (induction f zs xs ys rule: tie_interleaved.induct) auto

lemma tie_interleaved_nth:
  "tie_interleaved f zs xs ys \<Longrightarrow> j < length xs \<Longrightarrow>
     (zs ! (2 * j) = xs ! j \<and> zs ! (2 * j + 1) = ys ! j) \<or>
     (zs ! (2 * j) = ys ! j \<and> zs ! (2 * j + 1) = xs ! j \<and> f (xs ! j) = f (ys ! j))"
proof (induction f zs xs ys arbitrary: j rule: tie_interleaved.induct)
  case (1 f a b zs x xs y ys)
  show ?case
  proof (cases j)
    case 0
    with 1 show ?thesis by auto
  next
    case (Suc j')
    with 1 show ?thesis by simp
  qed
qed simp_all

lemma set_column_same_length:
  "length vals = length frame \<Longrightarrow> set_column upd vals frame = Inr (map2 upd vals frame)"
  by (auto simp: set_column_def)

lemma set_column_Inl_iff:
  "set_column upd vals frame = Inl err \<longleftrightarrow>
     err = ValueError \<and> frame \<noteq> [] \<and> length vals \<noteq> length frame"
  by (auto simp: set_column_def)

lemma set_column_length:
  "set_column upd vals frame = Inr x \<Longrightarrow> length x = length vals"
  by (auto simp: set_column_def split: if_splits)

lemma length_12:
  "length xs = 12 \<Longrightarrow> \<exists>x0 x1 x2 x3 x4 x5 x6 x7 x8 x9 x10 x11. xs = [x0,x1,x2,x3,x4,x5,x6,x7,x8,x9,x10,x11]"
  by (simp add: eval_nat_numeral length_Suc_conv) blast

lemma tile_length: "length (np_tile [''Baseline'', ''Response''] 6) = 12"
  by (simp add: np_tile_def eval_nat_numeral)

lemma repeat4_length: "length (np_repeat [1..<7] 4) = 24"
  by (simp add: np_repeat_def eval_nat_numeral upt_rec)

lemma repeat12_length: "length (np_repeat [''Letter'', ''Category''] 12) = 24"
  by (simp add: np_repeat_def)

lemma trial_events_shape:
  assumes srt: "is_sort_index srt"
  shows
  "(trial_events srt m df = Inl ValueError \<and>
      \<not> (length (start_rows df) \<in> {0, 12} \<and> length (stop_rows df) \<in> {0, 12})) \<or>
   (\<exists>s1 t1. length (start_rows df) \<in> {0, 12} \<and> length (stop_rows df) \<in> {0, 12} \<and>
      set_column (\<lambda>v e. e\<lparr>TrialPhase := Some v\<rparr>) (np_tile [''Baseline'', ''Response''] 6) (start_rows df) = Inr s1 \<and>
      set_column (\<lambda>v e. e\<lparr>TrialPhase := Some v\<rparr>) (np_tile [''Baseline'', ''Response''] 6) (stop_rows df) = Inr t1 \<and>
      trial_events srt m df =
        Inr (map2 (\<lambda>v e. e\<lparr>Condition := Some v\<rparr>) (np_repeat [''Letter'', ''Category''] 12)
           (map2 (\<lambda>v e. e\<lparr>Trial := Some v\<rparr>) (np_repeat [1..<7] 4)
             (srt (map m s1 @ map (\<lambda>e. e\<lparr>StartStop := Some ''Stop''\<rparr>) t1)))))"
proof -
  let ?tile = "np_tile [''Baseline'', ''Response''] 6"
  let ?ph = "\<lambda>v e. e\<lparr>TrialPhase := Some v\<rparr>"
  show ?thesis
  proof (cases "set_column ?ph ?tile (start_rows df)")
    case (Inl err)
    then have "err = ValueError" "start_rows df \<noteq> []" "length (start_rows df) \<noteq> 12"
      by (auto simp: set_column_Inl_iff tile_length)
    with Inl show ?thesis by (simp add: trial_events_def)
  next
    case s1: (Inr s1)
    then have ls: "length (start_rows df) \<in> {0, 12}"
      by (auto simp: set_column_def tile_length split: if_splits)
    from set_column_length[OF s1] have l1: "length s1 = 12" by (simp add: tile_length)
    show ?thesis
    proof (cases "set_column ?ph ?tile (stop_rows df)")
      case (Inl err)
      then have "err = ValueError" "stop_rows df \<noteq> []" "length (stop_rows df) \<noteq> 12"
        by (auto simp: set_column_Inl_iff tile_length)
      with Inl s1 show ?thesis by (simp add: trial_events_def)
    next
      case t1: (Inr t1)
      then have lt: "length (stop_rows df) \<in> {0, 12}"
        by (auto simp: set_column_def tile_length split: if_splits)
      from set_column_length[OF t1] have l2: "length t1 = 12" by (simp add: tile_length)
      let ?X = "srt (map m s1 @ map (\<lambda>e. e\<lparr>StartStop := Some ''Stop''\<rparr>) t1)"
      have lx: "length ?X = 24" using l1 l2 by (simp add: is_sort_indexD(3)[OF srt])
      have s3: "set_column (\<lambda>v e. e\<lparr>Trial := Some v\<rparr>) (np_repeat [1..<7] 4) ?X
          = Inr (map2 (\<lambda>v e. e\<lparr>Trial := Some v\<rparr>) (np_repeat [1..<7] 4) ?X)"
        by (rule set_column_same_length) (simp only: lx repeat4_length)
      have s4: "set_column (\<lambda>v e. e\<lparr>Condition := Some v\<rparr>) (np_repeat [''Letter'', ''Category''] 12)
            (map2 (\<lambda>v e. e\<lparr>Trial := Some v\<rparr>) (np_repeat [1..<7] 4) ?X)
          = Inr (map2 (\<lambda>v e. e\<lparr>Condition := Some v\<rparr>) (np_repeat [''Letter'', ''Category''] 12)
            (map2 (\<lambda>v e. e\<lparr>Trial := Some v\<rparr>) (np_repeat [1..<7] 4) ?X))"
        by (rule set_column_same_length)
           (simp only: length_map length_zip lx repeat4_length repeat12_length min.idem)
      have "trial_events srt m df =
        Inr (map2 (\<lambda>v e. e\<lparr>Condition := Some v\<rparr>) (np_repeat [''Letter'', ''Category''] 12)
           (map2 (\<lambda>v e. e\<lparr>Trial := Some v\<rparr>) (np_repeat [1..<7] 4) ?X))"
        unfolding trial_events_def s1 t1 Let_def sum.case s3 s4 ..
      with ls lt s1 t1 show ?thesis by blast
    qed
  qed
qed

lemma table_nth:
  assumes "length ts = length X" and "length cs = length X" and "i < length X"
  shows "map2 (\<lambda>v e. e\<lparr>Condition := Some v\<rparr>) cs (map2 (\<lambda>v e. e\<lparr>Trial := Some v\<rparr>) ts X) ! i =
         (X ! i)\<lparr>Trial := Some (ts ! i), Condition := Some (cs ! i)\<rparr>"
  using assms by simp

lemma table_length:
  assumes "length ts = length X" and "length cs = length X"
  shows "length (map2 (\<lambda>v e. e\<lparr>Condition := Some v\<rparr>) cs
                   (map2 (\<lambda>v e. e\<lparr>Trial := Some v\<rparr>) ts X)) = length X"
  using assms by simp

lemma table_column:
  assumes "length ts = length X" and "length cs = length X"
    and "\<And>e v. g (e\<lparr>Trial := v\<rparr>) = g e" and "\<And>e v. g (e\<lparr>Condition := v\<rparr>) = g e"
  shows "map g (map2 (\<lambda>v e. e\<lparr>Condition := Some v\<rparr>) cs
                  (map2 (\<lambda>v e. e\<lparr>Trial := Some v\<rparr>) ts X)) = map g X"
  using assms(1,2) by (auto intro!: nth_equalityI simp: assms(3,4))

lemma table_Trial_column:
  assumes "length ts = length X" and "length cs = length X"
  shows "map Trial (map2 (\<lambda>v e. e\<lparr>Condition := Some v\<rparr>) cs
                  (map2 (\<lambda>v e. e\<lparr>Trial := Some v\<rparr>) ts X)) = map Some ts"
  using assms by (auto intro!: nth_equalityI)

lemma table_Condition_column:
  assumes "length ts = length X" and "length cs = length X"
  shows "map Condition (map2 (\<lambda>v e. e\<lparr>Condition := Some v\<rparr>) cs
                  (map2 (\<lambda>v e. e\<lparr>Trial := Some v\<rparr>) ts X)) = map Some cs"
  using assms by (auto intro!: nth_equalityI)

lemma trial_events_columns:
  assumes "is_sort_index srt" and "trial_events srt m df = Inr tbl"
  shows "map Trial tbl = map Some (np_repeat [1..<7] 4)"
    and "map Condition tbl = map Some (np_repeat [''Letter'', ''Category''] 12)"
    and "length tbl = 24"
proof -
  from trial_events_shape[OF assms(1), of m df] assms(2) obtain X where
    tbl: "tbl = map2 (\<lambda>v e. e\<lparr>Condition := Some v\<rparr>) (np_repeat [''Letter'', ''Category''] 12)
           (map2 (\<lambda>v e. e\<lparr>Trial := Some v\<rparr>) (np_repeat [1..<7] 4) X)"
    and lx: "length X = 24"
    by (auto dest!: set_column_length simp: tile_length is_sort_indexD(3)[OF assms(1)])
  have l4: "length (np_repeat [1..<7] 4) = length X" by (simp only: lx repeat4_length)
  have l12: "length (np_repeat [''Letter'', ''Category''] 12) = length X"
    by (simp only: lx repeat12_length)
  show "length tbl = 24" unfolding tbl by (simp only: table_length[OF l4 l12] lx)
  show "map Trial tbl = map Some (np_repeat [1..<7] 4)"
    unfolding tbl by (rule table_Trial_column[OF l4 l12])
  show "map Condition tbl = map Some (np_repeat [''Letter'', ''Category''] 12)"
    unfolding tbl by (rule table_Condition_column[OF l4 l12])
qed

lemma loc_rows_props:
  assumes "e \<in> set (loc_rows sel df)"
  shows "row_index e < length df \<and> ev_TETTime e = Some (TETTime (df ! row_index e))"
proof -
  from assms obtain i b r where
    mem: "(i, b, r) \<in> set (zip [0..<length df] (zip sel df))" and e: "e = event_of i r"
    by (auto simp: loc_rows_def)
  from mem obtain n where n: "n < length df" "[0..<length df] ! n = i" "(zip sel df) ! n = (b, r)"
     "n < length (zip sel df)"
    by (auto simp: in_set_zip)
  then have "i = n" "r = df ! n" by auto
  with n e show ?thesis by (simp add: event_of_def)
qed

lemma start_rows_props:
  "e \<in> set (start_rows df) \<Longrightarrow>
     row_index e < length df \<and> ev_TETTime e = Some (TETTime (df ! row_index e))"
  by (auto simp: start_rows_def dest: loc_rows_props)

lemma stop_rows_props:
  "e \<in> set (stop_rows df) \<Longrightarrow>
     row_index e < length df \<and> ev_TETTime e = Some (TETTime (df ! row_index e))"
  by (auto simp: stop_rows_def dest: loc_rows_props)

lemma wf_lengths:
  assumes wf: "well_formed df"
  shows "length (start_rows df) = 12" and "length (stop_rows df) = 12"
    and "interleaved (map row_index (start_rows df)) (map row_index (stop_rows df))"
proof -
  from wf show ls: "length (start_rows df) = 12"
    and il: "interleaved (map row_index (start_rows df)) (map row_index (stop_rows df))"
    by (auto simp: well_formed_def)
  from interleaved_length[OF il] ls show "length (stop_rows df) = 12" by simp
qed

lemma trial_events_wf:
  assumes srt: "is_sort_index srt" and wf: "well_formed df"
    and m: "\<And>e. row_index (m e) = row_index e"
  shows "\<exists>X. trial_events srt m df =
     Inr (map2 (\<lambda>v e. e\<lparr>Condition := Some v\<rparr>) (np_repeat [''Letter'', ''Category''] 12)
           (map2 (\<lambda>v e. e\<lparr>Trial := Some v\<rparr>) (np_repeat [1..<7] 4) X)) \<and>
     length X = 24 \<and>
     tie_interleaved row_index X
       (map m (map2 (\<lambda>v e. e\<lparr>TrialPhase := Some v\<rparr>) (np_tile [''Baseline'', ''Response''] 6) (start_rows df)))
       (map (\<lambda>e. e\<lparr>StartStop := Some ''Stop''\<rparr>)
          (map2 (\<lambda>v e. e\<lparr>TrialPhase := Some v\<rparr>) (np_tile [''Baseline'', ''Response''] 6) (stop_rows df)))"
proof -
  let ?tile = "np_tile [''Baseline'', ''Response''] 6"
  let ?ph = "\<lambda>v e. e\<lparr>TrialPhase := Some v\<rparr>"
  note ls = wf_lengths(1)[OF wf] and lt = wf_lengths(2)[OF wf] and il = wf_lengths(3)[OF wf]
  let ?A = "map m (map2 ?ph ?tile (start_rows df))"
  let ?B = "map (\<lambda>e. e\<lparr>StartStop := Some ''Stop''\<rparr>) (map2 ?ph ?tile (stop_rows df))"
  have ia: "map row_index ?A = map row_index (start_rows df)"
    using ls tile_length by (auto simp: m intro!: nth_equalityI)
  have ib: "map row_index ?B = map row_index (stop_rows df)"
    using lt tile_length by (auto intro!: nth_equalityI)
  have tie: "tie_interleaved row_index (srt (?A @ ?B)) ?A ?B"
    by (rule sorted_tie_interleaved)
       (simp only: ia ib il, rule is_sort_indexD(1)[OF srt], rule is_sort_indexD(2)[OF srt])
  have len: "length (srt (?A @ ?B)) = 24"
    using ls lt tile_length by (simp add: is_sort_indexD(3)[OF srt])
  have s1: "set_column ?ph ?tile (start_rows df) = Inr (map2 ?ph ?tile (start_rows df))"
    by (rule set_column_same_length) (simp add: ls tile_length)
  have s2: "set_column ?ph ?tile (stop_rows df) = Inr (map2 ?ph ?tile (stop_rows df))"
    by (rule set_column_same_length) (simp add: lt tile_length)
  have s3: "set_column (\<lambda>v e. e\<lparr>Trial := Some v\<rparr>) (np_repeat [1..<7] 4) (srt (?A @ ?B))
      = Inr (map2 (\<lambda>v e. e\<lparr>Trial := Some v\<rparr>) (np_repeat [1..<7] 4) (srt (?A @ ?B)))"
    by (rule set_column_same_length) (simp only: len repeat4_length)
  have s4: "set_column (\<lambda>v e. e\<lparr>Condition := Some v\<rparr>) (np_repeat [''Letter'', ''Category''] 12)
        (map2 (\<lambda>v e. e\<lparr>Trial := Some v\<rparr>) (np_repeat [1..<7] 4) (srt (?A @ ?B)))
      = Inr (map2 (\<lambda>v e. e\<lparr>Condition := Some v\<rparr>) (np_repeat [''Letter'', ''Category''] 12)
        (map2 (\<lambda>v e. e\<lparr>Trial := Some v\<rparr>) (np_repeat [1..<7] 4) (srt (?A @ ?B))))"
    by (rule set_column_same_length) (simp only: length_map length_zip len repeat4_length repeat12_length min.idem)
  have "trial_events srt m df =
     Inr (map2 (\<lambda>v e. e\<lparr>Condition := Some v\<rparr>) (np_repeat [''Letter'', ''Category''] 12)
           (map2 (\<lambda>v e. e\<lparr>Trial := Some v\<rparr>) (np_repeat [1..<7] 4) (srt (?A @ ?B))))"
    unfolding trial_events_def s1 s2 Let_def sum.case s3 s4 ..
  with len tie show ?thesis by blast
qed

lemma wf_table:
  assumes srt: "is_sort_index srt" and wf: "well_formed df"
    and m: "\<And>e. row_index (m e) = row_index e" "\<And>e. ev_TETTime (m e) = ev_TETTime e"
      "\<And>e. TrialPhase (m e) = TrialPhase e"
    and tbl: "trial_events srt m df = Inr tbl"
  shows "map TrialPhase tbl =
           interleave (map Some (np_tile [''Baseline'', ''Response''] 6))
             (map Some (np_tile [''Baseline'', ''Response''] 6))"
    and "map ev_TETTime tbl =
           interleave (map ev_TETTime (start_rows df)) (map ev_TETTime (stop_rows df))"
    and "\<forall>j < 12. \<exists>a b.
           (tbl ! (2 * j) = a \<and> tbl ! (2 * j + 1) = b \<or>
            tbl ! (2 * j) = b \<and> tbl ! (2 * j + 1) = a \<and> row_index a = row_index b) \<and>
           (\<exists>t c. a = (m ((start_rows df ! j)\<lparr>TrialPhase := Some (np_tile [''Baseline'', ''Response''] 6 ! j)\<rparr>))
                        \<lparr>Trial := t, Condition := c\<rparr>) \<and>
           (\<exists>t c. b = (stop_rows df ! j)\<lparr>TrialPhase := Some (np_tile [''Baseline'', ''Response''] 6 ! j),
                          StartStop := Some ''Stop'', Trial := t, Condition := c\<rparr>)"
proof -
  let ?tile = "np_tile [''Baseline'', ''Response''] 6"
  let ?ph = "\<lambda>v e. e\<lparr>TrialPhase := Some v\<rparr>"
  let ?A = "map m (map2 ?ph ?tile (start_rows df))"
  let ?B = "map (\<lambda>e. e\<lparr>StartStop := Some ''Stop''\<rparr>) (map2 ?ph ?tile (stop_rows df))"
  note ls = wf_lengths(1)[OF wf] and lt = wf_lengths(2)[OF wf]
  from trial_events_wf[OF srt wf m(1)] tbl obtain X where
    t: "tbl = map2 (\<lambda>v e. e\<lparr>Condition := Some v\<rparr>) (np_repeat [''Letter'', ''Category''] 12)
           (map2 (\<lambda>v e. e\<lparr>Trial := Some v\<rparr>) (np_repeat [1..<7] 4) X)"
    and lx: "length X = 24" and tie: "tie_interleaved row_index X ?A ?B"
    by auto
  have l4: "length (np_repeat [1..<7] 4) = length X" by (simp only: lx repeat4_length)
  have l12: "length (np_repeat [''Letter'', ''Category''] 12) = length X"
    by (simp only: lx repeat12_length)
  have la: "length ?A = 12" and lb: "length ?B = 12" using ls lt tile_length by simp_all
  have An: "?A ! j = m ((start_rows df ! j)\<lparr>TrialPhase := Some (?tile ! j)\<rparr>)" if "j < 12" for j
    using that ls tile_length by simp
  have Bn: "?B ! j = (stop_rows df ! j)\<lparr>TrialPhase := Some (?tile ! j), StartStop := Some ''Stop''\<rparr>"
    if "j < 12" for j
    using that lt tile_length by simp
  have zipAB: "\<exists>j < 12. x = ?A ! j \<and> y = ?B ! j" if "(x, y) \<in> set (zip ?A ?B)" for x y
  proof -
    from that[unfolded set_zip] obtain j where
      j: "x = ?A ! j" "y = ?B ! j" "j < min (length ?A) (length ?B)" by blast
    from j(3) have "j < 12" by (simp only: la lb min.idem)
    with j(1,2) show ?thesis by blast
  qed
  have phase_tie: "\<forall>(x, y) \<in> set (zip ?A ?B). row_index x = row_index y \<longrightarrow> TrialPhase x = TrialPhase y"
  proof (clarify)
    fix x y assume "(x, y) \<in> set (zip ?A ?B)"
    from zipAB[OF this] obtain j where j: "j < 12" "x = ?A ! j" "y = ?B ! j" by blast
    then show "TrialPhase x = TrialPhase y" by (simp only: An[OF j(1)] Bn[OF j(1)]) (simp add: m)
  qed
  have time_tie: "\<forall>(x, y) \<in> set (zip ?A ?B). row_index x = row_index y \<longrightarrow> ev_TETTime x = ev_TETTime y"
  proof (clarify)
    fix x y assume xy: "(x, y) \<in> set (zip ?A ?B)" and eq: "row_index x = row_index y"
    from zipAB[OF xy] obtain j where j: "j < 12" "x = ?A ! j" "y = ?B ! j" by blast
    from j ls lt have s: "start_rows df ! j \<in> set (start_rows df)"
      and e: "stop_rows df ! j \<in> set (stop_rows df)" by simp_all
    from j have rx: "row_index x = row_index (start_rows df ! j)"
      and tx: "ev_TETTime x = ev_TETTime (start_rows df ! j)"
      and ry: "row_index y = row_index (stop_rows df ! j)"
      and ty: "ev_TETTime y = ev_TETTime (stop_rows df ! j)"
      by (simp_all only: An[OF j(1)] Bn[OF j(1)]) (simp_all add: m)
    from start_rows_props[OF s] stop_rows_props[OF e] eq rx ry tx ty
    show "ev_TETTime x = ev_TETTime y" by simp
  qed
  have "map TrialPhase tbl = map TrialPhase X"
    unfolding t by (rule table_column[OF l4 l12]) simp_all
  also have "\<dots> = interleave (map TrialPhase ?A) (map TrialPhase ?B)"
    by (rule tie_interleaved_column[OF tie phase_tie])
  also have "map TrialPhase ?A = map Some ?tile"
    using ls tile_length by (auto simp: m intro!: nth_equalityI)
  also have "map TrialPhase ?B = map Some ?tile"
    using lt tile_length by (auto intro!: nth_equalityI)
  finally show "map TrialPhase tbl = interleave (map Some ?tile) (map Some ?tile)" .
  have "map ev_TETTime tbl = map ev_TETTime X"
    unfolding t by (rule table_column[OF l4 l12]) simp_all
  also have "\<dots> = interleave (map ev_TETTime ?A) (map ev_TETTime ?B)"
    by (rule tie_interleaved_column[OF tie time_tie])
  also have "map ev_TETTime ?A = map ev_TETTime (start_rows df)"
    using ls tile_length by (auto simp: m intro!: nth_equalityI)
  also have "map ev_TETTime ?B = map ev_TETTime (stop_rows df)"
    using lt tile_length by (auto intro!: nth_equalityI)
  finally show "map ev_TETTime tbl =
      interleave (map ev_TETTime (start_rows df)) (map ev_TETTime (stop_rows df))" .
  show "\<forall>j < 12. \<exists>a b.
           (tbl ! (2 * j) = a \<and> tbl ! (2 * j + 1) = b \<or>
            tbl ! (2 * j) = b \<and> tbl ! (2 * j + 1) = a \<and> row_index a = row_index b) \<and>
           (\<exists>t c. a = (m ((start_rows df ! j)\<lparr>TrialPhase := Some (?tile ! j)\<rparr>))
                        \<lparr>Trial := t, Condition := c\<rparr>) \<and>
           (\<exists>t c. b = (stop_rows df ! j)\<lparr>TrialPhase := Some (?tile ! j),
                          StartStop := Some ''Stop'', Trial := t, Condition := c\<rparr>)"
  proof (intro allI impI)
    fix j :: nat assume j: "j < 12"
    then have i0: "2 * j < length X" and i1: "2 * j + 1 < length X" using lx by simp_all
    note n0 = table_nth[OF l4 l12 i0, folded t] and n1 = table_nth[OF l4 l12 i1, folded t]
    from j have "j < length ?A" by (simp only: la)
    from tie_interleaved_nth[OF tie this]
    consider (ordered) "X ! (2 * j) = ?A ! j" "X ! (2 * j + 1) = ?B ! j"
      | (swapped) "X ! (2 * j) = ?B ! j" "X ! (2 * j + 1) = ?A ! j" "row_index (?A ! j) = row_index (?B ! j)"
      by blast
    then show "\<exists>a b.
           (tbl ! (2 * j) = a \<and> tbl ! (2 * j + 1) = b \<or>
            tbl ! (2 * j) = b \<and> tbl ! (2 * j + 1) = a \<and> row_index a = row_index b) \<and>
           (\<exists>t c. a = (m ((start_rows df ! j)\<lparr>TrialPhase := Some (?tile ! j)\<rparr>))
                        \<lparr>Trial := t, Condition := c\<rparr>) \<and>
           (\<exists>t c. b = (stop_rows df ! j)\<lparr>TrialPhase := Some (?tile ! j),
                          StartStop := Some ''Stop'', Trial := t, Condition := c\<rparr>)"
    proof cases
      case ordered
      have "tbl ! (2 * j) = (m ((start_rows df ! j)\<lparr>TrialPhase := Some (?tile ! j)\<rparr>))
              \<lparr>Trial := Some (np_repeat [1..<7] 4 ! (2 * j)),
               Condition := Some (np_repeat [''Letter'', ''Category''] 12 ! (2 * j))\<rparr>"
        by (simp only: n0 ordered An[OF j])
      moreover have "tbl ! (2 * j + 1) = (stop_rows df ! j)\<lparr>TrialPhase := Some (?tile ! j),
              StartStop := Some ''Stop'', Trial := Some (np_repeat [1..<7] 4 ! (2 * j + 1)),
              Condition := Some (np_repeat [''Letter'', ''Category''] 12 ! (2 * j + 1))\<rparr>"
        by (simp only: n1 ordered Bn[OF j])
      ultimately show ?thesis by blast
    next
      case swapped
      let ?a = "(m ((start_rows df ! j)\<lparr>TrialPhase := Some (?tile ! j)\<rparr>))
              \<lparr>Trial := Some (np_repeat [1..<7] 4 ! (2 * j + 1)),
               Condition := Some (np_repeat [''Letter'', ''Category''] 12 ! (2 * j + 1))\<rparr>"
      let ?b = "(stop_rows df ! j)\<lparr>TrialPhase := Some (?tile ! j),
              StartStop := Some ''Stop'', Trial := Some (np_repeat [1..<7] 4 ! (2 * j)),
              Condition := Some (np_repeat [''Letter'', ''Category''] 12 ! (2 * j))\<rparr>"
      have a: "tbl ! (2 * j + 1) = ?a" by (simp only: n1 swapped An[OF j])
      have b: "tbl ! (2 * j) = ?b" by (simp only: n0 swapped Bn[OF j])
      from swapped(3) have "row_index (start_rows df ! j) = row_index (stop_rows df ! j)"
        by (simp only: An[OF j] Bn[OF j]) (simp add: m)
      then have r: "row_index ?a = row_index ?b" by (simp add: m)
      have pq: "(tbl ! (2 * j) = ?a \<and> tbl ! (2 * j + 1) = ?b \<or>
            tbl ! (2 * j) = ?b \<and> tbl ! (2 * j + 1) = ?a \<and> row_index ?a = row_index ?b) \<and>
           (\<exists>t c. ?a = (m ((start_rows df ! j)\<lparr>TrialPhase := Some (?tile ! j)\<rparr>))
                        \<lparr>Trial := t, Condition := c\<rparr>) \<and>
           (\<exists>t c. ?b = (stop_rows df ! j)\<lparr>TrialPhase := Some (?tile ! j),
                          StartStop := Some ''Stop'', Trial := t, Condition := c\<rparr>)"
        using a b r by blast
      show ?thesis by (rule exI[of _ "?a"], rule exI[of _ "?b"], rule pq)
    qed
  qed
qed

lemma interleaved_zip_le:
  "interleaved ss es \<Longrightarrow> (s, e) \<in> set (zip ss es) \<Longrightarrow> s \<le> e"
  by (induction ss es rule: interleaved.induct) auto

lemma wf_pair_index:
  assumes wf: "well_formed df" and j: "j < 12"
  shows "row_index (start_rows df ! j) \<le> row_index (stop_rows df ! j)"
proof -
  note ls = wf_lengths(1)[OF wf] and lt = wf_lengths(2)[OF wf]
  from j ls lt have "(row_index (start_rows df ! j), row_index (stop_rows df ! j)) \<in>
      set (zip (map row_index (start_rows df)) (map row_index (stop_rows df)))"
    unfolding in_set_zip by (intro exI[of _ j]) simp
  with wf_lengths(3)[OF wf] show ?thesis by (rule interleaved_zip_le)
qed

lemma wf_pair_times:
  assumes wf: "well_formed df" and srt: "sorted (map TETTime df)" and j: "j < 12"
  shows "\<exists>ta tb. ev_TETTime (start_rows df ! j) = Some ta \<and>
                 ev_TETTime (stop_rows df ! j) = Some tb \<and> ta \<le> tb"
proof -
  note ls = wf_lengths(1)[OF wf] and lt = wf_lengths(2)[OF wf]
  from j ls lt have a: "start_rows df ! j \<in> set (start_rows df)"
    and b: "stop_rows df ! j \<in> set (stop_rows df)" by simp_all
  from start_rows_props[OF a] stop_rows_props[OF b] wf_pair_index[OF wf j] srt
  show ?thesis
    using sorted_nth_mono[of "map TETTime df" "row_index (start_rows df ! j)" "row_index (stop_rows df ! j)"]
    by simp
qed

lemma wf_tied_pair_times:
  assumes wf: "well_formed df" and j: "j < 12"
    and eq: "row_index (start_rows df ! j) = row_index (stop_rows df ! j)"
  shows "ev_TETTime (start_rows df ! j) = ev_TETTime (stop_rows df ! j)"
proof -
  note ls = wf_lengths(1)[OF wf] and lt = wf_lengths(2)[OF wf]
  from j ls lt have a: "start_rows df ! j \<in> set (start_rows df)"
    and b: "stop_rows df ! j \<in> set (stop_rows df)" by simp_all
  from start_rows_props[OF a] stop_rows_props[OF b] eq show ?thesis by simp
qed

lemma interleaved_nth_lt:
  "interleaved ss es \<Longrightarrow> k < l \<Longrightarrow> l < length ss \<Longrightarrow> es ! k < ss ! l"
proof (induction ss es arbitrary: k l rule: interleaved.induct)
  case 1
  then show ?case by simp
next
  case (2 s ss e es)
  from "2.prems"(2) obtain l' where l: "l = Suc l'" by (cases l) auto
  show ?case
  proof (cases k)
    case 0
    from "2.prems"(3) l have "ss ! l' \<in> set ss" by simp
    with interleaved_after[OF "2.prems"(1)] have "e < ss ! l'" by blast
    with 0 l show ?thesis by simp
  next
    case (Suc k')
    from "2.prems"(1) have "interleaved ss es" by simp
    from "2.IH"[OF this, of k' l'] "2.prems" l Suc show ?thesis by simp
  qed
qed simp_all

lemma wf_stop_before_later_start:
  assumes wf: "well_formed df" and strict: "sorted_wrt (<) (map TETTime df)"
    and kl: "k < l" "l < 12"
  shows "\<exists>tb ta. ev_TETTime (stop_rows df ! k) = Some tb \<and>
                 ev_TETTime (start_rows df ! l) = Some ta \<and> tb < ta"
proof -
  note ls = wf_lengths(1)[OF wf] and lt = wf_lengths(2)[OF wf] and il = wf_lengths(3)[OF wf]
  from kl ls lt have a: "start_rows df ! l \<in> set (start_rows df)"
    and b: "stop_rows df ! k \<in> set (stop_rows df)" by simp_all
  from interleaved_nth_lt[OF il kl(1)] kl ls lt
  have lt_idx: "row_index (stop_rows df ! k) < row_index (start_rows df ! l)" by simp
  from start_rows_props[OF a] stop_rows_props[OF b] lt_idx strict
  show ?thesis
    using sorted_wrt_nth_less[of "(<)" "map TETTime df" "row_index (stop_rows df ! k)" "row_index (start_rows df ! l)"]
    by simp
qed

lemma filter_columns:
  "map g (filter (\<lambda>e. h e = c) xs) =
     map snd (filter (\<lambda>p. fst p = c) (zip (map h xs) (map g xs)))"
  by (induction xs) auto

lemma trial_times_wf:
  assumes srt: "is_sort_index srt" and wf: "well_formed df"
    and m: "\<And>e. row_index (m e) = row_index e" "\<And>e. ev_TETTime (m e) = ev_TETTime e"
      "\<And>e. TrialPhase (m e) = TrialPhase e"
    and tbl: "trial_events srt m df = Inr tbl"
  shows "trial_times tbl n =
     (if 1 \<le> n \<and> n \<le> 6
      then [ev_TETTime (start_rows df ! (2 * n - 2)), ev_TETTime (stop_rows df ! (2 * n - 2)),
            ev_TETTime (start_rows df ! (2 * n - 1)), ev_TETTime (stop_rows df ! (2 * n - 1))]
      else [])"
proof -
  from length_12[OF wf_lengths(1)[OF wf]] obtain s0 s1 s2 s3 s4 s5 s6 s7 s8 s9 s10 s11 where
    S: "start_rows df = [s0,s1,s2,s3,s4,s5,s6,s7,s8,s9,s10,s11]" by blast
  from length_12[OF wf_lengths(2)[OF wf]] obtain e0 e1 e2 e3 e4 e5 e6 e7 e8 e9 e10 e11 where
    T: "stop_rows df = [e0,e1,e2,e3,e4,e5,e6,e7,e8,e9,e10,e11]" by blast
  note cT = trial_events_columns(1)[OF srt tbl] and cE = wf_table(2)[OF srt wf m tbl]
  have tt: "trial_times tbl n =
      map snd (filter (\<lambda>p. fst p = Some n) (zip (map Trial tbl) (map ev_TETTime tbl)))" for n
    unfolding trial_times_def by (rule filter_columns)
  consider "n = 1" | "n = 2" | "n = 3" | "n = 4" | "n = 5" | "n = 6" | "n = 0 \<or> 6 < n" by arith
  then show ?thesis
    by cases (auto simp: tt cT cE S T np_repeat_def eval_nat_numeral upt_rec)
qed

lemma fluency_error_iff:
  assumes "is_sort_index srt"
  shows "isl (get_trial_events_fluency srt df) \<longleftrightarrow>
     \<not> (length (start_rows df) \<in> {0, 12} \<and> length (stop_rows df) \<in> {0, 12})"
  using trial_events_shape[OF assms, of "\<lambda>e. e\<lparr>StartStop := Some ''Start''\<rparr>" df]
  by (auto simp: get_trial_events_fluency_def)

lemma fluency_only_ValueError:
  assumes "is_sort_index srt"
  shows "isl (get_trial_events_fluency srt df) \<Longrightarrow> get_trial_events_fluency srt df = Inl ValueError"
  using trial_events_shape[OF assms, of "\<lambda>e. e\<lparr>StartStop := Some ''Start''\<rparr>" df]
  by (auto simp: get_trial_events_fluency_def)

lemma fluency_table_wf:
  assumes "is_sort_index srt" and "well_formed df"
  shows "\<exists>tbl. get_trial_events_fluency srt df = Inr tbl"
  using trial_events_wf[OF assms, of "\<lambda>e. e\<lparr>StartStop := Some ''Start''\<rparr>"]
  by (auto simp: get_trial_events_fluency_def)

lemma recall_table_wf:
  assumes "is_sort_index srt" and "well_formed df"
  shows "\<exists>tbl. get_trial_events_recall srt df = Inr tbl"
  using trial_events_wf[OF assms, of "\<lambda>e. e\<lparr>StatStop := Some ''Start''\<rparr>"]
  by (auto simp: get_trial_events_recall_def)

lemma filter_positions:
  "filter P xs = map ((!) xs) (filter (\<lambda>i. P (xs ! i)) [0..<length xs])"
proof -
  have "filter P (map ((!) xs) [0..<length xs]) =
      map ((!) xs) (filter (P \<circ> (!) xs) [0..<length xs])" by (rule filter_map)
  then show ?thesis by (simp add: map_nth comp_def)
qed

lemma phase_positions:
  "list_all (\<lambda>k. list_all (\<lambda>ph.
      filter (\<lambda>i. map Some (np_repeat [1..<7] 4) ! i = Some k \<and>
                 interleave (map Some (np_tile [''Baseline'', ''Response''] 6))
                   (map Some (np_tile [''Baseline'', ''Response''] 6)) ! i = Some ph) [0..<24] =
        [2 * (2 * (k - 1) + (if ph = ''Baseline'' then 0 else 1)),
         2 * (2 * (k - 1) + (if ph = ''Baseline'' then 0 else 1)) + 1])
      [''Baseline'', ''Response'']) [1..<7]"
  by code_simp

lemma wf_phase_filter:
  assumes srt: "is_sort_index srt" and wf: "well_formed df"
    and m: "\<And>e. row_index (m e) = row_index e" "\<And>e. ev_TETTime (m e) = ev_TETTime e"
      "\<And>e. TrialPhase (m e) = TrialPhase e"
    and tbl: "trial_events srt m df = Inr tbl"
    and k: "k \<in> {1, 2, 3, 4, 5, 6}" and ph: "ph \<in> {''Baseline'', ''Response''}"
  shows "filter (\<lambda>e. Trial e = Some k \<and> TrialPhase e = Some ph) tbl =
           [tbl ! (2 * (2 * (k - 1) + (if ph = ''Baseline'' then 0 else 1))),
            tbl ! (2 * (2 * (k - 1) + (if ph = ''Baseline'' then 0 else 1)) + 1)]"
proof -
  note cT = trial_events_columns(1)[OF srt tbl] and l = trial_events_columns(3)[OF srt tbl]
    and cP = wf_table(1)[OF srt wf m tbl]
  let ?Q = "\<lambda>i. map Some (np_repeat [1..<7] 4) ! i = Some k \<and>
                 interleave (map Some (np_tile [''Baseline'', ''Response''] 6))
                   (map Some (np_tile [''Baseline'', ''Response''] 6)) ! i = Some ph"
  have c: "filter (\<lambda>i. Trial (tbl ! i) = Some k \<and> TrialPhase (tbl ! i) = Some ph) [0..<24] =
        filter ?Q [0..<24]"
  proof (rule filter_cong[OF refl])
    fix i assume "i \<in> set [0..<24]"
    then have i: "i < length tbl" using l by simp
    from i have "Trial (tbl ! i) = map Trial tbl ! i" "TrialPhase (tbl ! i) = map TrialPhase tbl ! i"
      by simp_all
    then show "(Trial (tbl ! i) = Some k \<and> TrialPhase (tbl ! i) = Some ph) = ?Q i"
      by (simp only: cT cP)
  qed
  from k have k': "k \<in> set [1..<7]" by auto
  from ph have ph': "ph \<in> set [''Baseline'', ''Response'']" by auto
  from phase_positions[unfolded list_all_iff, THEN bspec, OF k', THEN bspec, OF ph']
  have "filter (\<lambda>i. Trial (tbl ! i) = Some k \<and> TrialPhase (tbl ! i) = Some ph) [0..<24] =
        [2 * (2 * (k - 1) + (if ph = ''Baseline'' then 0 else 1)),
         2 * (2 * (k - 1) + (if ph = ''Baseline'' then 0 else 1)) + 1]"
    by (simp only: c)
  then show ?thesis
    by (subst filter_positions) (simp only: l list.map)
qed

lemma fluency_phase_pair:
  assumes srt: "is_sort_index srt" and wf: "well_formed df"
    and tbl: "get_trial_events_fluency srt df = Inr tbl"
    and k: "k \<in> {1, 2, 3, 4, 5, 6}" and ph: "ph \<in> {''Baseline'', ''Response''}"
  shows "\<exists>a b j. j < 12 \<and>
     (filter (\<lambda>e. Trial e = Some k \<and> TrialPhase e = Some ph) tbl = [a, b] \<or>
      filter (\<lambda>e. Trial e = Some k \<and> TrialPhase e = Some ph) tbl = [b, a] \<and>
        row_index a = row_index b) \<and>
     StartStop a = Some ''Start'' \<and> StartStop b = Some ''Stop'' \<and>
     row_index a = row_index (start_rows df ! j) \<and> row_index b = row_index (stop_rows df ! j) \<and>
     ev_TETTime a = ev_TETTime (start_rows df ! j) \<and> ev_TETTime b = ev_TETTime (stop_rows df ! j)"
proof -
  let ?m = "\<lambda>e. e\<lparr>StartStop := Some ''Start''\<rparr>"
  let ?j = "2 * (k - 1) + (if ph = ''Baseline'' then 0 else 1)"
  from k have j: "?j < 12" by auto
  from tbl have t: "trial_events srt ?m df = Inr tbl" by (simp add: get_trial_events_fluency_def)
  have f: "filter (\<lambda>e. Trial e = Some k \<and> TrialPhase e = Some ph) tbl =
      [tbl ! (2 * ?j), tbl ! (2 * ?j + 1)]"
    by (rule wf_phase_filter[OF srt wf _ _ _ t k ph]) simp_all
  from wf_table(3)[OF srt wf _ _ _ t, THEN spec, THEN mp, OF _ _ _ j]
  obtain a b where
    ab: "tbl ! (2 * ?j) = a \<and> tbl ! (2 * ?j + 1) = b \<or>
         tbl ! (2 * ?j) = b \<and> tbl ! (2 * ?j + 1) = a \<and> row_index a = row_index b"
    and a: "\<exists>t c. a = (?m ((start_rows df ! ?j)\<lparr>TrialPhase := Some (np_tile [''Baseline'', ''Response''] 6 ! ?j)\<rparr>))
                        \<lparr>Trial := t, Condition := c\<rparr>"
    and b: "\<exists>t c. b = (stop_rows df ! ?j)\<lparr>TrialPhase := Some (np_tile [''Baseline'', ''Response''] 6 ! ?j),
                          StartStop := Some ''Stop'', Trial := t, Condition := c\<rparr>"
    by simp blast
  from a have pa: "StartStop a = Some ''Start''" "row_index a = row_index (start_rows df ! ?j)"
    "ev_TETTime a = ev_TETTime (start_rows df ! ?j)" by auto
  from b have pb: "StartStop b = Some ''Stop''" "row_index b = row_index (stop_rows df ! ?j)"
    "ev_TETTime b = ev_TETTime (stop_rows df ! ?j)" by auto
  from ab have "filter (\<lambda>e. Trial e = Some k \<and> TrialPhase e = Some ph) tbl = [a, b] \<or>
      filter (\<lambda>e. Trial e = Some k \<and> TrialPhase e = Some ph) tbl = [b, a] \<and>
        row_index a = row_index b"
    unfolding f by blast
  with j pa pb show ?thesis by blast
qed

lemma map_pair_zip: "map (\<lambda>e. (f e, g e)) xs = zip (map f xs) (map g xs)"
  by (induction xs) auto

lemma map_triple_zip:
  "map (\<lambda>e. (f e, g e, h e)) xs = zip (map f xs) (zip (map g xs) (map h xs))"
  by (induction xs) auto

text \<open>
  Claim C1, as the code has it. \<open>get_trial_events\<close> of the fluency script raises ValueError
  exactly when the number of start rows is neither 0 nor 12, or the number of stop rows is
  neither 0 nor 12: a frame of 0 rows is enlarged to 12 blank rows by the column assignment
  instead of raising. It raises nothing else. Whenever it returns, the table has 24 rows,
  numbered trial 1 to 6, four rows each. For a well-formed stream the phases of every trial
  are Baseline, Baseline, Response, Response, and the two rows of a trial and phase are one
  Start and one Stop, in either order when both are the same row of the stream. This holds
  for every order in which \<open>sort_index\<close> may leave rows of equal label.
\<close>

theorem fluency_boundary_count:
  assumes "is_sort_index sort_index"
  shows
  "(isl (get_trial_events_fluency sort_index df) \<longleftrightarrow>
      \<not> (length (start_rows df) \<in> {0, 12} \<and> length (stop_rows df) \<in> {0, 12})) \<and>
   (isl (get_trial_events_fluency sort_index df) \<longrightarrow>
      get_trial_events_fluency sort_index df = Inl ValueError) \<and>
   (\<forall>tbl. get_trial_events_fluency sort_index df = Inr tbl \<longrightarrow>
      length tbl = 24 \<and> map Trial tbl = map Some (np_repeat [1..<7] 4)) \<and>
   (well_formed df \<longrightarrow>
      (\<exists>tbl. get_trial_events_fluency sort_index df = Inr tbl \<and>
         map (\<lambda>e. (Trial e, TrialPhase e)) tbl =
           concat (map (\<lambda>k. [(Some k, Some ''Baseline''), (Some k, Some ''Baseline''),
                             (Some k, Some ''Response''), (Some k, Some ''Response'')]) [1..<7]) \<and>
         (\<forall>k \<in> {1, 2, 3, 4, 5, 6}. \<forall>ph \<in> {''Baseline'', ''Response''}.
            \<exists>a b.
              (filter (\<lambda>e. Trial e = Some k \<and> TrialPhase e = Some ph) tbl = [a, b] \<or>
               filter (\<lambda>e. Trial e = Some k \<and> TrialPhase e = Some ph) tbl = [b, a] \<and>
                 row_index a = row_index b) \<and>
              StartStop a = Some ''Start'' \<and> StartStop b = Some ''Stop'')))"
proof (intro conjI allI impI)
  show "isl (get_trial_events_fluency sort_index df) \<longleftrightarrow>
      \<not> (length (start_rows df) \<in> {0, 12} \<and> length (stop_rows df) \<in> {0, 12})"
    by (rule fluency_error_iff[OF assms])
next
  assume "isl (get_trial_events_fluency sort_index df)"
  then show "get_trial_events_fluency sort_index df = Inl ValueError"
    by (rule fluency_only_ValueError[OF assms])
next
  fix tbl assume "get_trial_events_fluency sort_index df = Inr tbl"
  then show "length tbl = 24"
    unfolding get_trial_events_fluency_def by (rule trial_events_columns(3)[OF assms])
next
  fix tbl assume "get_trial_events_fluency sort_index df = Inr tbl"
  then show "map Trial tbl = map Some (np_repeat [1..<7] 4)"
    unfolding get_trial_events_fluency_def by (rule trial_events_columns(1)[OF assms])
next
  assume wf: "well_formed df"
  from fluency_table_wf[OF assms wf] obtain tbl where
    t: "get_trial_events_fluency sort_index df = Inr tbl" by blast
  note t' = t[unfolded get_trial_events_fluency_def]
  have cP: "map TrialPhase tbl =
           interleave (map Some (np_tile [''Baseline'', ''Response''] 6))
             (map Some (np_tile [''Baseline'', ''Response''] 6))"
    by (rule wf_table(1)[OF assms wf _ _ _ t']) simp_all
  have col: "map (\<lambda>e. (Trial e, TrialPhase e)) tbl =
           concat (map (\<lambda>k. [(Some k, Some ''Baseline''), (Some k, Some ''Baseline''),
                             (Some k, Some ''Response''), (Some k, Some ''Response'')]) [1..<7])"
    unfolding map_pair_zip trial_events_columns(1)[OF assms t'] cP
    by (simp add: np_tile_def np_repeat_def eval_nat_numeral upt_rec)
  have pairs: "\<forall>k \<in> {1, 2, 3, 4, 5, 6}. \<forall>ph \<in> {''Baseline'', ''Response''}.
            \<exists>a b.
              (filter (\<lambda>e. Trial e = Some k \<and> TrialPhase e = Some ph) tbl = [a, b] \<or>
               filter (\<lambda>e. Trial e = Some k \<and> TrialPhase e = Some ph) tbl = [b, a] \<and>
                 row_index a = row_index b) \<and>
              StartStop a = Some ''Start'' \<and> StartStop b = Some ''Stop''"
  proof (intro ballI)
    fix k :: nat and ph :: string
    assume k: "k \<in> {1, 2, 3, 4, 5, 6}" and ph: "ph \<in> {''Baseline'', ''Response''}"
    from fluency_phase_pair[OF assms wf t k ph]
    show "\<exists>a b.
              (filter (\<lambda>e. Trial e = Some k \<and> TrialPhase e = Some ph) tbl = [a, b] \<or>
               filter (\<lambda>e. Trial e = Some k \<and> TrialPhase e = Some ph) tbl = [b, a] \<and>
                 row_index a = row_index b) \<and>
              StartStop a = Some ''Start'' \<and> StartStop b = Some ''Stop''"
      by blast
  qed
  from t col pairs
  show "\<exists>tbl. get_trial_events_fluency sort_index df = Inr tbl \<and>
         map (\<lambda>e. (Trial e, TrialPhase e)) tbl =
           concat (map (\<lambda>k. [(Some k, Some ''Baseline''), (Some k, Some ''Baseline''),
                             (Some k, Some ''Response''), (Some k, Some ''Response'')]) [1..<7]) \<and>
         (\<forall>k \<in> {1, 2, 3, 4, 5, 6}. \<forall>ph \<in> {''Baseline'', ''Response''}.
            \<exists>a b.
              (filter (\<lambda>e. Trial e = Some k \<and> TrialPhase e = Some ph) tbl = [a, b] \<or>
               filter (\<lambda>e. Trial e = Some k \<and> TrialPhase e = Some ph) tbl = [b, a] \<and>
                 row_index a = row_index b) \<and>
              StartStop a = Some ''Start'' \<and> StartStop b = Some ''Stop'')"
    by (intro exI[of _ tbl] conjI)
qed

text \<open>The theorem at the six-trial session, and at the five-trial session with its 20 boundary
  rows, which raises; the sort is the stable one.\<close>

theorem fluency_boundary_count_witness:
  "is_sort_index (sort_key row_index) \<and> well_formed six_trial_session \<and>
   (\<exists>tbl. get_trial_events_fluency (sort_key row_index) six_trial_session = Inr tbl \<and>
      length tbl = 24 \<and> map Trial tbl = map Some (np_repeat [1..<7] 4) \<and>
      map (\<lambda>e. (Trial e, TrialPhase e)) tbl =
           concat (map (\<lambda>k. [(Some k, Some ''Baseline''), (Some k, Some ''Baseline''),
                             (Some k, Some ''Response''), (Some k, Some ''Response'')]) [1..<7]) \<and>
      (\<forall>k \<in> {1, 2, 3, 4, 5, 6}. \<forall>ph \<in> {''Baseline'', ''Response''}.
            \<exists>a b.
              (filter (\<lambda>e. Trial e = Some k \<and> TrialPhase e = Some ph) tbl = [a, b] \<or>
               filter (\<lambda>e. Trial e = Some k \<and> TrialPhase e = Some ph) tbl = [b, a] \<and>
                 row_index a = row_index b) \<and>
              StartStop a = Some ''Start'' \<and> StartStop b = Some ''Stop'')) \<and>
   length (start_rows five_trial_session) = 10 \<and> length (stop_rows five_trial_session) = 10 \<and>
   isl (get_trial_events_fluency (sort_key row_index) five_trial_session) \<and>
   get_trial_events_fluency (sort_key row_index) five_trial_session = Inl ValueError"
proof -
  have wf: "well_formed six_trial_session" by code_simp
  have n5: "length (start_rows five_trial_session) = 10"
    "length (stop_rows five_trial_session) = 10" by code_simp+
  note thm5 = fluency_boundary_count[OF stable_is_sort_index, of five_trial_session]
  from thm5 n5 have five: "isl (get_trial_events_fluency (sort_key row_index) five_trial_session)"
    "get_trial_events_fluency (sort_key row_index) five_trial_session = Inl ValueError" by simp_all
  note thm6 = fluency_boundary_count[OF stable_is_sort_index, of six_trial_session]
  from thm6[THEN conjunct2, THEN conjunct2, THEN conjunct2, THEN mp, OF wf] obtain tbl where
    t: "get_trial_events_fluency (sort_key row_index) six_trial_session = Inr tbl" and
    c: "map (\<lambda>e. (Trial e, TrialPhase e)) tbl =
           concat (map (\<lambda>k. [(Some k, Some ''Baseline''), (Some k, Some ''Baseline''),
                             (Some k, Some ''Response''), (Some k, Some ''Response'')]) [1..<7])" and
    p: "\<forall>k \<in> {1, 2, 3, 4, 5, 6}. \<forall>ph \<in> {''Baseline'', ''Response''}.
            \<exists>a b.
              (filter (\<lambda>e. Trial e = Some k \<and> TrialPhase e = Some ph) tbl = [a, b] \<or>
               filter (\<lambda>e. Trial e = Some k \<and> TrialPhase e = Some ph) tbl = [b, a] \<and>
                 row_index a = row_index b) \<and>
              StartStop a = Some ''Start'' \<and> StartStop b = Some ''Stop''"
    by (elim exE conjE)
  from thm6[THEN conjunct2, THEN conjunct2, THEN conjunct1, THEN spec, THEN mp, OF t]
  have l: "length tbl = 24" and tr: "map Trial tbl = map Some (np_repeat [1..<7] 4)" by simp_all
  have six: "\<exists>tbl. get_trial_events_fluency (sort_key row_index) six_trial_session = Inr tbl \<and>
      length tbl = 24 \<and> map Trial tbl = map Some (np_repeat [1..<7] 4) \<and>
      map (\<lambda>e. (Trial e, TrialPhase e)) tbl =
           concat (map (\<lambda>k. [(Some k, Some ''Baseline''), (Some k, Some ''Baseline''),
                             (Some k, Some ''Response''), (Some k, Some ''Response'')]) [1..<7]) \<and>
      (\<forall>k \<in> {1, 2, 3, 4, 5, 6}. \<forall>ph \<in> {''Baseline'', ''Response''}.
            \<exists>a b.
              (filter (\<lambda>e. Trial e = Some k \<and> TrialPhase e = Some ph) tbl = [a, b] \<or>
               filter (\<lambda>e. Trial e = Some k \<and> TrialPhase e = Some ph) tbl = [b, a] \<and>
                 row_index a = row_index b) \<and>
              StartStop a = Some ''Start'' \<and> StartStop b = Some ''Stop'')"
    using t l tr c p by (intro exI[of _ tbl] conjI)
  from stable_is_sort_index wf six n5 five show ?thesis by (intro conjI)
qed

text \<open>
  Claim C1 as stated fails: the session without markers has 0 boundary rows, not 24, and
  \<open>get_trial_events\<close> returns a table of 24 rows for it, whatever the sort does with rows
  of equal label.
\<close>

theorem unmarked_session_is_segmented:
  "length (start_rows unmarked_session) + length (stop_rows unmarked_session) = 0 \<and>
   \<not> (\<exists>sort_index. is_sort_index sort_index \<and>
        (isl (get_trial_events_fluency sort_index unmarked_session) \<or>
         map Trial (projr (get_trial_events_fluency sort_index unmarked_session)) \<noteq>
           map Some (np_repeat [1..<7] 4)))"
proof -
  have n: "length (start_rows unmarked_session) = 0" "length (stop_rows unmarked_session) = 0"
    by code_simp+
  have "\<not> isl (get_trial_events_fluency srt unmarked_session) \<and>
        map Trial (projr (get_trial_events_fluency srt unmarked_session)) =
           map Some (np_repeat [1..<7] 4)" if srt: "is_sort_index srt" for srt
  proof -
    from fluency_error_iff[OF srt, of unmarked_session] n
    have ok: "\<not> isl (get_trial_events_fluency srt unmarked_session)" by simp
    then obtain tbl where t: "get_trial_events_fluency srt unmarked_session = Inr tbl"
      by (cases "get_trial_events_fluency srt unmarked_session") simp_all
    from trial_events_columns(1)[OF srt t[unfolded get_trial_events_fluency_def]] ok t
    show ?thesis by simp
  qed
  with n show ?thesis by auto
qed

text \<open>
  Claim C6. Whenever the fluency segmenter returns, the \<open>Trial\<close> column is 1,1,1,1, 2,2,2,2,
  ..., 6,6,6,6 and the \<open>Condition\<close> column is Letter on the first twelve rows (trials 1 to 3)
  and Category on the last twelve (trials 4 to 6): both are constants of the code, whatever
  the labels of the stream are. For a well-formed session the phases of every trial are
  Baseline, Baseline, Response, Response: the Baseline pair of events, then the Response pair.
  This holds for every order in which \<open>sort_index\<close> may leave rows of equal label.
\<close>

theorem fluency_positional_pattern:
  assumes "is_sort_index sort_index"
  shows
  "(\<forall>tbl. get_trial_events_fluency sort_index df = Inr tbl \<longrightarrow>
      map Trial tbl = map Some (replicate 4 1 @ replicate 4 2 @ replicate 4 3 @
                                replicate 4 4 @ replicate 4 5 @ replicate 4 6) \<and>
      map Condition tbl = map Some (replicate 12 ''Letter'' @ replicate 12 ''Category'')) \<and>
   (well_formed df \<longrightarrow>
      (\<exists>tbl. get_trial_events_fluency sort_index df = Inr tbl \<and>
         map (\<lambda>e. (Trial e, TrialPhase e, Condition e)) tbl =
           concat (map (\<lambda>(k, c). [(Some k, Some ''Baseline'', Some c),
                                   (Some k, Some ''Baseline'', Some c),
                                   (Some k, Some ''Response'', Some c),
                                   (Some k, Some ''Response'', Some c)])
             [(1, ''Letter''), (2, ''Letter''), (3, ''Letter''),
              (4, ''Category''), (5, ''Category''), (6, ''Category'')])))"
proof (intro conjI allI impI)
  fix tbl assume t: "get_trial_events_fluency sort_index df = Inr tbl"
  from t have "map Trial tbl = map Some (np_repeat [1..<7] 4)"
    unfolding get_trial_events_fluency_def by (rule trial_events_columns(1)[OF assms])
  then show "map Trial tbl = map Some (replicate 4 1 @ replicate 4 2 @ replicate 4 3 @
                                replicate 4 4 @ replicate 4 5 @ replicate 4 6)"
    by (simp add: np_repeat_def upt_rec)
  from t have "map Condition tbl = map Some (np_repeat [''Letter'', ''Category''] 12)"
    unfolding get_trial_events_fluency_def by (rule trial_events_columns(2)[OF assms])
  then show "map Condition tbl = map Some (replicate 12 ''Letter'' @ replicate 12 ''Category'')"
    by (simp add: np_repeat_def)
next
  assume wf: "well_formed df"
  from fluency_table_wf[OF assms wf] obtain tbl where
    t: "get_trial_events_fluency sort_index df = Inr tbl" by blast
  note t' = t[unfolded get_trial_events_fluency_def]
  have cP: "map TrialPhase tbl =
           interleave (map Some (np_tile [''Baseline'', ''Response''] 6))
             (map Some (np_tile [''Baseline'', ''Response''] 6))"
    by (rule wf_table(1)[OF assms wf _ _ _ t']) simp_all
  have "map (\<lambda>e. (Trial e, TrialPhase e, Condition e)) tbl =
           concat (map (\<lambda>(k, c). [(Some k, Some ''Baseline'', Some c),
                                   (Some k, Some ''Baseline'', Some c),
                                   (Some k, Some ''Response'', Some c),
                                   (Some k, Some ''Response'', Some c)])
             [(1, ''Letter''), (2, ''Letter''), (3, ''Letter''),
              (4, ''Category''), (5, ''Category''), (6, ''Category'')])"
    unfolding map_triple_zip trial_events_columns(1)[OF assms t']
      trial_events_columns(2)[OF assms t'] cP
    by (simp add: np_tile_def np_repeat_def eval_nat_numeral upt_rec)
  with t show "\<exists>tbl. get_trial_events_fluency sort_index df = Inr tbl \<and>
         map (\<lambda>e. (Trial e, TrialPhase e, Condition e)) tbl =
           concat (map (\<lambda>(k, c). [(Some k, Some ''Baseline'', Some c),
                                   (Some k, Some ''Baseline'', Some c),
                                   (Some k, Some ''Response'', Some c),
                                   (Some k, Some ''Response'', Some c)])
             [(1, ''Letter''), (2, ''Letter''), (3, ''Letter''),
              (4, ''Category''), (5, ''Category''), (6, ''Category'')])"
    by blast
qed

text \<open>The theorem at the six-trial session, the sort being the stable one.\<close>

theorem fluency_positional_pattern_witness:
  "is_sort_index (sort_key row_index) \<and> well_formed six_trial_session \<and>
   (\<exists>tbl. get_trial_events_fluency (sort_key row_index) six_trial_session = Inr tbl \<and>
      map Trial tbl = map Some (replicate 4 1 @ replicate 4 2 @ replicate 4 3 @
                                replicate 4 4 @ replicate 4 5 @ replicate 4 6) \<and>
      map Condition tbl = map Some (replicate 12 ''Letter'' @ replicate 12 ''Category'') \<and>
      map (\<lambda>e. (Trial e, TrialPhase e, Condition e)) tbl =
           concat (map (\<lambda>(k, c). [(Some k, Some ''Baseline'', Some c),
                                   (Some k, Some ''Baseline'', Some c),
                                   (Some k, Some ''Response'', Some c),
                                   (Some k, Some ''Response'', Some c)])
             [(1, ''Letter''), (2, ''Letter''), (3, ''Letter''),
              (4, ''Category''), (5, ''Category''), (6, ''Category'')]))"
proof -
  have wf: "well_formed six_trial_session" by code_simp
  from fluency_positional_pattern[OF stable_is_sort_index, of six_trial_session] wf
    stable_is_sort_index
  show ?thesis by blast
qed

lemma map2_mem:
  "z \<in> set (map2 f vs xs) \<Longrightarrow> \<exists>v x. x \<in> set xs \<and> z = f v x"
  by (auto dest: set_zip_rightD)

lemma table_rows_origin:
  assumes srt: "is_sort_index srt"
    and "e \<in> set (map2 (\<lambda>v e. e\<lparr>Condition := Some v\<rparr>) cs
             (map2 (\<lambda>v e. e\<lparr>Trial := Some v\<rparr>) ts (srt (xs @ ys))))"
  shows "\<exists>y \<in> set xs \<union> set ys. StartStop e = StartStop y"
proof -
  from map2_mem[OF assms(2)] obtain v x where
    x: "x \<in> set (map2 (\<lambda>v e. e\<lparr>Trial := Some v\<rparr>) ts (srt (xs @ ys)))"
    and e: "e = x\<lparr>Condition := Some v\<rparr>" by blast
  from map2_mem[OF x] obtain w y where
    y: "y \<in> set (srt (xs @ ys))" and xy: "x = y\<lparr>Trial := Some w\<rparr>" by blast
  from y have "y \<in> set xs \<union> set ys" by (simp add: is_sort_indexD(4)[OF srt])
  with e xy show ?thesis by auto
qed

lemma fluency_start_stop_values:
  assumes srt: "is_sort_index srt" and "get_trial_events_fluency srt df = Inr tbl"
  shows "\<forall>e \<in> set tbl. StartStop e = Some ''Start'' \<or> StartStop e = Some ''Stop''"
proof
  let ?m = "\<lambda>e. e\<lparr>StartStop := Some ''Start''\<rparr>"
  fix e assume e: "e \<in> set tbl"
  from trial_events_shape[OF srt, of ?m df] assms(2) obtain s1 t1 where
    tbl: "tbl = map2 (\<lambda>v e. e\<lparr>Condition := Some v\<rparr>) (np_repeat [''Letter'', ''Category''] 12)
           (map2 (\<lambda>v e. e\<lparr>Trial := Some v\<rparr>) (np_repeat [1..<7] 4)
             (srt (map ?m s1 @ map (\<lambda>e. e\<lparr>StartStop := Some ''Stop''\<rparr>) t1)))"
    by (auto simp: get_trial_events_fluency_def)
  from table_rows_origin[OF srt e[unfolded tbl]]
  show "StartStop e = Some ''Start'' \<or> StartStop e = Some ''Stop''" by auto
qed

text \<open>
  Claim C8, as the fluency script has it. Every row of the table carries \<open>StartStop\<close> equal
  to Start or Stop. For a well-formed session whose timestamps do not decrease, every trial
  and phase has exactly two events, one Start and one Stop; the Start is a row of the stream
  at or before the row of the Stop, and its time is at most the time of the Stop. The Start
  comes before the Stop in the table, unless both are the same row of the stream: then
  \<open>sort_index\<close> may leave them in either order, and they carry the same time.
\<close>

theorem fluency_start_stop_pairs:
  assumes "is_sort_index sort_index"
  shows
  "(\<forall>tbl. get_trial_events_fluency sort_index df = Inr tbl \<longrightarrow>
      (\<forall>e \<in> set tbl. StartStop e = Some ''Start'' \<or> StartStop e = Some ''Stop'')) \<and>
   (well_formed df \<and> sorted (map TETTime df) \<longrightarrow>
      (\<exists>tbl. get_trial_events_fluency sort_index df = Inr tbl \<and>
         (\<forall>k \<in> {1, 2, 3, 4, 5, 6}. \<forall>ph \<in> {''Baseline'', ''Response''}.
            \<exists>a b ta tb.
              (filter (\<lambda>e. Trial e = Some k \<and> TrialPhase e = Some ph) tbl = [a, b] \<or>
               filter (\<lambda>e. Trial e = Some k \<and> TrialPhase e = Some ph) tbl = [b, a] \<and>
                 row_index a = row_index b \<and> ta = tb) \<and>
              StartStop a = Some ''Start'' \<and> StartStop b = Some ''Stop'' \<and>
              row_index a \<le> row_index b \<and>
              ev_TETTime a = Some ta \<and> ev_TETTime b = Some tb \<and> ta \<le> tb)))"
proof (intro conjI allI impI)
  fix tbl assume "get_trial_events_fluency sort_index df = Inr tbl"
  then show "\<forall>e \<in> set tbl. StartStop e = Some ''Start'' \<or> StartStop e = Some ''Stop''"
    by (rule fluency_start_stop_values[OF assms])
next
  assume "well_formed df \<and> sorted (map TETTime df)"
  then have wf: "well_formed df" and srt: "sorted (map TETTime df)" by simp_all
  from fluency_table_wf[OF assms wf] obtain tbl where
    t: "get_trial_events_fluency sort_index df = Inr tbl" by blast
  have pairs: "\<forall>k \<in> {1, 2, 3, 4, 5, 6}. \<forall>ph \<in> {''Baseline'', ''Response''}.
            \<exists>a b ta tb.
              (filter (\<lambda>e. Trial e = Some k \<and> TrialPhase e = Some ph) tbl = [a, b] \<or>
               filter (\<lambda>e. Trial e = Some k \<and> TrialPhase e = Some ph) tbl = [b, a] \<and>
                 row_index a = row_index b \<and> ta = tb) \<and>
              StartStop a = Some ''Start'' \<and> StartStop b = Some ''Stop'' \<and>
              row_index a \<le> row_index b \<and>
              ev_TETTime a = Some ta \<and> ev_TETTime b = Some tb \<and> ta \<le> tb"
  proof (intro ballI)
    fix k :: nat and ph :: string
    assume k: "k \<in> {1, 2, 3, 4, 5, 6}" and ph: "ph \<in> {''Baseline'', ''Response''}"
    let ?F = "filter (\<lambda>e. Trial e = Some k \<and> TrialPhase e = Some ph) tbl"
    from fluency_phase_pair[OF assms wf t k ph] obtain a b j where
      j: "j < 12" and
      f: "?F = [a, b] \<or> ?F = [b, a] \<and> row_index a = row_index b" and
      ss: "StartStop a = Some ''Start''" "StartStop b = Some ''Stop''" and
      ri: "row_index a = row_index (start_rows df ! j)" "row_index b = row_index (stop_rows df ! j)" and
      ti: "ev_TETTime a = ev_TETTime (start_rows df ! j)" "ev_TETTime b = ev_TETTime (stop_rows df ! j)"
      by blast
    from wf_pair_times[OF wf srt j] ti obtain ta tb where
      tt: "ev_TETTime a = Some ta" "ev_TETTime b = Some tb" "ta \<le> tb" by auto
    from wf_pair_index[OF wf j] ri have le: "row_index a \<le> row_index b" by simp
    have tie: "ta = tb" if eq: "row_index a = row_index b"
    proof -
      from eq ri have "row_index (start_rows df ! j) = row_index (stop_rows df ! j)" by simp
      from wf_tied_pair_times[OF wf j this] ti have "ev_TETTime a = ev_TETTime b" by simp
      with tt show ?thesis by simp
    qed
    from f tie have "?F = [a, b] \<or> ?F = [b, a] \<and> row_index a = row_index b \<and> ta = tb"
      by blast
    with ss le tt
    show "\<exists>a b ta tb.
              (?F = [a, b] \<or> ?F = [b, a] \<and> row_index a = row_index b \<and> ta = tb) \<and>
              StartStop a = Some ''Start'' \<and> StartStop b = Some ''Stop'' \<and>
              row_index a \<le> row_index b \<and>
              ev_TETTime a = Some ta \<and> ev_TETTime b = Some tb \<and> ta \<le> tb"
      by blast
  qed
  from t pairs
  show "\<exists>tbl. get_trial_events_fluency sort_index df = Inr tbl \<and>
         (\<forall>k \<in> {1, 2, 3, 4, 5, 6}. \<forall>ph \<in> {''Baseline'', ''Response''}.
            \<exists>a b ta tb.
              (filter (\<lambda>e. Trial e = Some k \<and> TrialPhase e = Some ph) tbl = [a, b] \<or>
               filter (\<lambda>e. Trial e = Some k \<and> TrialPhase e = Some ph) tbl = [b, a] \<and>
                 row_index a = row_index b \<and> ta = tb) \<and>
              StartStop a = Some ''Start'' \<and> StartStop b = Some ''Stop'' \<and>
              row_index a \<le> row_index b \<and>
              ev_TETTime a = Some ta \<and> ev_TETTime b = Some tb \<and> ta \<le> tb)"
    by (intro exI[of _ tbl] conjI)
qed

text \<open>The theorem at the six-trial session, the sort being the stable one, and at the
  session of single-row answers under a sort that leaves rows of equal label in the
  reverse of their order, where the Stop of every Response comes before its Start.\<close>

theorem fluency_start_stop_pairs_witness:
  "is_sort_index (sort_key row_index) \<and>
   well_formed six_trial_session \<and> sorted (map TETTime six_trial_session) \<and>
   (\<exists>tbl. get_trial_events_fluency (sort_key row_index) six_trial_session = Inr tbl \<and>
      (\<forall>e \<in> set tbl. StartStop e = Some ''Start'' \<or> StartStop e = Some ''Stop'') \<and>
      (\<forall>k \<in> {1, 2, 3, 4, 5, 6}. \<forall>ph \<in> {''Baseline'', ''Response''}.
            \<exists>a b ta tb.
              (filter (\<lambda>e. Trial e = Some k \<and> TrialPhase e = Some ph) tbl = [a, b] \<or>
               filter (\<lambda>e. Trial e = Some k \<and> TrialPhase e = Some ph) tbl = [b, a] \<and>
                 row_index a = row_index b \<and> ta = tb) \<and>
              StartStop a = Some ''Start'' \<and> StartStop b = Some ''Stop'' \<and>
              row_index a \<le> row_index b \<and>
              ev_TETTime a = Some ta \<and> ev_TETTime b = Some tb \<and> ta \<le> tb)) \<and>
   is_sort_index (\<lambda>frame. sort_key row_index (rev frame)) \<and>
   well_formed short_response_session \<and> sorted (map TETTime short_response_session) \<and>
   (\<exists>tbl. get_trial_events_fluency (\<lambda>frame. sort_key row_index (rev frame))
             short_response_session = Inr tbl \<and>
      map (\<lambda>e. (StartStop e, ev_TETTime e))
        (filter (\<lambda>e. Trial e = Some 1 \<and> TrialPhase e = Some ''Response'') tbl) =
        [(Some ''Stop'', Some 2), (Some ''Start'', Some 2)] \<and>
      (\<forall>k \<in> {1, 2, 3, 4, 5, 6}. \<forall>ph \<in> {''Baseline'', ''Response''}.
            \<exists>a b ta tb.
              (filter (\<lambda>e. Trial e = Some k \<and> TrialPhase e = Some ph) tbl = [a, b] \<or>
               filter (\<lambda>e. Trial e = Some k \<and> TrialPhase e = Some ph) tbl = [b, a] \<and>
                 row_index a = row_index b \<and> ta = tb) \<and>
              StartStop a = Some ''Start'' \<and> StartStop b = Some ''Stop'' \<and>
              row_index a \<le> row_index b \<and>
              ev_TETTime a = Some ta \<and> ev_TETTime b = Some tb \<and> ta \<le> tb))"
proof -
  have wf: "well_formed six_trial_session" by code_simp
  have srt: "sorted (map TETTime six_trial_session)" by code_simp
  note thm6 = fluency_start_stop_pairs[OF stable_is_sort_index, of six_trial_session]
  from thm6[THEN conjunct2, THEN mp, OF conjI[OF wf srt]] obtain tbl where
    t: "get_trial_events_fluency (sort_key row_index) six_trial_session = Inr tbl" and
    p: "\<forall>k \<in> {1, 2, 3, 4, 5, 6}. \<forall>ph \<in> {''Baseline'', ''Response''}.
            \<exists>a b ta tb.
              (filter (\<lambda>e. Trial e = Some k \<and> TrialPhase e = Some ph) tbl = [a, b] \<or>
               filter (\<lambda>e. Trial e = Some k \<and> TrialPhase e = Some ph) tbl = [b, a] \<and>
                 row_index a = row_index b \<and> ta = tb) \<and>
              StartStop a = Some ''Start'' \<and> StartStop b = Some ''Stop'' \<and>
              row_index a \<le> row_index b \<and>
              ev_TETTime a = Some ta \<and> ev_TETTime b = Some tb \<and> ta \<le> tb"
    by (elim exE conjE)
  note v = thm6[THEN conjunct1, THEN spec, THEN mp, OF t]
  have six: "\<exists>tbl. get_trial_events_fluency (sort_key row_index) six_trial_session = Inr tbl \<and>
      (\<forall>e \<in> set tbl. StartStop e = Some ''Start'' \<or> StartStop e = Some ''Stop'') \<and>
      (\<forall>k \<in> {1, 2, 3, 4, 5, 6}. \<forall>ph \<in> {''Baseline'', ''Response''}.
            \<exists>a b ta tb.
              (filter (\<lambda>e. Trial e = Some k \<and> TrialPhase e = Some ph) tbl = [a, b] \<or>
               filter (\<lambda>e. Trial e = Some k \<and> TrialPhase e = Some ph) tbl = [b, a] \<and>
                 row_index a = row_index b \<and> ta = tb) \<and>
              StartStop a = Some ''Start'' \<and> StartStop b = Some ''Stop'' \<and>
              row_index a \<le> row_index b \<and>
              ev_TETTime a = Some ta \<and> ev_TETTime b = Some tb \<and> ta \<le> tb)"
    using t v p by (intro exI[of _ tbl] conjI)
  have wf': "well_formed short_response_session" by code_simp
  have srt': "sorted (map TETTime short_response_session)" by code_simp
  note thms = fluency_start_stop_pairs[OF reversed_is_sort_index, of short_response_session]
  from thms[THEN conjunct2, THEN mp, OF conjI[OF wf' srt']] obtain tbl' where
    t': "get_trial_events_fluency (\<lambda>frame. sort_key row_index (rev frame))
             short_response_session = Inr tbl'" and
    p': "\<forall>k \<in> {1, 2, 3, 4, 5, 6}. \<forall>ph \<in> {''Baseline'', ''Response''}.
            \<exists>a b ta tb.
              (filter (\<lambda>e. Trial e = Some k \<and> TrialPhase e = Some ph) tbl' = [a, b] \<or>
               filter (\<lambda>e. Trial e = Some k \<and> TrialPhase e = Some ph) tbl' = [b, a] \<and>
                 row_index a = row_index b \<and> ta = tb) \<and>
              StartStop a = Some ''Start'' \<and> StartStop b = Some ''Stop'' \<and>
              row_index a \<le> row_index b \<and>
              ev_TETTime a = Some ta \<and> ev_TETTime b = Some tb \<and> ta \<le> tb"
    by (elim exE conjE)
  have "map (\<lambda>e. (StartStop e, ev_TETTime e))
        (filter (\<lambda>e. Trial e = Some 1 \<and> TrialPhase e = Some ''Response'')
           (projr (get_trial_events_fluency (\<lambda>frame. sort_key row_index (rev frame))
             short_response_session))) =
        [(Some ''Stop'', Some 2), (Some ''Start'', Some 2)]"
    by code_simp
  with t' have o: "map (\<lambda>e. (StartStop e, ev_TETTime e))
        (filter (\<lambda>e. Trial e = Some 1 \<and> TrialPhase e = Some ''Response'') tbl') =
        [(Some ''Stop'', Some 2), (Some ''Start'', Some 2)]" by simp
  have short: "\<exists>tbl. get_trial_events_fluency (\<lambda>frame. sort_key row_index (rev frame))
             short_response_session = Inr tbl \<and>
      map (\<lambda>e. (StartStop e, ev_TETTime e))
        (filter (\<lambda>e. Trial e = Some 1 \<and> TrialPhase e = Some ''Response'') tbl) =
        [(Some ''Stop'', Some 2), (Some ''Start'', Some 2)] \<and>
      (\<forall>k \<in> {1, 2, 3, 4, 5, 6}. \<forall>ph \<in> {''Baseline'', ''Response''}.
            \<exists>a b ta tb.
              (filter (\<lambda>e. Trial e = Some k \<and> TrialPhase e = Some ph) tbl = [a, b] \<or>
               filter (\<lambda>e. Trial e = Some k \<and> TrialPhase e = Some ph) tbl = [b, a] \<and>
                 row_index a = row_index b \<and> ta = tb) \<and>
              StartStop a = Some ''Start'' \<and> StartStop b = Some ''Stop'' \<and>
              row_index a \<le> row_index b \<and>
              ev_TETTime a = Some ta \<and> ev_TETTime b = Some tb \<and> ta \<le> tb)"
    using t' o p' by (intro exI[of _ tbl'] conjI)
  from stable_is_sort_index wf srt six reversed_is_sort_index wf' srt' short
  show ?thesis by (intro conjI)
qed

text \<open>
  Claim C8 as stated fails: when the answer of a trial is recorded over a single row, that
  row is the Start and the Stop of the Response phase, so the two timestamps are equal, in
  a well-formed session with strictly increasing timestamps. Under no order of the sort
  does the Response phase of trial 1 have a Start with a time before that of a Stop.
\<close>

theorem single_row_response_times_equal:
  "well_formed short_response_session \<and>
   sorted_wrt (<) (map TETTime short_response_session) \<and>
   \<not> (\<exists>sort_index tbl a b ta tb.
         is_sort_index sort_index \<and>
         get_trial_events_fluency sort_index short_response_session = Inr tbl \<and>
         a \<in> set tbl \<and> Trial a = Some 1 \<and> TrialPhase a = Some ''Response'' \<and>
         StartStop a = Some ''Start'' \<and> ev_TETTime a = Some ta \<and>
         b \<in> set tbl \<and> Trial b = Some 1 \<and> TrialPhase b = Some ''Response'' \<and>
         StartStop b = Some ''Stop'' \<and> ev_TETTime b = Some tb \<and> ta < tb)"
proof -
  have wf: "well_formed short_response_session" by code_simp
  have strict: "sorted_wrt (<) (map TETTime short_response_session)" by code_simp
  have times: "interleave (map ev_TETTime (start_rows short_response_session))
                 (map ev_TETTime (stop_rows short_response_session)) =
      map Some [0, 1, 2, 2, 3, 4, 5, 5, 6, 7, 8, 8, 9, 10, 11, 11, 12, 13, 14, 14, 15, 16, 17, 17]"
    by code_simp
  have two: "ev_TETTime e = Some 2"
    if srt: "is_sort_index srt"
      and t: "get_trial_events_fluency srt short_response_session = Inr tbl"
      and e: "e \<in> set tbl" "Trial e = Some 1" "TrialPhase e = Some ''Response''"
    for srt tbl e
  proof -
    note t' = t[unfolded get_trial_events_fluency_def]
    have cP: "map TrialPhase tbl =
           interleave (map Some (np_tile [''Baseline'', ''Response''] 6))
             (map Some (np_tile [''Baseline'', ''Response''] 6))"
      by (rule wf_table(1)[OF srt wf _ _ _ t']) simp_all
    have cE: "map ev_TETTime tbl =
      map Some [0, 1, 2, 2, 3, 4, 5, 5, 6, 7, 8, 8, 9, 10, 11, 11, 12, 13, 14, 14, 15, 16, 17, 17]"
      unfolding times[symmetric] by (rule wf_table(2)[OF srt wf _ _ _ t']) simp_all
    from e(1) have "(Trial e, TrialPhase e, ev_TETTime e) \<in>
        set (map (\<lambda>e. (Trial e, TrialPhase e, ev_TETTime e)) tbl)" by force
    then show ?thesis
      unfolding map_triple_zip trial_events_columns(1)[OF srt t'] cP cE
      using e(2,3) by (auto simp: np_tile_def np_repeat_def eval_nat_numeral upt_rec)
  qed
  have "\<not> (\<exists>sort_index tbl a b ta tb.
         is_sort_index sort_index \<and>
         get_trial_events_fluency sort_index short_response_session = Inr tbl \<and>
         a \<in> set tbl \<and> Trial a = Some 1 \<and> TrialPhase a = Some ''Response'' \<and>
         StartStop a = Some ''Start'' \<and> ev_TETTime a = Some ta \<and>
         b \<in> set tbl \<and> Trial b = Some 1 \<and> TrialPhase b = Some ''Response'' \<and>
         StartStop b = Some ''Stop'' \<and> ev_TETTime b = Some tb \<and> ta < tb)"
  proof (clarify)
    fix srt tbl a b and ta tb :: real
    assume srt: "is_sort_index srt"
      and t: "get_trial_events_fluency srt short_response_session = Inr tbl"
      and a: "a \<in> set tbl" "Trial a = Some 1" "TrialPhase a = Some ''Response''"
      and ta: "ev_TETTime a = Some ta"
      and b: "b \<in> set tbl" "Trial b = Some 1" "TrialPhase b = Some ''Response''"
      and tb: "ev_TETTime b = Some tb"
      and lt: "ta < tb"
    from two[OF srt t a] two[OF srt t b] ta tb lt show False by simp
  qed
  with wf strict show ?thesis by (intro conjI)
qed

lemma set_column_phase_rows:
  assumes "set_column (\<lambda>v e. e\<lparr>TrialPhase := Some v\<rparr>) vals frame = Inr s1" and "z \<in> set s1"
  shows "\<exists>v u. (u \<in> set frame \<or> u \<in> range blank_row) \<and> z = u\<lparr>TrialPhase := Some v\<rparr>"
proof -
  from assms(1) consider
    (blank) "s1 = map2 (\<lambda>v e. e\<lparr>TrialPhase := Some v\<rparr>) vals (map blank_row [0..<length vals])" |
    (rows) "s1 = map2 (\<lambda>v e. e\<lparr>TrialPhase := Some v\<rparr>) vals frame"
    by (auto simp: set_column_def split: if_splits)
  then show ?thesis
  proof cases
    case blank
    with assms(2) have "z \<in> set (map2 (\<lambda>v e. e\<lparr>TrialPhase := Some v\<rparr>) vals (map blank_row [0..<length vals]))"
      by simp
    from map2_mem[OF this] show ?thesis by auto
  next
    case rows
    with assms(2) have "z \<in> set (map2 (\<lambda>v e. e\<lparr>TrialPhase := Some v\<rparr>) vals frame)" by simp
    from map2_mem[OF this] show ?thesis by auto
  qed
qed

text \<open>
  The recall script writes \<open>'Start'\<close> into the column \<open>StatStop\<close> (line 91), so no row of its
  table has \<open>StartStop = 'Start'\<close>: the start rows keep NaN there.
\<close>

lemma recall_start_rows_unmarked:
  assumes srt: "is_sort_index srt" and "get_trial_events_recall srt df = Inr tbl"
  shows "\<forall>e \<in> set tbl. StartStop e \<noteq> Some ''Start''"
proof
  let ?m = "\<lambda>e. e\<lparr>StatStop := Some ''Start''\<rparr>"
  let ?ph = "\<lambda>v e. e\<lparr>TrialPhase := Some v\<rparr>"
  let ?tile = "np_tile [''Baseline'', ''Response''] 6"
  fix e assume e: "e \<in> set tbl"
  from trial_events_shape[OF srt, of ?m df] assms(2) obtain s1 t1 where
    s1: "set_column ?ph ?tile (start_rows df) = Inr s1" and
    tbl: "tbl = map2 (\<lambda>v e. e\<lparr>Condition := Some v\<rparr>) (np_repeat [''Letter'', ''Category''] 12)
           (map2 (\<lambda>v e. e\<lparr>Trial := Some v\<rparr>) (np_repeat [1..<7] 4)
             (srt (map ?m s1 @ map (\<lambda>e. e\<lparr>StartStop := Some ''Stop''\<rparr>) t1)))"
    by (auto simp: get_trial_events_recall_def)
  have none: "StartStop z = None" if z: "z \<in> set s1" for z
  proof -
    from set_column_phase_rows[OF s1 z] obtain v u where
      u: "u \<in> set (start_rows df) \<or> u \<in> range blank_row" and zu: "z = u\<lparr>TrialPhase := Some v\<rparr>"
      by blast
    from u have "StartStop u = None"
      by (auto simp: blank_row_def start_rows_def loc_rows_def event_of_def)
    with zu show ?thesis by simp
  qed
  from table_rows_origin[OF srt e[unfolded tbl]]
  show "StartStop e \<noteq> Some ''Start''" using none by auto
qed

lemma rawtrial_fluency_wf:
  assumes srt: "is_sort_index srt" and wf: "well_formed df"
    and tbl: "get_trial_events_fluency srt df = Inr tbl"
  shows "rawtrial_fluency df tbl n =
     (if 1 \<le> n \<and> n \<le> 6
      then filter (\<lambda>r. ge_cell (TETTime r) (ev_TETTime (start_rows df ! (2 * n - 2))) \<and>
                       le_cell (TETTime r) (ev_TETTime (stop_rows df ! (2 * n - 1)))) df
      else [])"
proof -
  have "trial_times tbl n =
     (if 1 \<le> n \<and> n \<le> 6
      then [ev_TETTime (start_rows df ! (2 * n - 2)), ev_TETTime (stop_rows df ! (2 * n - 2)),
            ev_TETTime (start_rows df ! (2 * n - 1)), ev_TETTime (stop_rows df ! (2 * n - 1))]
      else [])"
    by (rule trial_times_wf[OF srt wf _ _ _ tbl[unfolded get_trial_events_fluency_def]]) simp_all
  then show ?thesis by (simp add: rawtrial_fluency_def)
qed

lemma rawtrial_recall_wf:
  assumes srt: "is_sort_index srt" and wf: "well_formed df"
    and tbl: "get_trial_events_recall srt df = Inr tbl"
  shows "rawtrial_recall df tbl n =
     (if 1 \<le> n \<and> n \<le> 6
      then Inr (filter (\<lambda>r. ge_cell (TETTime r) (ev_TETTime (start_rows df ! (2 * n - 2))) \<and>
                       le_cell (TETTime r) (ev_TETTime (stop_rows df ! (2 * n - 1)))) df)
      else Inl ValueError)"
proof -
  have "trial_times tbl n =
     (if 1 \<le> n \<and> n \<le> 6
      then [ev_TETTime (start_rows df ! (2 * n - 2)), ev_TETTime (stop_rows df ! (2 * n - 2)),
            ev_TETTime (start_rows df ! (2 * n - 1)), ev_TETTime (stop_rows df ! (2 * n - 1))]
      else [])"
    by (rule trial_times_wf[OF srt wf _ _ _ tbl[unfolded get_trial_events_recall_def]]) simp_all
  then show ?thesis by (simp add: rawtrial_recall_def)
qed

lemma windows_apart:
  assumes wf: "well_formed df" and strict: "sorted_wrt (<) (map TETTime df)"
    and ij: "1 \<le> i" "i < j" "j \<le> 6"
  shows "\<not> (le_cell t (ev_TETTime (stop_rows df ! (2 * i - 1))) \<and>
            ge_cell t (ev_TETTime (start_rows df ! (2 * j - 2))))"
proof -
  from ij have kl: "2 * i - 1 < 2 * j - 2" "2 * j - 2 < 12" by arith+
  from wf_stop_before_later_start[OF wf strict kl] obtain tb ta where
    "ev_TETTime (stop_rows df ! (2 * i - 1)) = Some tb"
    "ev_TETTime (start_rows df ! (2 * j - 2)) = Some ta" "tb < ta" by blast
  then show ?thesis by auto
qed

lemma filters_disjoint:
  assumes "\<And>r. \<not> (P r \<and> Q r)"
  shows "set (filter P xs) \<inter> set (filter Q xs) = {}"
  using assms by auto

lemma window_filters_disjoint:
  assumes wf: "well_formed df" and strict: "sorted_wrt (<) (map TETTime df)"
    and ij: "1 \<le> i" "i \<le> 6" "1 \<le> j" "j \<le> 6" "i \<noteq> j"
  shows "set (filter (\<lambda>r. ge_cell (TETTime r) (ev_TETTime (start_rows df ! (2 * i - 2))) \<and>
                       le_cell (TETTime r) (ev_TETTime (stop_rows df ! (2 * i - 1)))) df) \<inter>
         set (filter (\<lambda>r. ge_cell (TETTime r) (ev_TETTime (start_rows df ! (2 * j - 2))) \<and>
                       le_cell (TETTime r) (ev_TETTime (stop_rows df ! (2 * j - 1)))) df) = {}"
proof (rule filters_disjoint)
  fix r
  from ij consider "i < j" | "j < i" by arith
  then show "\<not> ((ge_cell (TETTime r) (ev_TETTime (start_rows df ! (2 * i - 2))) \<and>
                 le_cell (TETTime r) (ev_TETTime (stop_rows df ! (2 * i - 1)))) \<and>
                ge_cell (TETTime r) (ev_TETTime (start_rows df ! (2 * j - 2))) \<and>
                le_cell (TETTime r) (ev_TETTime (stop_rows df ! (2 * j - 1))))"
  proof cases
    case 1
    from windows_apart[OF wf strict ij(1) 1 ij(4), of "TETTime r"] show ?thesis by blast
  next
    case 2
    from windows_apart[OF wf strict ij(3) 2 ij(2), of "TETTime r"] show ?thesis by blast
  qed
qed

text \<open>
  Claim C9, as the code has it. For a well-formed session whose timestamps increase
  strictly, the windows of two different trials share no sample: for the windows of the
  fluency script, and for those of the recall script on the table of its own
  \<open>get_trial_events\<close>. This holds for every order in which \<open>sort_index\<close> may leave rows of
  equal label.
\<close>

theorem trial_windows_disjoint:
  assumes "is_sort_index sort_index"
  shows
  "well_formed df \<and> sorted_wrt (<) (map TETTime df) \<longrightarrow>
     (\<exists>tbl. get_trial_events_fluency sort_index df = Inr tbl \<and>
        (\<forall>i j. i \<noteq> j \<longrightarrow>
           set (rawtrial_fluency df tbl i) \<inter> set (rawtrial_fluency df tbl j) = {})) \<and>
     (\<exists>tbl. get_trial_events_recall sort_index df = Inr tbl \<and>
        (\<forall>i j w v. i \<noteq> j \<and> rawtrial_recall df tbl i = Inr w \<and> rawtrial_recall df tbl j = Inr v
           \<longrightarrow> set w \<inter> set v = {}))"
proof (intro impI conjI)
  assume "well_formed df \<and> sorted_wrt (<) (map TETTime df)"
  then have wf: "well_formed df" and strict: "sorted_wrt (<) (map TETTime df)" by simp_all
  from fluency_table_wf[OF assms wf] obtain tbl where
    tbl: "get_trial_events_fluency sort_index df = Inr tbl" by blast
  have "set (rawtrial_fluency df tbl i) \<inter> set (rawtrial_fluency df tbl j) = {}"
    if "i \<noteq> j" for i j
  proof (cases "1 \<le> i \<and> i \<le> 6 \<and> 1 \<le> j \<and> j \<le> 6")
    case True
    with window_filters_disjoint[OF wf strict, of i j] that show ?thesis
      by (simp only: rawtrial_fluency_wf[OF assms wf tbl] if_True simp_thms)
  next
    case False
    then show ?thesis by (auto simp: rawtrial_fluency_wf[OF assms wf tbl])
  qed
  with tbl show "\<exists>tbl. get_trial_events_fluency sort_index df = Inr tbl \<and>
        (\<forall>i j. i \<noteq> j \<longrightarrow>
           set (rawtrial_fluency df tbl i) \<inter> set (rawtrial_fluency df tbl j) = {})"
    by blast
  from recall_table_wf[OF assms wf]
  obtain tbl' where tbl': "get_trial_events_recall sort_index df = Inr tbl'" by blast
  have "set w \<inter> set v = {}"
    if "i \<noteq> j" "rawtrial_recall df tbl' i = Inr w" "rawtrial_recall df tbl' j = Inr v" for i j w v
  proof -
    from that(2,3) have r: "1 \<le> i" "i \<le> 6" "1 \<le> j" "j \<le> 6"
      by (auto simp: rawtrial_recall_wf[OF assms wf tbl'] split: if_splits)
    with that(2,3) window_filters_disjoint[OF wf strict r that(1)] show ?thesis
      by (simp add: rawtrial_recall_wf[OF assms wf tbl'])
  qed
  with tbl' show "\<exists>tbl. get_trial_events_recall sort_index df = Inr tbl \<and>
        (\<forall>i j w v. i \<noteq> j \<and> rawtrial_recall df tbl i = Inr w \<and> rawtrial_recall df tbl j = Inr v
           \<longrightarrow> set w \<inter> set v = {})"
    by blast
qed

text \<open>The theorem at the six-trial session, the sort being the stable one.\<close>

theorem trial_windows_disjoint_witness:
  "is_sort_index (sort_key row_index) \<and>
   well_formed six_trial_session \<and> sorted_wrt (<) (map TETTime six_trial_session) \<and>
     (\<exists>tbl. get_trial_events_fluency (sort_key row_index) six_trial_session = Inr tbl \<and>
        set (rawtrial_fluency six_trial_session tbl 1) \<inter>
        set (rawtrial_fluency six_trial_session tbl 2) = {}) \<and>
     (\<exists>tbl. get_trial_events_recall (sort_key row_index) six_trial_session = Inr tbl \<and>
        (\<forall>i j w v. i \<noteq> j \<and> rawtrial_recall six_trial_session tbl i = Inr w \<and>
            rawtrial_recall six_trial_session tbl j = Inr v
           \<longrightarrow> set w \<inter> set v = {}))"
proof -
  have wf: "well_formed six_trial_session" by code_simp
  have strict: "sorted_wrt (<) (map TETTime six_trial_session)" by code_simp
  note both = trial_windows_disjoint[OF stable_is_sort_index, of six_trial_session, THEN mp,
    OF conjI[OF wf strict]]
  from both obtain tbl where
    t: "get_trial_events_fluency (sort_key row_index) six_trial_session = Inr tbl" and
    d: "\<forall>i j. i \<noteq> j \<longrightarrow>
           set (rawtrial_fluency six_trial_session tbl i) \<inter>
           set (rawtrial_fluency six_trial_session tbl j) = {}"
    by (elim conjE exE)
  from d have "set (rawtrial_fluency six_trial_session tbl 1) \<inter>
        set (rawtrial_fluency six_trial_session tbl 2) = {}" by simp
  with t have first: "\<exists>tbl. get_trial_events_fluency (sort_key row_index) six_trial_session = Inr tbl \<and>
        set (rawtrial_fluency six_trial_session tbl 1) \<inter>
        set (rawtrial_fluency six_trial_session tbl 2) = {}" by (intro exI conjI)
  from stable_is_sort_index wf strict first both[THEN conjunct2] show ?thesis by (intro conjI)
qed

text \<open>
  Claim C9 as stated fails: a window is a closed range of timestamps, so when the last row
  of trial 1 and the first row of trial 2 carry the same timestamp, both rows lie in both
  windows. No two boundary rows of this session have the same label, and the windows
  overlap whatever the sort is.
\<close>

theorem tied_timestamps_overlap:
  "well_formed tied_session \<and> sorted (map TETTime tied_session) \<and>
   distinct (map row_index (start_rows tied_session @ stop_rows tied_session)) \<and>
   map TETTime (rawtrial_fluency tied_session
       (projr (get_trial_events_fluency (sort_key row_index) tied_session)) 1)
     = [0, 1, 2, 3, 3] \<and>
   map TETTime (rawtrial_fluency tied_session
       (projr (get_trial_events_fluency (sort_key row_index) tied_session)) 2)
     = [3, 3, 5, 6, 7] \<and>
   tied_session ! 3 \<in>
     set (rawtrial_fluency tied_session
            (projr (get_trial_events_fluency (sort_key row_index) tied_session)) 1)
     \<inter> set (rawtrial_fluency tied_session
            (projr (get_trial_events_fluency (sort_key row_index) tied_session)) 2) \<and>
   \<not> (\<exists>sort_index. is_sort_index sort_index \<and>
        set (rawtrial_fluency tied_session
               (projr (get_trial_events_fluency sort_index tied_session)) 1)
        \<inter> set (rawtrial_fluency tied_session
               (projr (get_trial_events_fluency sort_index tied_session)) 2) = {})"
proof -
  have wf: "well_formed tied_session" by code_simp
  have c: "well_formed tied_session \<and> sorted (map TETTime tied_session) \<and>
   distinct (map row_index (start_rows tied_session @ stop_rows tied_session)) \<and>
   map TETTime (rawtrial_fluency tied_session
       (projr (get_trial_events_fluency (sort_key row_index) tied_session)) 1)
     = [0, 1, 2, 3, 3] \<and>
   map TETTime (rawtrial_fluency tied_session
       (projr (get_trial_events_fluency (sort_key row_index) tied_session)) 2)
     = [3, 3, 5, 6, 7] \<and>
   tied_session ! 3 \<in>
     set (rawtrial_fluency tied_session
            (projr (get_trial_events_fluency (sort_key row_index) tied_session)) 1)
     \<inter> set (rawtrial_fluency tied_session
            (projr (get_trial_events_fluency (sort_key row_index) tied_session)) 2)"
    by code_simp
  have w: "tied_session ! 3 \<in>
      set (filter (\<lambda>r. ge_cell (TETTime r) (ev_TETTime (start_rows tied_session ! (2 * 1 - 2))) \<and>
                       le_cell (TETTime r) (ev_TETTime (stop_rows tied_session ! (2 * 1 - 1))))
             tied_session) \<inter>
      set (filter (\<lambda>r. ge_cell (TETTime r) (ev_TETTime (start_rows tied_session ! (2 * 2 - 2))) \<and>
                       le_cell (TETTime r) (ev_TETTime (stop_rows tied_session ! (2 * 2 - 1))))
             tied_session)"
    by code_simp
  have "set (rawtrial_fluency tied_session (projr (get_trial_events_fluency srt tied_session)) 1)
        \<inter> set (rawtrial_fluency tied_session (projr (get_trial_events_fluency srt tied_session)) 2)
        \<noteq> {}" if srt: "is_sort_index srt" for srt
  proof -
    from fluency_table_wf[OF srt wf] obtain tbl where
      t: "get_trial_events_fluency srt tied_session = Inr tbl" by blast
    have "tied_session ! 3 \<in> set (rawtrial_fluency tied_session tbl 1)
        \<inter> set (rawtrial_fluency tied_session tbl 2)"
      unfolding rawtrial_fluency_wf[OF srt wf t] using w by simp
    with t show ?thesis by auto
  qed
  then have "\<not> (\<exists>sort_index. is_sort_index sort_index \<and>
        set (rawtrial_fluency tied_session
               (projr (get_trial_events_fluency sort_index tied_session)) 1)
        \<inter> set (rawtrial_fluency tied_session
               (projr (get_trial_events_fluency sort_index tied_session)) 2) = {})"
    by blast
  with c show ?thesis by (intro conjI) simp_all
qed

section \<open>Segmentation of encoding sessions: proofs\<close>



























section \<open>The recall script never reaches its output: proofs\<close>

lemma load_trialevents:
  "load_name [''filelist'', ''fname'', ''df'', ''dfresamp''] ''trialevents'' = Inl (NameError ''trialevents'')"
  by (simp add: load_name_def module_globals_def)

lemma load_clean_trials:
  "load_name [''filelist'', ''fname'', ''df'', ''dfresamp''] ''clean_trials'' = Inr ()"
  by (simp add: load_name_def module_globals_def)

lemma load_df:
  "load_name [''filelist'', ''fname'', ''df'', ''dfresamp''] ''df'' = Inr ()"
  by (simp add: load_name_def module_globals_def)

lemma proc_file_recall_fails:
  "proc_file_recall c fname = (es, res) \<Longrightarrow> isl res \<and> (\<forall>f. Wrote f \<notin> set es)"
  by (auto simp: proc_file_recall_def Let_def load_trialevents load_clean_trials load_df
           split: sum.splits if_splits)

lemma proc_file_recall_no_finish:
  "proc_file_recall (c\<lparr>finish := g\<rparr>) fname = proc_file_recall c fname"
  by (simp add: proc_file_recall_def Let_def load_trialevents load_clean_trials load_df
           split: sum.splits)

lemma proc_file_recall_reaches_name:
  assumes "(splitext_ext fname = ''.gazedata'' \<or> splitext_ext fname = ''.csv'') \<and> read_csv c fname = Inr df0 \<or>
           splitext_ext fname = ''.xlsx'' \<and> read_excel c fname = Inr df0"
    and "recall_rows df0 = Inr df1"
    and "deblink c df1 = Inr df" and "resamp_filt_data c df = Inr dfresamp"
  shows "proc_file_recall c fname =
     ([Printed fname, Read fname, Deblinked, Resampled], Inl (NameError ''trialevents''))"
  using assms
  by (auto simp: proc_file_recall_def Let_def load_trialevents load_clean_trials load_df)

lemma proc_file_recall_no_accessor:
  assumes "(splitext_ext fname = ''.gazedata'' \<or> splitext_ext fname = ''.csv'') \<and> read_csv c fname = Inr df0 \<or>
           splitext_ext fname = ''.xlsx'' \<and> read_excel c fname = Inr df0"
    and "recall_rows df0 = Inl err"
  shows "proc_file_recall c fname = ([Printed fname, Read fname], Inl err)"
  using assms by (auto simp: proc_file_recall_def Let_def)

lemma recall_rows_Inl_iff:
  "recall_rows df = Inl err \<longleftrightarrow>
     err = AttributeError \<and> df \<noteq> [] \<and> (\<forall>r \<in> set df. CurrentObject r = None)"
  by (auto simp: recall_rows_def)

text \<open>
  Claim C10, as the code has it. A run of the recall script on a non-empty file list never
  succeeds and never writes a file, and it does not depend on what lines 119-131 would do.
  When the first file has an accepted extension and reading it, the pre-filter of line
  114, \<open>deblink\<close> and \<open>resamp_filt_data\<close> return, the run ends right after them with
  NameError for \<open>trialevents\<close>, whatever the resampled frame is. When the file has rows
  and its event-label column is blank throughout, the pre-filter does not return: the run
  ends there with AttributeError, before \<open>deblink\<close>.
\<close>

theorem recall_proc_subject_unbound_name:
  "(\<forall>es res. proc_subject_recall c (fname # filelist) = (es, res) \<longrightarrow>
      isl res \<and> (\<forall>f. Wrote f \<notin> set es)) \<and>
   (\<forall>g. proc_subject_recall (c\<lparr>finish := g\<rparr>) (fname # filelist) =
        proc_subject_recall c (fname # filelist)) \<and>
   (\<forall>df0 df1 df dfresamp.
      ((splitext_ext fname = ''.gazedata'' \<or> splitext_ext fname = ''.csv'') \<and>
         read_csv c fname = Inr df0 \<or>
       splitext_ext fname = ''.xlsx'' \<and> read_excel c fname = Inr df0) \<and>
      recall_rows df0 = Inr df1 \<and>
      deblink c df1 = Inr df \<and> resamp_filt_data c df = Inr dfresamp \<longrightarrow>
      proc_subject_recall c (fname # filelist) =
        ([Printed fname, Read fname, Deblinked, Resampled], Inl (NameError ''trialevents''))) \<and>
   (\<forall>df0.
      ((splitext_ext fname = ''.gazedata'' \<or> splitext_ext fname = ''.csv'') \<and>
         read_csv c fname = Inr df0 \<or>
       splitext_ext fname = ''.xlsx'' \<and> read_excel c fname = Inr df0) \<and>
      df0 \<noteq> [] \<and> (\<forall>r \<in> set df0. CurrentObject r = None) \<longrightarrow>
      proc_subject_recall c (fname # filelist) =
        ([Printed fname, Read fname], Inl AttributeError))"
proof -
  have never: "\<forall>es res. proc_subject_recall c (fname # filelist) = (es, res) \<longrightarrow>
      isl res \<and> (\<forall>f. Wrote f \<notin> set es)"
  proof (intro allI impI)
    fix es res assume "proc_subject_recall c (fname # filelist) = (es, res)"
    then show "isl res \<and> (\<forall>f. Wrote f \<notin> set es)"
      using proc_file_recall_fails[of c fname]
      by (cases "proc_file_recall c fname") (auto split: sum.splits)
  qed
  have unused: "\<forall>g. proc_subject_recall (c\<lparr>finish := g\<rparr>) (fname # filelist) =
        proc_subject_recall c (fname # filelist)"
  proof
    fix g
    show "proc_subject_recall (c\<lparr>finish := g\<rparr>) (fname # filelist) =
        proc_subject_recall c (fname # filelist)"
      using proc_file_recall_fails[of c fname]
      by (cases "proc_file_recall c fname") (auto simp: proc_file_recall_no_finish split: sum.splits)
  qed
  have name: "\<forall>df0 df1 df dfresamp.
      ((splitext_ext fname = ''.gazedata'' \<or> splitext_ext fname = ''.csv'') \<and>
         read_csv c fname = Inr df0 \<or>
       splitext_ext fname = ''.xlsx'' \<and> read_excel c fname = Inr df0) \<and>
      recall_rows df0 = Inr df1 \<and>
      deblink c df1 = Inr df \<and> resamp_filt_data c df = Inr dfresamp \<longrightarrow>
      proc_subject_recall c (fname # filelist) =
        ([Printed fname, Read fname, Deblinked, Resampled], Inl (NameError ''trialevents''))"
  proof (intro allI impI)
    fix df0 df1 df dfresamp
    assume a: "((splitext_ext fname = ''.gazedata'' \<or> splitext_ext fname = ''.csv'') \<and>
         read_csv c fname = Inr df0 \<or>
       splitext_ext fname = ''.xlsx'' \<and> read_excel c fname = Inr df0) \<and>
      recall_rows df0 = Inr df1 \<and>
      deblink c df1 = Inr df \<and> resamp_filt_data c df = Inr dfresamp"
    then have "proc_file_recall c fname =
       ([Printed fname, Read fname, Deblinked, Resampled], Inl (NameError ''trialevents''))"
      by (intro proc_file_recall_reaches_name) auto
    then show "proc_subject_recall c (fname # filelist) =
        ([Printed fname, Read fname, Deblinked, Resampled], Inl (NameError ''trialevents''))"
      by simp
  qed
  have blank: "\<forall>df0.
      ((splitext_ext fname = ''.gazedata'' \<or> splitext_ext fname = ''.csv'') \<and>
         read_csv c fname = Inr df0 \<or>
       splitext_ext fname = ''.xlsx'' \<and> read_excel c fname = Inr df0) \<and>
      df0 \<noteq> [] \<and> (\<forall>r \<in> set df0. CurrentObject r = None) \<longrightarrow>
      proc_subject_recall c (fname # filelist) =
        ([Printed fname, Read fname], Inl AttributeError)"
  proof (intro allI impI)
    fix df0
    assume a: "((splitext_ext fname = ''.gazedata'' \<or> splitext_ext fname = ''.csv'') \<and>
         read_csv c fname = Inr df0 \<or>
       splitext_ext fname = ''.xlsx'' \<and> read_excel c fname = Inr df0) \<and>
      df0 \<noteq> [] \<and> (\<forall>r \<in> set df0. CurrentObject r = None)"
    then have r: "recall_rows df0 = Inl AttributeError" by (simp add: recall_rows_Inl_iff)
    from a have "proc_file_recall c fname = ([Printed fname, Read fname], Inl AttributeError)"
      by (intro proc_file_recall_no_accessor[OF _ r]) auto
    then show "proc_subject_recall c (fname # filelist) =
        ([Printed fname, Read fname], Inl AttributeError)"
      by simp
  qed
  from never unused name blank show ?thesis by (intro conjI)
qed

text \<open>The theorem at a list of two files and collaborators that succeed, and at the file
  without labels.\<close>

theorem recall_proc_subject_unbound_name_witness:
  "splitext_ext ''HVLT-Recall_101.gazedata'' = ''.gazedata'' \<and>
   read_csv ideal_collaborators ''HVLT-Recall_101.gazedata'' =
     Inr (session_of [''HVLT Recall'', ''HVLT Recall'', ''Fixation'']) \<and>
   recall_rows (session_of [''HVLT Recall'', ''HVLT Recall'', ''Fixation'']) =
     Inr (session_of [''HVLT Recall'', ''HVLT Recall'']) \<and>
   deblink ideal_collaborators (session_of [''HVLT Recall'', ''HVLT Recall'']) =
     Inr (session_of [''HVLT Recall'', ''HVLT Recall'']) \<and>
   resamp_filt_data ideal_collaborators (session_of [''HVLT Recall'', ''HVLT Recall'']) = Inr () \<and>
   proc_subject_recall ideal_collaborators [''HVLT-Recall_101.gazedata'', ''HVLT-Recall_102.gazedata''] =
     ([Printed ''HVLT-Recall_101.gazedata'', Read ''HVLT-Recall_101.gazedata'', Deblinked, Resampled],
      Inl (NameError ''trialevents'')) \<and>
   read_csv blank_collaborators ''HVLT-Recall_101.gazedata'' = Inr blank_session \<and>
   blank_session \<noteq> [] \<and> list_all (\<lambda>r. CurrentObject r = None) blank_session \<and>
   proc_subject_recall blank_collaborators [''HVLT-Recall_101.gazedata'', ''HVLT-Recall_102.gazedata''] =
     ([Printed ''HVLT-Recall_101.gazedata'', Read ''HVLT-Recall_101.gazedata''], Inl AttributeError)"
proof -
  have a: "splitext_ext ''HVLT-Recall_101.gazedata'' = ''.gazedata''" by code_simp
  have b: "read_csv ideal_collaborators ''HVLT-Recall_101.gazedata'' =
     Inr (session_of [''HVLT Recall'', ''HVLT Recall'', ''Fixation''])"
    by (simp add: ideal_collaborators_def)
  have l: "recall_rows (session_of [''HVLT Recall'', ''HVLT Recall'', ''Fixation'']) =
     Inr (session_of [''HVLT Recall'', ''HVLT Recall''])" by code_simp
  have c: "deblink ideal_collaborators (session_of [''HVLT Recall'', ''HVLT Recall'']) =
     Inr (session_of [''HVLT Recall'', ''HVLT Recall''])"
    by (simp add: ideal_collaborators_def)
  have d: "resamp_filt_data ideal_collaborators (session_of [''HVLT Recall'', ''HVLT Recall'']) = Inr ()"
    by (simp add: ideal_collaborators_def)
  note th = recall_proc_subject_unbound_name[of ideal_collaborators "''HVLT-Recall_101.gazedata''"
      "[''HVLT-Recall_102.gazedata'']"]
  from th a b l c d
  have n: "proc_subject_recall ideal_collaborators [''HVLT-Recall_101.gazedata'', ''HVLT-Recall_102.gazedata''] =
     ([Printed ''HVLT-Recall_101.gazedata'', Read ''HVLT-Recall_101.gazedata'', Deblinked, Resampled],
      Inl (NameError ''trialevents''))"
    by blast
  have b': "read_csv blank_collaborators ''HVLT-Recall_101.gazedata'' = Inr blank_session"
    by (simp add: blank_collaborators_def)
  have ne: "blank_session \<noteq> []" by (simp add: blank_session_def)
  have al: "list_all (\<lambda>r. CurrentObject r = None) blank_session" by code_simp
  then have al': "\<forall>r \<in> set blank_session. CurrentObject r = None" by (simp only: list_all_iff)
  note th' = recall_proc_subject_unbound_name[of blank_collaborators "''HVLT-Recall_101.gazedata''"
      "[''HVLT-Recall_102.gazedata'']"]
  from th' a b' ne al'
  have e: "proc_subject_recall blank_collaborators [''HVLT-Recall_101.gazedata'', ''HVLT-Recall_102.gazedata''] =
     ([Printed ''HVLT-Recall_101.gazedata'', Read ''HVLT-Recall_101.gazedata''], Inl AttributeError)"
    by blast
  from a b l c d n b' ne al e show ?thesis by (intro conjI)
qed

text \<open>
  Claim C10 as stated fails: a file with an accepted extension whose event-label column is
  blank on every row ends the run with AttributeError at the pre-filter of line 114; the
  run reaches neither \<open>deblink\<close> nor the name \<open>trialevents\<close>.
\<close>

theorem blank_labels_attribute_error:
  "splitext_ext ''HVLT-Recall_101.gazedata'' = ''.gazedata'' \<and>
   read_csv blank_collaborators ''HVLT-Recall_101.gazedata'' = Inr blank_session \<and>
   map CurrentObject blank_session = [None, None] \<and>
   proc_subject_recall blank_collaborators [''HVLT-Recall_101.gazedata''] =
     ([Printed ''HVLT-Recall_101.gazedata'', Read ''HVLT-Recall_101.gazedata''], Inl AttributeError) \<and>
   proc_subject_recall blank_collaborators [''HVLT-Recall_101.gazedata''] \<noteq>
     ([Printed ''HVLT-Recall_101.gazedata'', Read ''HVLT-Recall_101.gazedata'', Deblinked, Resampled],
      Inl (NameError ''trialevents''))"
  by code_simp

section \<open>Time bins: proofs\<close>

lemma int_div_eq_iff:
  fixes a w q :: int
  assumes "0 < w"
  shows "a div w = q \<longleftrightarrow> q * w \<le> a \<and> a < (q + 1) * w"
proof
  assume "a div w = q"
  then have q: "q = a div w" by simp
  have "a = w * (a div w) + a mod w" by simp
  moreover have "0 \<le> a mod w" "a mod w < w" using assms by simp_all
  ultimately have "w * (a div w) \<le> a" "a < w * (a div w) + w" by linarith+
  then show "q * w \<le> a \<and> a < (q + 1) * w" by (simp add: q algebra_simps)
next
  assume b: "q * w \<le> a \<and> a < (q + 1) * w"
  have "a = w * q + (a - w * q)" by simp
  moreover from b have "0 \<le> a - w * q" "a - w * q < w" by (simp_all add: algebra_simps)
  ultimately show "a div w = q" by (rule int_div_pos_eq)
qed

lemma right_bin_iff:
  assumes "0 < w"
  shows "bin_index RightSide w t = k \<longleftrightarrow> (k - 1) * w < t \<and> t \<le> k * w"
proof -
  have "bin_index RightSide w t = k \<longleftrightarrow> (- t) div w = - k" by (auto simp: bin_index_def)
  also have "\<dots> \<longleftrightarrow> (- k) * w \<le> - t \<and> - t < (- k + 1) * w"
    by (rule int_div_eq_iff[OF assms])
  also have "\<dots> \<longleftrightarrow> (k - 1) * w < t \<and> t \<le> k * w" by (auto simp: algebra_simps)
  finally show ?thesis .
qed

lemma left_bin_iff:
  assumes "0 < w"
  shows "bin_index LeftSide w t = k \<longleftrightarrow> k * w \<le> t \<and> t < (k + 1) * w"
  using int_div_eq_iff[OF assms, of t k] by (simp add: bin_index_def)

lemma resample_mean_rows:
  assumes "(L, m) \<in> set (resample_mean clsd lbl w xs)"
  shows "\<exists>b. L = bin_label clsd lbl w b \<and> m = nanmean (bin_values clsd w b xs)"
  using assms by (auto simp: resample_mean_def split: list.splits)

text \<open>The rows \<open>resample(...).mean()\<close> emits: with \<open>closed='right', label='right'\<close> a row
  labelled \<open>L\<close> averages the samples of \<open>(L - w, L]\<close>; with the defaults it averages those of
  \<open>[L, L + w)\<close>.\<close>

lemma right_closed_rows:
  assumes "0 < w" and "(L, m) \<in> set (resample_mean RightSide RightSide w xs)"
  shows "w dvd L \<and> m = nanmean (map snd (filter (\<lambda>(t, v). L - w < t \<and> t \<le> L) xs))"
proof -
  from resample_mean_rows[OF assms(2)] obtain b where
    b: "L = b * w" "m = nanmean (bin_values RightSide w b xs)"
    by (auto simp: bin_label_def)
  have "filter (\<lambda>(t, v). bin_index RightSide w t = b) xs =
        filter (\<lambda>(t, v). L - w < t \<and> t \<le> L) xs"
    by (rule filter_cong) (auto simp: right_bin_iff[OF assms(1)] b(1) algebra_simps)
  with b show ?thesis by (simp add: bin_values_def)
qed

lemma left_closed_rows:
  assumes "0 < w" and "(L, m) \<in> set (resample_mean LeftSide LeftSide w xs)"
  shows "w dvd L \<and> m = nanmean (map snd (filter (\<lambda>(t, v). L \<le> t \<and> t < L + w) xs))"
proof -
  from resample_mean_rows[OF assms(2)] obtain b where
    b: "L = b * w" "m = nanmean (bin_values LeftSide w b xs)"
    by (auto simp: bin_label_def)
  have "filter (\<lambda>(t, v). bin_index LeftSide w t = b) xs =
        filter (\<lambda>(t, v). L \<le> t \<and> t < L + w) xs"
    by (rule filter_cong) (auto simp: left_bin_iff[OF assms(1)] b(1) algebra_simps)
  with b show ?thesis by (simp add: bin_values_def)
qed

text \<open>
  Claim C2 at three samples of a fluency trial. The fluency script averages the sample at
  250ms with the sample at 0 and labels their bin 0, its start; the sample on the edge
  at 500ms goes to the later bin. With \<open>closed='right', label='right'\<close>, as the claim
  states and as the encoding and recall scripts pass, the sample at 250ms is averaged with
  the sample at 500ms in the bin labelled 500ms, its end.
\<close>

theorem fluency_bins_left_closed:
  "fluency_bins boundary_samples = [(0, Some 5), (ms 500, Some 10)] \<and>
   resample_call (ms 500) (Some RightSide) (Some RightSide) boundary_samples =
     [(0, Some 4), (ms 500, Some 8)] \<and>
   encoding_bins_1s [(0, Some 4), (ms 500, Some 6), (ms 1000, Some 10)] =
     [(0, Some 4), (ms 1000, Some 8)]"
  by (simp add: fluency_bins_def encoding_bins_1s_def boundary_samples_def resample_call_def
        resample_mean_def bin_index_def bin_label_def bin_values_def nanmean_def valid_def
        ms_def upto.simps)

lemma valid_Cons: "valid (v # vs) = (case v of None \<Rightarrow> [] | Some x \<Rightarrow> [x]) @ valid vs"
  by (simp add: valid_def)

lemma valid_Nil: "valid [] = []"
  by (simp add: valid_def)

lemma six_fine_bins:
  fixes c t k K :: int
  assumes c: "0 < c" and b: "(k - 1) * c < t" "t \<le> k * c"
  shows "(K - 1) * (6 * c) < t \<and> t \<le> K * (6 * c) \<longleftrightarrow> 6 * K - 5 \<le> k \<and> k \<le> 6 * K"
proof
  assume a: "(K - 1) * (6 * c) < t \<and> t \<le> K * (6 * c)"
  have "((K - 1) * 6) * c = (K - 1) * (6 * c)" by (simp only: mult.assoc)
  with a b(2) have "((K - 1) * 6) * c < k * c" by linarith
  with mult_less_cancel_right_pos[OF c, of "(K - 1) * 6" k] have lo: "(K - 1) * 6 < k" by blast
  have "(K * 6) * c = K * (6 * c)" by (simp only: mult.assoc)
  with a b(1) have "(k - 1) * c < (K * 6) * c" by linarith
  with mult_less_cancel_right_pos[OF c, of "k - 1" "K * 6"] have hi: "k - 1 < K * 6" by blast
  from lo hi show "6 * K - 5 \<le> k \<and> k \<le> 6 * K" by (auto simp: algebra_simps)
next
  assume r: "6 * K - 5 \<le> k \<and> k \<le> 6 * K"
  then have "(K - 1) * 6 \<le> k - 1" by (auto simp: algebra_simps)
  with mult_le_cancel_right_pos[OF c, of "(K - 1) * 6" "k - 1"]
  have "((K - 1) * 6) * c \<le> (k - 1) * c" by blast
  moreover have "((K - 1) * 6) * c = (K - 1) * (6 * c)" by (simp only: mult.assoc)
  ultimately have lo: "(K - 1) * (6 * c) < t" using b(1) by linarith
  from r have "k \<le> K * 6" by (auto simp: algebra_simps)
  with mult_le_cancel_right_pos[OF c, of k "K * 6"] have "k * c \<le> (K * 6) * c" by blast
  moreover have "(K * 6) * c = K * (6 * c)" by (simp only: mult.assoc)
  ultimately have hi: "t \<le> K * (6 * c)" using b(2) by linarith
  from lo hi show "(K - 1) * (6 * c) < t \<and> t \<le> K * (6 * c)" by blast
qed

lemma coarse_fine_bin:
  "bin_index RightSide (ms 6000) t = K \<longleftrightarrow>
     bin_index RightSide (ms 1000) t \<in> {6 * K - 5 .. 6 * K}"
proof -
  have pos1: "0 < ms 1000" by (simp add: ms_def)
  have six: "ms 6000 = 6 * ms 1000" by (simp add: ms_def)
  have pos6: "0 < 6 * ms 1000" using pos1 by simp
  obtain k where k: "bin_index RightSide (ms 1000) t = k" by simp
  from right_bin_iff[OF pos1, of t k] k
  have b: "(k - 1) * ms 1000 < t" "t \<le> k * ms 1000" by blast+
  from right_bin_iff[OF pos6, of t K]
  have "bin_index RightSide (ms 6000) t = K \<longleftrightarrow>
      (K - 1) * (6 * ms 1000) < t \<and> t \<le> K * (6 * ms 1000)"
    by (simp only: six)
  also have "\<dots> \<longleftrightarrow> 6 * K - 5 \<le> k \<and> k \<le> 6 * K"
    by (rule six_fine_bins[OF pos1 b])
  finally show ?thesis by (simp only: k atLeastAtMost_iff)
qed

lemma sum_list_indicator:
  fixes c :: "'b :: comm_monoid_add"
  shows "distinct ks \<Longrightarrow> (\<Sum>k\<leftarrow>ks. if a = k then c else 0) = (if a \<in> set ks then c else 0)"
  by (induction ks) auto

lemma bin_values_Cons:
  "bin_values clsd w k ((t, v) # xs) =
     (if bin_index clsd w t = k then v # bin_values clsd w k xs else bin_values clsd w k xs)"
  by (simp add: bin_values_def)

lemma coarse_sum:
  "sum_list (valid (bin_values RightSide (ms 6000) K xs)) =
     (\<Sum>k\<leftarrow>[6 * K - 5 .. 6 * K]. sum_list (valid (bin_values RightSide (ms 1000) k xs)))"
proof (induction xs)
  case Nil
  then show ?case by (simp add: bin_values_def valid_Nil)
next
  case (Cons x xs)
  obtain t v where x: "x = (t, v)" by (cases x)
  let ?c = "sum_list (case v of None \<Rightarrow> [] | Some y \<Rightarrow> [y])"
  have fine: "(\<Sum>k\<leftarrow>[6 * K - 5 .. 6 * K]. sum_list (valid (bin_values RightSide (ms 1000) k (x # xs)))) =
      (\<Sum>k\<leftarrow>[6 * K - 5 .. 6 * K]. (if bin_index RightSide (ms 1000) t = k then ?c else 0) +
           sum_list (valid (bin_values RightSide (ms 1000) k xs)))"
    by (rule arg_cong[where f=sum_list], rule map_cong) (auto simp: x bin_values_Cons valid_Cons)
  also have "\<dots> = (\<Sum>k\<leftarrow>[6 * K - 5 .. 6 * K]. if bin_index RightSide (ms 1000) t = k then ?c else 0) +
      (\<Sum>k\<leftarrow>[6 * K - 5 .. 6 * K]. sum_list (valid (bin_values RightSide (ms 1000) k xs)))"
    by (simp add: sum_list_addf)
  also have "(\<Sum>k\<leftarrow>[6 * K - 5 .. 6 * K]. if bin_index RightSide (ms 1000) t = k then ?c else 0) =
      (if bin_index RightSide (ms 6000) t = K then ?c else 0)"
    by (subst sum_list_indicator) (simp_all add: coarse_fine_bin)
  finally show ?case using Cons.IH by (simp add: x bin_values_Cons valid_Cons)
qed

lemma coarse_count:
  "length (valid (bin_values RightSide (ms 6000) K xs)) =
     (\<Sum>k\<leftarrow>[6 * K - 5 .. 6 * K]. length (valid (bin_values RightSide (ms 1000) k xs)))"
proof (induction xs)
  case Nil
  then show ?case by (simp add: bin_values_def valid_Nil)
next
  case (Cons x xs)
  obtain t v where x: "x = (t, v)" by (cases x)
  let ?c = "length (case v of None \<Rightarrow> [] | Some y \<Rightarrow> [y])"
  have fine: "(\<Sum>k\<leftarrow>[6 * K - 5 .. 6 * K]. length (valid (bin_values RightSide (ms 1000) k (x # xs)))) =
      (\<Sum>k\<leftarrow>[6 * K - 5 .. 6 * K]. (if bin_index RightSide (ms 1000) t = k then ?c else 0) +
           length (valid (bin_values RightSide (ms 1000) k xs)))"
    by (rule arg_cong[where f=sum_list], rule map_cong) (auto simp: x bin_values_Cons valid_Cons)
  also have "\<dots> = (\<Sum>k\<leftarrow>[6 * K - 5 .. 6 * K]. if bin_index RightSide (ms 1000) t = k then ?c else 0) +
      (\<Sum>k\<leftarrow>[6 * K - 5 .. 6 * K]. length (valid (bin_values RightSide (ms 1000) k xs)))"
    by (simp add: sum_list_addf)
  also have "(\<Sum>k\<leftarrow>[6 * K - 5 .. 6 * K]. if bin_index RightSide (ms 1000) t = k then ?c else 0) =
      (if bin_index RightSide (ms 6000) t = K then ?c else 0)"
    by (subst sum_list_indicator) (simp_all add: coarse_fine_bin)
  finally show ?case using Cons.IH by (simp add: x bin_values_Cons valid_Cons)
qed

lemma mean_times_count:
  "(case nanmean vs of None \<Rightarrow> 0 | Some m \<Rightarrow> real (length (valid vs)) * m) = sum_list (valid vs)"
  by (simp add: nanmean_def)

lemma coarse_is_weighted_mean:
  "nanmean (bin_values RightSide (ms 6000) K xs) =
     weighted_mean (map (\<lambda>k. bin_values RightSide (ms 1000) k xs) [6 * K - 5 .. 6 * K])"
proof -
  have "nanmean (bin_values RightSide (ms 6000) K xs) =
     (if length (valid (bin_values RightSide (ms 6000) K xs)) = 0 then None
      else Some (sum_list (valid (bin_values RightSide (ms 6000) K xs)) /
                 real (length (valid (bin_values RightSide (ms 6000) K xs)))))"
    by (simp add: nanmean_def)
  then show ?thesis
    by (simp add: weighted_mean_def Let_def mean_times_count coarse_sum coarse_count comp_def)
qed

lemma equal_counts_total:
  "\<forall>vs \<in> set bins. length (valid vs) = n \<Longrightarrow>
     sum_list (map (\<lambda>vs. length (valid vs)) bins) = n * length bins"
  by (induction bins) auto

lemma equal_counts_sum:
  "\<forall>vs \<in> set bins. length (valid vs) = n \<Longrightarrow>
     sum_list (map (\<lambda>vs. case nanmean vs of None \<Rightarrow> 0
                           | Some m \<Rightarrow> real (length (valid vs)) * m) bins) =
     real n * sum_list (map (\<lambda>vs. case nanmean vs of None \<Rightarrow> 0 | Some m \<Rightarrow> m) bins)"
  by (induction bins) (auto simp: algebra_simps split: option.splits)

lemma weighted_mean_equal_counts:
  assumes n: "0 < n" and eq: "\<forall>vs \<in> set bins. length (valid vs) = n" and ne: "bins \<noteq> []"
  shows "weighted_mean bins =
     Some (sum_list (map (\<lambda>vs. case nanmean vs of None \<Rightarrow> 0 | Some m \<Rightarrow> m) bins) /
           real (length bins))"
proof -
  from ne have "0 < length bins" by simp
  with n have pos: "n * length bins \<noteq> 0" by simp
  show ?thesis
    using n pos
    by (simp add: weighted_mean_def Let_def equal_counts_total[OF eq] equal_counts_sum[OF eq])
qed

lemma six_bins: "length [6 * K - 5 .. 6 * K] = 6"
  by simp

text \<open>
  Claim C7, as the code has it. Every 6s row of the encoding script is the mean of the six
  1s bins it spans, each weighted by the number of valid samples in it; every 1s row is the
  mean of its bin. When the six 1s bins hold the same number of valid samples, the
  weighted mean is the plain average of the six 1s means.
\<close>

theorem coarse_bins_weight_fine_bins:
  "(\<forall>L m. (L, m) \<in> set (encoding_bins_6s xs) \<longrightarrow>
      (\<exists>K. L = K * ms 6000 \<and>
           m = weighted_mean (map (\<lambda>k. bin_values RightSide (ms 1000) k xs)
                                [6 * K - 5 .. 6 * K]))) \<and>
   (\<forall>L m. (L, m) \<in> set (encoding_bins_1s xs) \<longrightarrow>
      (\<exists>k. L = k * ms 1000 \<and> m = nanmean (bin_values RightSide (ms 1000) k xs))) \<and>
   (\<forall>K n. 0 < n \<and>
        (\<forall>k \<in> {6 * K - 5 .. 6 * K}.
            length (valid (bin_values RightSide (ms 1000) k xs)) = n) \<longrightarrow>
      weighted_mean (map (\<lambda>k. bin_values RightSide (ms 1000) k xs) [6 * K - 5 .. 6 * K]) =
        Some ((\<Sum>k\<leftarrow>[6 * K - 5 .. 6 * K].
                 case nanmean (bin_values RightSide (ms 1000) k xs) of
                   None \<Rightarrow> 0 | Some m \<Rightarrow> m) / 6))"
proof -
  have coarse: "\<forall>L m. (L, m) \<in> set (encoding_bins_6s xs) \<longrightarrow>
      (\<exists>K. L = K * ms 6000 \<and>
           m = weighted_mean (map (\<lambda>k. bin_values RightSide (ms 1000) k xs)
                                [6 * K - 5 .. 6 * K]))"
  proof (intro allI impI)
    fix L m assume "(L, m) \<in> set (encoding_bins_6s xs)"
    then have "(L, m) \<in> set (resample_mean RightSide RightSide (ms 6000) xs)"
      by (simp add: encoding_bins_6s_def resample_call_def)
    from resample_mean_rows[OF this] obtain K where
      "L = K * ms 6000" "m = nanmean (bin_values RightSide (ms 6000) K xs)"
      by (auto simp: bin_label_def)
    then show "\<exists>K. L = K * ms 6000 \<and>
           m = weighted_mean (map (\<lambda>k. bin_values RightSide (ms 1000) k xs)
                                [6 * K - 5 .. 6 * K])"
      by (auto simp: coarse_is_weighted_mean)
  qed
  have fine: "\<forall>L m. (L, m) \<in> set (encoding_bins_1s xs) \<longrightarrow>
      (\<exists>k. L = k * ms 1000 \<and> m = nanmean (bin_values RightSide (ms 1000) k xs))"
  proof (intro allI impI)
    fix L m assume "(L, m) \<in> set (encoding_bins_1s xs)"
    then have "(L, m) \<in> set (resample_mean RightSide RightSide (ms 1000) xs)"
      by (simp add: encoding_bins_1s_def resample_call_def)
    from resample_mean_rows[OF this]
    show "\<exists>k. L = k * ms 1000 \<and> m = nanmean (bin_values RightSide (ms 1000) k xs)"
      by (auto simp: bin_label_def)
  qed
  have equal: "\<forall>K n. 0 < n \<and>
        (\<forall>k \<in> {6 * K - 5 .. 6 * K}.
            length (valid (bin_values RightSide (ms 1000) k xs)) = n) \<longrightarrow>
      weighted_mean (map (\<lambda>k. bin_values RightSide (ms 1000) k xs) [6 * K - 5 .. 6 * K]) =
        Some ((\<Sum>k\<leftarrow>[6 * K - 5 .. 6 * K].
                 case nanmean (bin_values RightSide (ms 1000) k xs) of
                   None \<Rightarrow> 0 | Some m \<Rightarrow> m) / 6)"
  proof (intro allI impI)
    fix K :: int and n :: nat
    let ?bins = "map (\<lambda>k. bin_values RightSide (ms 1000) k xs) [6 * K - 5 .. 6 * K]"
    assume a: "0 < n \<and> (\<forall>k \<in> {6 * K - 5 .. 6 * K}.
            length (valid (bin_values RightSide (ms 1000) k xs)) = n)"
    then have eq: "\<forall>vs \<in> set ?bins. length (valid vs) = n" by auto
    have len: "length ?bins = 6" by simp
    then have ne: "?bins \<noteq> []" by auto
    from a have n: "0 < n" by simp
    have "weighted_mean ?bins =
       Some (sum_list (map (\<lambda>vs. case nanmean vs of None \<Rightarrow> 0 | Some m \<Rightarrow> m) ?bins) /
           real (length ?bins))"
      by (rule weighted_mean_equal_counts[OF n eq ne])
    then show "weighted_mean ?bins =
        Some ((\<Sum>k\<leftarrow>[6 * K - 5 .. 6 * K].
                 case nanmean (bin_values RightSide (ms 1000) k xs) of
                   None \<Rightarrow> 0 | Some m \<Rightarrow> m) / 6)"
      by (simp only: len) (simp add: comp_def)
  qed
  from coarse fine equal show ?thesis by (intro conjI)
qed

text \<open>The theorem at a series sampled every 500ms over 6s: two samples in every 1s bin.\<close>

theorem coarse_bins_weight_fine_bins_witness:
  "(ms 6000, Some (13 / 2)) \<in> set (encoding_bins_6s (grid_samples 500 13)) \<and>
   (\<exists>K. ms 6000 = K * ms 6000 \<and>
        Some (13 / 2) =
          weighted_mean (map (\<lambda>k. bin_values RightSide (ms 1000) k (grid_samples 500 13))
                           [6 * K - 5 .. 6 * K])) \<and>
   (ms 1000, Some (3 / 2)) \<in> set (encoding_bins_1s (grid_samples 500 13)) \<and>
   (\<exists>k. ms 1000 = k * ms 1000 \<and>
        Some (3 / 2) = nanmean (bin_values RightSide (ms 1000) k (grid_samples 500 13))) \<and>
   map (\<lambda>k. length (valid (bin_values RightSide (ms 1000) k (grid_samples 500 13)))) [1 .. 6] =
     [2, 2, 2, 2, 2, 2] \<and>
   weighted_mean (map (\<lambda>k. bin_values RightSide (ms 1000) k (grid_samples 500 13))
                    [6 * 1 - 5 .. 6 * 1]) =
     Some ((\<Sum>k\<leftarrow>[6 * 1 - 5 .. 6 * 1].
              case nanmean (bin_values RightSide (ms 1000) k (grid_samples 500 13)) of
                None \<Rightarrow> 0 | Some m \<Rightarrow> m) / 6)"
proof -
  let ?X = "grid_samples 500 13"
  note th = coarse_bins_weight_fine_bins[of ?X]
  have m6: "(ms 6000, Some (13 / 2)) \<in> set (encoding_bins_6s ?X)"
    by (simp add: grid_samples_def encoding_bins_6s_def resample_call_def resample_mean_def
        bin_index_def bin_label_def bin_values_def nanmean_def valid_def ms_def upto.simps upt_rec)
  have m1: "(ms 1000, Some (3 / 2)) \<in> set (encoding_bins_1s ?X)"
    by (simp add: grid_samples_def encoding_bins_1s_def resample_call_def resample_mean_def
        bin_index_def bin_label_def bin_values_def nanmean_def valid_def ms_def upto.simps upt_rec)
  have counts: "map (\<lambda>k. length (valid (bin_values RightSide (ms 1000) k ?X))) [1 .. 6] =
     [2, 2, 2, 2, 2, 2]"
    by (simp add: grid_samples_def bin_index_def bin_values_def valid_def ms_def upto.simps
        upt_rec)
  have "\<forall>k \<in> set [1 .. 6]. length (valid (bin_values RightSide (ms 1000) k ?X)) = 2"
    by (simp add: grid_samples_def bin_index_def bin_values_def valid_def ms_def upto.simps
        upt_rec)
  then have hyp: "(0::nat) < 2 \<and> (\<forall>k \<in> {6 * 1 - 5 .. 6 * (1::int)}.
            length (valid (bin_values RightSide (ms 1000) k ?X)) = 2)"
    by simp
  from th[THEN conjunct1, rule_format, OF m6]
  have c1: "\<exists>K. ms 6000 = K * ms 6000 \<and>
        Some (13 / 2) =
          weighted_mean (map (\<lambda>k. bin_values RightSide (ms 1000) k ?X) [6 * K - 5 .. 6 * K])" .
  from th[THEN conjunct2, THEN conjunct1, rule_format, OF m1]
  have c2: "\<exists>k. ms 1000 = k * ms 1000 \<and>
        Some (3 / 2) = nanmean (bin_values RightSide (ms 1000) k ?X)" .
  from th[THEN conjunct2, THEN conjunct2, rule_format, OF hyp]
  have c3: "weighted_mean (map (\<lambda>k. bin_values RightSide (ms 1000) k ?X) [6 * 1 - 5 .. 6 * 1]) =
     Some ((\<Sum>k\<leftarrow>[6 * 1 - 5 .. 6 * 1].
              case nanmean (bin_values RightSide (ms 1000) k ?X) of
                None \<Rightarrow> 0 | Some m \<Rightarrow> m) / 6)" .
  from m6 c1 m1 c2 counts c3 show ?thesis by (intro conjI)
qed

text \<open>
  Claim C7 as stated fails: for a series sampled every 400ms over 6s the 1s bins hold two
  or three samples in turn. The 6s bin that ends at 6s has mean 8; the six 1s bins it spans
  have means 3/2, 4, 13/2, 9, 23/2 and 14, whose average is 31/4.
\<close>

theorem uneven_bins_disagree:
  "encoding_bins_6s (grid_samples 400 16) = [(0, Some 0), (ms 6000, Some 8)] \<and>
   encoding_bins_1s (grid_samples 400 16) =
     [(0, Some 0), (ms 1000, Some (3 / 2)), (ms 2000, Some 4), (ms 3000, Some (13 / 2)),
      (ms 4000, Some 9), (ms 5000, Some (23 / 2)), (ms 6000, Some 14)] \<and>
   nanmean [Some (3 / 2), Some 4, Some (13 / 2), Some 9, Some (23 / 2), Some 14] = Some (31 / 4)"
  by (simp add: grid_samples_def encoding_bins_6s_def encoding_bins_1s_def resample_call_def resample_mean_def
        bin_index_def bin_label_def bin_values_def nanmean_def valid_def ms_def upto.simps upt_rec)

section \<open>Baseline and dilation: proofs\<close>

lemma for_each_Inr:
  "for_each body ks = Inr res \<Longrightarrow>
     map fst res = ks \<and> (\<forall>(k, v) \<in> set res. body k = Inr v)"
proof (induction ks arbitrary: res)
  case Nil
  then show ?case by simp
next
  case (Cons k ks)
  from Cons.prems obtain v rest where
    v: "body k = Inr v" and rest: "for_each body ks = Inr rest" and res: "res = (k, v) # rest"
    by (auto split: sum.splits)
  from Cons.IH[OF rest] v res show ?case by auto
qed

lemma is_PlayWord_updates [simp]:
  "is_PlayWord (r\<lparr>Baseline := b\<rparr>) = is_PlayWord r"
  "is_PlayWord (r\<lparr>Dilation := d\<rparr>) = is_PlayWord r"
  "is_PlayWord (r\<lparr>Timestamp := t\<rparr>) = is_PlayWord r"
  by (simp_all add: is_PlayWord_def)

lemma clean_trial_encoding_out:
  assumes "clean_trial_encoding rows = Inr out"
  shows "out =
     map (\<lambda>r. r\<lparr>Baseline := nanmean (baseline_window_encoding rows),
                 Dilation := nan_sub (DiameterPupilLRFilt r) (nanmean (baseline_window_encoding rows)),
                 Timestamp := Timestamp r - Timestamp (hd (filter is_PlayWord rows))\<rparr>)
       (filter is_PlayWord rows)"
    and "filter is_PlayWord rows \<noteq> []"
proof -
  let ?b = "nanmean (baseline_window_encoding rows)"
  let ?f = "\<lambda>r. r\<lparr>Baseline := ?b, Dilation := nan_sub (DiameterPupilLRFilt r) ?b\<rparr>"
  have maps: "map (\<lambda>r. r\<lparr>Dilation := nan_sub (DiameterPupilLRFilt r) (Baseline r)\<rparr>)
        (map (\<lambda>r. r\<lparr>Baseline := ?b\<rparr>) rows) = map ?f rows"
    by simp
  have filt: "filter is_PlayWord (map ?f rows) = map ?f (filter is_PlayWord rows)"
    by (simp add: filter_map comp_def)
  from assms have ne: "filter is_PlayWord (map ?f rows) \<noteq> []"
    and out: "out = map (\<lambda>r. r\<lparr>Timestamp := Timestamp r - Timestamp (hd (filter is_PlayWord (map ?f rows)))\<rparr>)
         (filter is_PlayWord (map ?f rows))"
    unfolding clean_trial_encoding_def Let_def maps by (auto split: if_splits)
  from ne show ne': "filter is_PlayWord rows \<noteq> []" by (simp add: filt)
  then have hd: "Timestamp (hd (map ?f (filter is_PlayWord rows))) = Timestamp (hd (filter is_PlayWord rows))"
    by (simp add: hd_map)
  show "out =
     map (\<lambda>r. r\<lparr>Baseline := ?b, Dilation := nan_sub (DiameterPupilLRFilt r) ?b,
                 Timestamp := Timestamp r - Timestamp (hd (filter is_PlayWord rows))\<rparr>)
       (filter is_PlayWord rows)"
    unfolding out filt hd by simp
qed

lemma clean_trial_recall_out:
  "clean_trial_recall condition rows =
     map (\<lambda>r. r\<lparr>Baseline := nanmean (baseline_window_recall rows),
                 Dilation := nan_sub (DiameterPupilLRFilt r) (nanmean (baseline_window_recall rows)),
                 TrialCondition := condition\<rparr>)
       (filter (\<lambda>r. Phase r = Some ''Response'') rows)"
  by (simp add: clean_trial_recall_def Let_def filter_map comp_def)

lemma nanmean_all_valid:
  "xs \<noteq> [] \<Longrightarrow> nanmean (map Some xs) = Some (sum_list xs / real (length xs))"
proof -
  have "valid (map Some xs) = xs" by (induction xs) (simp_all add: valid_def)
  then show "xs \<noteq> [] \<Longrightarrow> nanmean (map Some xs) = Some (sum_list xs / real (length xs))"
    by (simp add: nanmean_def)
qed

lemma nanmean_None_iff: "nanmean vs = None \<longleftrightarrow> valid vs = []"
  by (simp add: nanmean_def)

lemma dropWhile_sorted_filter:
  "sorted (map f xs) \<Longrightarrow> dropWhile (\<lambda>x. f x \<le> (c::int)) xs = filter (\<lambda>x. c < f x) xs"
proof (induction xs)
  case Nil
  then show ?case by simp
next
  case (Cons x xs)
  show ?case
  proof (cases "f x \<le> c")
    case True
    with Cons show ?thesis by simp
  next
    case False
    with Cons.prems have "\<forall>y \<in> set (x # xs). c < f y" by auto
    then have "filter (\<lambda>x. c < f x) (x # xs) = x # xs" by (simp only: filter_True)
    with False show ?thesis by simp
  qed
qed

lemma takeWhile_sorted_filter:
  "sorted (map f xs) \<Longrightarrow> takeWhile (\<lambda>x. f x < (c::int)) xs = filter (\<lambda>x. f x < c) xs"
proof (induction xs)
  case Nil
  then show ?case by simp
next
  case (Cons x xs)
  show ?case
  proof (cases "f x < c")
    case True
    with Cons show ?thesis by simp
  next
    case False
    with Cons.prems have "\<forall>y \<in> set (x # xs). \<not> f y < c" by auto
    then have "filter (\<lambda>x. f x < c) (x # xs) = []" by (simp only: filter_False)
    with False show ?thesis by simp
  qed
qed

lemma last_offset_sorted:
  assumes "sorted (map Timestamp rows)"
  shows "last_offset off rows = filter (\<lambda>r. Timestamp (last rows) - off < Timestamp r) rows"
  using dropWhile_sorted_filter[OF assms, of "Timestamp (last rows) - off"]
  by (simp add: last_offset_def)

lemma first_offset_sorted:
  assumes "sorted (map Timestamp rows)"
  shows "first_offset off rows = filter (\<lambda>r. Timestamp r < Timestamp (hd rows) + off) rows"
  using takeWhile_sorted_filter[OF assms, of "Timestamp (hd rows) + off"]
  by (simp add: first_offset_def)


text \<open>
  Claim C5. For a conditioned trial of the encoding script that is not rejected, and for
  every conditioned trial of the recall script, the output is the Response rows only (the
  rows whose label starts with PlayWord; the rows whose phase is Response), each with the
  trial's baseline in \<open>Baseline\<close> and its filtered diameter minus that baseline in
  \<open>Dilation\<close>. The baseline is the mean of the filtered diameter over the window: for
  encoding the Ready rows of the last 500ms of the Ready phase, for recall the rows of the
  first 2000ms of the trial. Over values that are all valid the mean is the arithmetic mean.
\<close>

theorem baseline_and_dilation:
  "(\<forall>out. clean_trial_encoding rows = Inr out \<longrightarrow>
      out = map (\<lambda>r. r\<lparr>Baseline := nanmean (baseline_window_encoding rows),
                       Dilation := nan_sub (DiameterPupilLRFilt r)
                                     (nanmean (baseline_window_encoding rows)),
                       Timestamp := Timestamp r - Timestamp (hd (filter is_PlayWord rows))\<rparr>)
              (filter is_PlayWord rows)) \<and>
   clean_trial_recall condition rows =
      map (\<lambda>r. r\<lparr>Baseline := nanmean (baseline_window_recall rows),
                  Dilation := nan_sub (DiameterPupilLRFilt r)
                                (nanmean (baseline_window_recall rows)),
                  TrialCondition := condition\<rparr>)
        (filter (\<lambda>r. Phase r = Some ''Response'') rows) \<and>
   (sorted (map Timestamp rows) \<longrightarrow>
      baseline_window_encoding rows =
        map DiameterPupilLRFilt
          (filter (\<lambda>r. Object r = Some ''Ready'' \<and>
                        Timestamp (last (filter (\<lambda>r. Object r = Some ''Ready'') rows)) - ms 500
                          < Timestamp r) rows) \<and>
      baseline_window_recall rows =
        map DiameterPupilLRFilt
          (filter (\<lambda>r. Timestamp r < Timestamp (hd rows) + ms 2000) rows)) \<and>
   (\<forall>xs. xs \<noteq> [] \<longrightarrow> nanmean (map Some xs) = Some (sum_list xs / real (length xs)))"
proof -
  have enc: "\<forall>out. clean_trial_encoding rows = Inr out \<longrightarrow>
      out = map (\<lambda>r. r\<lparr>Baseline := nanmean (baseline_window_encoding rows),
                       Dilation := nan_sub (DiameterPupilLRFilt r)
                                     (nanmean (baseline_window_encoding rows)),
                       Timestamp := Timestamp r - Timestamp (hd (filter is_PlayWord rows))\<rparr>)
              (filter is_PlayWord rows)"
    by (intro allI impI) (rule clean_trial_encoding_out(1))
  have windows: "sorted (map Timestamp rows) \<longrightarrow>
      baseline_window_encoding rows =
        map DiameterPupilLRFilt
          (filter (\<lambda>r. Object r = Some ''Ready'' \<and>
                        Timestamp (last (filter (\<lambda>r. Object r = Some ''Ready'') rows)) - ms 500
                          < Timestamp r) rows) \<and>
      baseline_window_recall rows =
        map DiameterPupilLRFilt
          (filter (\<lambda>r. Timestamp r < Timestamp (hd rows) + ms 2000) rows)"
  proof
    assume srt: "sorted (map Timestamp rows)"
    then have "sorted (map Timestamp (filter (\<lambda>r. Object r = Some ''Ready'') rows))"
      by (rule sorted_filter)
    from last_offset_sorted[OF this, of "ms 500"] first_offset_sorted[OF srt, of "ms 2000"]
    show "baseline_window_encoding rows =
        map DiameterPupilLRFilt
          (filter (\<lambda>r. Object r = Some ''Ready'' \<and>
                        Timestamp (last (filter (\<lambda>r. Object r = Some ''Ready'') rows)) - ms 500
                          < Timestamp r) rows) \<and>
      baseline_window_recall rows =
        map DiameterPupilLRFilt
          (filter (\<lambda>r. Timestamp r < Timestamp (hd rows) + ms 2000) rows)"
      by (simp add: baseline_window_encoding_def baseline_window_recall_def conj_commute)
  qed
  have mean: "\<forall>xs. xs \<noteq> [] \<longrightarrow> nanmean (map Some xs) = Some (sum_list xs / real (length xs))"
    by (intro allI impI) (rule nanmean_all_valid)
  from enc clean_trial_recall_out[of condition rows] windows mean show ?thesis by (intro conjI)
qed

text \<open>The theorem at the encoding trial and at the recall trial.\<close>

theorem baseline_and_dilation_witness:
  "sorted (map Timestamp encoding_trial) \<and>
   clean_trial_encoding encoding_trial =
     Inr [(pupil_row 0 ''PlayWord1'' ''Response'' (Some 6))\<lparr>Baseline := Some 4, Dilation := Some 2\<rparr>,
          (pupil_row (ms 400) ''PlayWord1'' ''Response'' (Some 7))\<lparr>Baseline := Some 4, Dilation := Some 3\<rparr>] \<and>
   [(pupil_row 0 ''PlayWord1'' ''Response'' (Some 6))\<lparr>Baseline := Some 4, Dilation := Some 2\<rparr>,
    (pupil_row (ms 400) ''PlayWord1'' ''Response'' (Some 7))\<lparr>Baseline := Some 4, Dilation := Some 3\<rparr>] =
      map (\<lambda>r. r\<lparr>Baseline := nanmean (baseline_window_encoding encoding_trial),
                  Dilation := nan_sub (DiameterPupilLRFilt r)
                                (nanmean (baseline_window_encoding encoding_trial)),
                  Timestamp := Timestamp r - Timestamp (hd (filter is_PlayWord encoding_trial))\<rparr>)
        (filter is_PlayWord encoding_trial) \<and>
   baseline_window_encoding encoding_trial = [Some 3, Some 5] \<and>
   nanmean (map Some [3, 5]) = Some (sum_list [3, 5] / real (length [3, 5 :: real])) \<and>
   baseline_window_recall recall_trial = [Some 2, Some 4] \<and>
   map (\<lambda>r. (Phase r, Baseline r, Dilation r)) (clean_trial_recall (Some ''Letter'') recall_trial) =
     [(Some ''Response'', Some 3, Some 2), (Some ''Response'', Some 3, Some 3)]"
proof -
  note th = baseline_and_dilation[of encoding_trial "Some ''Letter''"]
  have srt: "sorted (map Timestamp encoding_trial)" by code_simp
  have e: "clean_trial_encoding encoding_trial =
     Inr [(pupil_row 0 ''PlayWord1'' ''Response'' (Some 6))\<lparr>Baseline := Some 4, Dilation := Some 2\<rparr>,
          (pupil_row (ms 400) ''PlayWord1'' ''Response'' (Some 7))\<lparr>Baseline := Some 4, Dilation := Some 3\<rparr>]"
    by code_simp
  note out = th[THEN conjunct1, rule_format, OF e]
  have ne: "[3, 5 :: real] \<noteq> []" by simp
  note mean = th[THEN conjunct2, THEN conjunct2, THEN conjunct2, rule_format, OF ne]
  have w: "baseline_window_encoding encoding_trial = [Some 3, Some 5]" by code_simp
  have w2: "baseline_window_recall recall_trial = [Some 2, Some 4]" by code_simp
  have r: "map (\<lambda>r. (Phase r, Baseline r, Dilation r)) (clean_trial_recall (Some ''Letter'') recall_trial) =
     [(Some ''Response'', Some 3, Some 2), (Some ''Response'', Some 3, Some 3)]" by code_simp
  from srt e out w mean w2 r show ?thesis by (intro conjI)
qed

lemma nan_sub_None [simp]: "nan_sub d None = None"
  by (cases d) simp_all

lemma for_each_Inr_iff:
  "for_each body ks = Inr res \<longleftrightarrow>
     map fst res = ks \<and> (\<forall>(k, v) \<in> set res. body k = Inr v)"
proof
  assume "for_each body ks = Inr res"
  then show "map fst res = ks \<and> (\<forall>(k, v) \<in> set res. body k = Inr v)" by (rule for_each_Inr)
next
  assume "map fst res = ks \<and> (\<forall>(k, v) \<in> set res. body k = Inr v)"
  then show "for_each body ks = Inr res"
  proof (induction ks arbitrary: res)
    case Nil
    then show ?case by simp
  next
    case (Cons k ks)
    then obtain v rest where res: "res = (k, v) # rest" by (cases res) auto
    with Cons.prems have "body k = Inr v" "map fst rest = ks \<and> (\<forall>(k, v) \<in> set rest. body k = Inr v)"
      by auto
    with Cons.IH[of rest] res show ?case by simp
  qed
qed

lemma for_each_Inl:
  "body k = Inl err \<Longrightarrow> k \<in> set ks \<Longrightarrow> isl (for_each body ks)"
  by (induction ks) (auto split: sum.splits)

lemma clean_trials_encoding_Inr_iff:
  "clean_trials_encoding conditioning trialevents = Inr res \<longleftrightarrow>
     res \<noteq> [] \<and> map fst res = unique (map fst trialevents) \<and>
     (\<forall>(trial, out) \<in> set res. trial_encoding conditioning trialevents trial = Inr out)"
proof (cases "for_each (trial_encoding conditioning trialevents) (unique (map fst trialevents))")
  case (Inl err)
  moreover from Inl have "\<not> (map fst res = unique (map fst trialevents) \<and>
     (\<forall>(trial, out) \<in> set res. trial_encoding conditioning trialevents trial = Inr out))"
    by (simp only: for_each_Inr_iff[symmetric]) simp
  ultimately show ?thesis by (auto simp: clean_trials_encoding_def)
next
  case (Inr d)
  have "for_each (trial_encoding conditioning trialevents) (unique (map fst trialevents)) = Inr res
      \<longleftrightarrow> map fst res = unique (map fst trialevents) \<and>
     (\<forall>(trial, out) \<in> set res. trial_encoding conditioning trialevents trial = Inr out)"
    by (rule for_each_Inr_iff)
  with Inr show ?thesis by (auto simp: clean_trials_encoding_def pd_concat_def)
qed

lemma clean_trials_recall_Inr_iff:
  "clean_trials_recall conditioning df trialevents = Inr res \<longleftrightarrow>
     res \<noteq> [] \<and>
     map fst res =
       unique (concat (map (\<lambda>e. case Trial e of None \<Rightarrow> [] | Some n \<Rightarrow> [n]) trialevents)) \<and>
     (\<forall>(trialnum, out) \<in> set res. trial_recall conditioning df trialevents trialnum = Inr out)"
proof (cases "for_each (trial_recall conditioning df trialevents)
    (unique (concat (map (\<lambda>e. case Trial e of None \<Rightarrow> [] | Some n \<Rightarrow> [n]) trialevents)))")
  case (Inl err)
  moreover from Inl have "\<not> (map fst res =
       unique (concat (map (\<lambda>e. case Trial e of None \<Rightarrow> [] | Some n \<Rightarrow> [n]) trialevents)) \<and>
     (\<forall>(trialnum, out) \<in> set res. trial_recall conditioning df trialevents trialnum = Inr out))"
    by (simp only: for_each_Inr_iff[symmetric]) simp
  ultimately show ?thesis by (auto simp: clean_trials_recall_def)
next
  case (Inr d)
  have "for_each (trial_recall conditioning df trialevents)
      (unique (concat (map (\<lambda>e. case Trial e of None \<Rightarrow> [] | Some n \<Rightarrow> [n]) trialevents))) = Inr res
      \<longleftrightarrow> map fst res =
       unique (concat (map (\<lambda>e. case Trial e of None \<Rightarrow> [] | Some n \<Rightarrow> [n]) trialevents)) \<and>
     (\<forall>(trialnum, out) \<in> set res. trial_recall conditioning df trialevents trialnum = Inr out)"
    by (rule for_each_Inr_iff)
  with Inr show ?thesis by (auto simp: clean_trials_recall_def pd_concat_def)
qed

lemma clean_trial_encoding_eq:
  "clean_trial_encoding rows =
     (if \<exists>r \<in> set rows. Object r = None then Inl ValueError
      else if filter is_PlayWord rows = [] then Inl IndexError
      else Inr (map (\<lambda>r. r\<lparr>Baseline := nanmean (baseline_window_encoding rows),
                            Dilation := nan_sub (DiameterPupilLRFilt r)
                                          (nanmean (baseline_window_encoding rows)),
                            Timestamp := Timestamp r - Timestamp (hd (filter is_PlayWord rows))\<rparr>)
                  (filter is_PlayWord rows)))"
proof (cases "clean_trial_encoding rows")
  case (Inr out)
  from clean_trial_encoding_out[OF Inr] Inr show ?thesis
    by (auto simp: clean_trial_encoding_def Let_def split: if_splits)
next
  case (Inl err)
  then show ?thesis
    by (auto simp: clean_trial_encoding_def Let_def filter_map comp_def split: if_splits)
qed

lemma rawtrial_recall_condition:
  assumes "rawtrial_recall df trialevents trialnum = Inr rawtrial"
  shows "map Condition (filter (\<lambda>e. Trial e = Some trialnum) trialevents) \<noteq> []"
proof -
  from assms have "trial_times trialevents trialnum \<noteq> []"
    by (auto simp: rawtrial_recall_def split: list.splits)
  then show ?thesis by (simp add: trial_times_def)
qed

lemma trial_recall_Inr_iff:
  "trial_recall conditioning df trialevents trialnum = Inr out \<longleftrightarrow>
     (\<exists>rawtrial trial_resamp.
        rawtrial_recall df trialevents trialnum = Inr rawtrial \<and> rawtrial \<noteq> [] \<and>
        conditioning (map (\<lambda>r. (phase_of (trial_times trialevents trialnum) (TETTime r), r))
                        rawtrial) = Inr trial_resamp \<and>
        out = clean_trial_recall
                (hd (map Condition (filter (\<lambda>e. Trial e = Some trialnum) trialevents)))
                trial_resamp)"
proof (cases "rawtrial_recall df trialevents trialnum")
  case (Inl err)
  then show ?thesis by (simp add: trial_recall_def)
next
  case (Inr rawtrial)
  from rawtrial_recall_condition[OF Inr] obtain condition rest where
    c: "map Condition (filter (\<lambda>e. Trial e = Some trialnum) trialevents) = condition # rest"
    by (cases "map Condition (filter (\<lambda>e. Trial e = Some trialnum) trialevents)") auto
  show ?thesis
    by (auto simp: trial_recall_def Inr c split: sum.splits)
qed

text \<open>
  Claim C3, as the code has it. An undefined baseline raises nothing and excludes nothing.
  \<open>clean_trials\<close> returns exactly when every trial of the table is processed without an
  exception (and there is a trial), and then every trial is in the output. An encoding
  trial is processed exactly when its conditioning returns, no label of the conditioned
  frame is NaN and a label starts with PlayWord; a recall trial exactly when it has four
  event rows, its window selects a sample and its conditioning returns: the diameters play
  no part. The output of a trial whose baseline window holds no valid sample is all its
  Response rows, with NaN in \<open>Baseline\<close> and in \<open>Dilation\<close> (NaN, not zero). A trial that
  raises, as an encoding trial without a PlayWord row does with IndexError, ends the run
  for the whole subject, whatever its baseline is.
\<close>

theorem undefined_baseline_propagates:
  "(clean_trials_encoding conditioning trialevents = Inr res \<longleftrightarrow>
      res \<noteq> [] \<and> map fst res = unique (map fst trialevents) \<and>
      (\<forall>(trial, out) \<in> set res. trial_encoding conditioning trialevents trial = Inr out)) \<and>
   (\<forall>out. trial_encoding conditioning trialevents trial = Inr out \<longleftrightarrow>
      (\<exists>rows. conditioning (rawtrial_encoding trialevents trial) = Inr rows \<and>
         (\<forall>r \<in> set rows. Object r \<noteq> None) \<and> filter is_PlayWord rows \<noteq> [] \<and>
         out = map (\<lambda>r. r\<lparr>Baseline := nanmean (baseline_window_encoding rows),
                          Dilation := nan_sub (DiameterPupilLRFilt r)
                                        (nanmean (baseline_window_encoding rows)),
                          Timestamp := Timestamp r - Timestamp (hd (filter is_PlayWord rows))\<rparr>)
                 (filter is_PlayWord rows))) \<and>
   (\<forall>rows. conditioning (rawtrial_encoding trialevents trial) = Inr rows \<and>
      valid (baseline_window_encoding rows) = [] \<and>
      (\<forall>r \<in> set rows. Object r \<noteq> None) \<and> filter is_PlayWord rows \<noteq> [] \<longrightarrow>
        trial_encoding conditioning trialevents trial =
          Inr (map (\<lambda>r. r\<lparr>Baseline := None, Dilation := None,
                           Timestamp := Timestamp r - Timestamp (hd (filter is_PlayWord rows))\<rparr>)
                 (filter is_PlayWord rows))) \<and>
   (\<forall>rows. conditioning (rawtrial_encoding trialevents trial) = Inr rows \<and>
      (\<forall>r \<in> set rows. Object r \<noteq> None) \<and> filter is_PlayWord rows = [] \<and>
      trial \<in> set (map fst trialevents) \<longrightarrow>
        trial_encoding conditioning trialevents trial = Inl IndexError \<and>
        isl (clean_trials_encoding conditioning trialevents)) \<and>
   (clean_trials_recall conditioning' df tbl = Inr res' \<longleftrightarrow>
      res' \<noteq> [] \<and>
      map fst res' =
        unique (concat (map (\<lambda>e. case Trial e of None \<Rightarrow> [] | Some n \<Rightarrow> [n]) tbl)) \<and>
      (\<forall>(trialnum, out) \<in> set res'. trial_recall conditioning' df tbl trialnum = Inr out)) \<and>
   (\<forall>out. trial_recall conditioning' df tbl trialnum = Inr out \<longleftrightarrow>
      (\<exists>rawtrial trial_resamp.
         rawtrial_recall df tbl trialnum = Inr rawtrial \<and> rawtrial \<noteq> [] \<and>
         conditioning' (map (\<lambda>r. (phase_of (trial_times tbl trialnum) (TETTime r), r)) rawtrial)
           = Inr trial_resamp \<and>
         out = clean_trial_recall
                 (hd (map Condition (filter (\<lambda>e. Trial e = Some trialnum) tbl))) trial_resamp)) \<and>
   (valid (baseline_window_recall rows') = [] \<longrightarrow>
      clean_trial_recall condition rows' =
        map (\<lambda>r. r\<lparr>Baseline := None, Dilation := None, TrialCondition := condition\<rparr>)
          (filter (\<lambda>r. Phase r = Some ''Response'') rows'))"
proof -
  have trial_iff: "\<forall>out. trial_encoding conditioning trialevents trial = Inr out \<longleftrightarrow>
      (\<exists>rows. conditioning (rawtrial_encoding trialevents trial) = Inr rows \<and>
         (\<forall>r \<in> set rows. Object r \<noteq> None) \<and> filter is_PlayWord rows \<noteq> [] \<and>
         out = map (\<lambda>r. r\<lparr>Baseline := nanmean (baseline_window_encoding rows),
                          Dilation := nan_sub (DiameterPupilLRFilt r)
                                        (nanmean (baseline_window_encoding rows)),
                          Timestamp := Timestamp r - Timestamp (hd (filter is_PlayWord rows))\<rparr>)
                 (filter is_PlayWord rows))"
  proof (cases "conditioning (rawtrial_encoding trialevents trial)")
    case (Inl err)
    then show ?thesis by (simp add: trial_encoding_def)
  next
    case (Inr rows)
    show ?thesis
      unfolding trial_encoding_def Inr sum.case
      by (subst clean_trial_encoding_eq) auto
  qed
  have blind: "\<forall>rows. conditioning (rawtrial_encoding trialevents trial) = Inr rows \<and>
      valid (baseline_window_encoding rows) = [] \<and>
      (\<forall>r \<in> set rows. Object r \<noteq> None) \<and> filter is_PlayWord rows \<noteq> [] \<longrightarrow>
        trial_encoding conditioning trialevents trial =
          Inr (map (\<lambda>r. r\<lparr>Baseline := None, Dilation := None,
                           Timestamp := Timestamp r - Timestamp (hd (filter is_PlayWord rows))\<rparr>)
                 (filter is_PlayWord rows))"
  proof (intro allI impI)
    fix rows
    assume a: "conditioning (rawtrial_encoding trialevents trial) = Inr rows \<and>
      valid (baseline_window_encoding rows) = [] \<and>
      (\<forall>r \<in> set rows. Object r \<noteq> None) \<and> filter is_PlayWord rows \<noteq> []"
    then have b: "nanmean (baseline_window_encoding rows) = None" by (simp add: nanmean_def)
    from a show "trial_encoding conditioning trialevents trial =
          Inr (map (\<lambda>r. r\<lparr>Baseline := None, Dilation := None,
                           Timestamp := Timestamp r - Timestamp (hd (filter is_PlayWord rows))\<rparr>)
                 (filter is_PlayWord rows))"
      by (simp add: trial_encoding_def clean_trial_encoding_eq b)
  qed
  have abort: "\<forall>rows. conditioning (rawtrial_encoding trialevents trial) = Inr rows \<and>
      (\<forall>r \<in> set rows. Object r \<noteq> None) \<and> filter is_PlayWord rows = [] \<and>
      trial \<in> set (map fst trialevents) \<longrightarrow>
        trial_encoding conditioning trialevents trial = Inl IndexError \<and>
        isl (clean_trials_encoding conditioning trialevents)"
  proof (intro allI impI)
    fix rows
    assume a: "conditioning (rawtrial_encoding trialevents trial) = Inr rows \<and>
      (\<forall>r \<in> set rows. Object r \<noteq> None) \<and> filter is_PlayWord rows = [] \<and>
      trial \<in> set (map fst trialevents)"
    then have e: "trial_encoding conditioning trialevents trial = Inl IndexError"
      by (simp add: trial_encoding_def clean_trial_encoding_eq)
    from a have "trial \<in> set (unique (map fst trialevents))" by (simp add: unique_def)
    from for_each_Inl[of "trial_encoding conditioning trialevents" trial IndexError, OF e this]
    have "isl (clean_trials_encoding conditioning trialevents)"
      by (auto simp: clean_trials_encoding_def split: sum.splits)
    with e show "trial_encoding conditioning trialevents trial = Inl IndexError \<and>
        isl (clean_trials_encoding conditioning trialevents)" by simp
  qed
  have rec_iff: "\<forall>out. trial_recall conditioning' df tbl trialnum = Inr out \<longleftrightarrow>
      (\<exists>rawtrial trial_resamp.
         rawtrial_recall df tbl trialnum = Inr rawtrial \<and> rawtrial \<noteq> [] \<and>
         conditioning' (map (\<lambda>r. (phase_of (trial_times tbl trialnum) (TETTime r), r)) rawtrial)
           = Inr trial_resamp \<and>
         out = clean_trial_recall
                 (hd (map Condition (filter (\<lambda>e. Trial e = Some trialnum) tbl))) trial_resamp)"
    by (intro allI) (rule trial_recall_Inr_iff)
  have rec: "valid (baseline_window_recall rows') = [] \<longrightarrow>
      clean_trial_recall condition rows' =
        map (\<lambda>r. r\<lparr>Baseline := None, Dilation := None, TrialCondition := condition\<rparr>)
          (filter (\<lambda>r. Phase r = Some ''Response'') rows')"
    by (simp add: clean_trial_recall_out nanmean_def)
  from clean_trials_encoding_Inr_iff[of conditioning trialevents res] trial_iff blind abort
    clean_trials_recall_Inr_iff[of conditioning' df tbl res'] rec_iff rec
  show ?thesis by (intro conjI)
qed

text \<open>The theorem at the encoding session, whose first trial has no valid Ready sample; at
  the encoding session whose first trial has no PlayWord row, which is lost as a whole; at
  the recall trial without a valid baseline, and at the recall loop over six trials.\<close>

theorem undefined_baseline_propagates_witness:
  "clean_trials_encoding example_conditioning (numbered_runs (label_runs encoding_session)) =
     Inr [(1, [\<lparr>Timestamp = 0, Object = Some ''PlayWord1'', Phase = None,
                DiameterPupilLRFilt = Some 3, Baseline = None, Dilation = None,
                TrialCondition = None\<rparr>]),
          (2, [\<lparr>Timestamp = 0, Object = Some ''PlayWord2'', Phase = None,
                DiameterPupilLRFilt = Some 3, Baseline = Some 2, Dilation = Some 1,
                TrialCondition = None\<rparr>])] \<and>
   map fst [(1 :: nat, [\<lparr>Timestamp = 0, Object = Some ''PlayWord1'', Phase = None,
                DiameterPupilLRFilt = Some 3, Baseline = None, Dilation = None,
                TrialCondition = None\<rparr>]),
          (2, [\<lparr>Timestamp = 0, Object = Some ''PlayWord2'', Phase = None,
                DiameterPupilLRFilt = Some 3, Baseline = Some 2, Dilation = Some 1,
                TrialCondition = None\<rparr>])] =
     unique (map fst (numbered_runs (label_runs encoding_session))) \<and>
   valid (baseline_window_encoding
            (projr (example_conditioning
               (rawtrial_encoding (numbered_runs (label_runs encoding_session)) 1)))) = [] \<and>
   trial_encoding example_conditioning (numbered_runs (label_runs encoding_session)) 1 =
     Inr [\<lparr>Timestamp = 0, Object = Some ''PlayWord1'', Phase = None,
           DiameterPupilLRFilt = Some 3, Baseline = None, Dilation = None,
           TrialCondition = None\<rparr>] \<and>
   filter is_PlayWord
     (projr (example_conditioning
        (rawtrial_encoding (numbered_runs (label_runs no_response_session)) 1))) = [] \<and>
   trial_encoding example_conditioning (numbered_runs (label_runs no_response_session)) 1 =
     Inl IndexError \<and>
   isl (clean_trials_encoding example_conditioning (numbered_runs (label_runs no_response_session))) \<and>
   valid (baseline_window_recall recall_trial_blind) = [] \<and>
   clean_trial_recall (Some ''Letter'') recall_trial_blind =
     map (\<lambda>r. r\<lparr>Baseline := None, Dilation := None, TrialCondition := Some ''Letter''\<rparr>)
       (filter (\<lambda>r. Phase r = Some ''Response'') recall_trial_blind) \<and>
   (\<exists>res. clean_trials_recall recall_conditioning six_trial_session
             (projr (get_trial_events_recall (sort_key row_index) six_trial_session)) = Inr res \<and>
          map fst res = [1, 2, 3, 4, 5, 6])"
proof -
  let ?te = "numbered_runs (label_runs encoding_session)"
  let ?te' = "numbered_runs (label_runs no_response_session)"
  let ?out1 = "[\<lparr>Timestamp = 0, Object = Some ''PlayWord1'', Phase = None,
                DiameterPupilLRFilt = Some 3, Baseline = None, Dilation = None,
                TrialCondition = None\<rparr>]"
  let ?res = "[(1 :: nat, ?out1),
          (2, [\<lparr>Timestamp = 0, Object = Some ''PlayWord2'', Phase = None,
                DiameterPupilLRFilt = Some 3, Baseline = Some 2, Dilation = Some 1,
                TrialCondition = None\<rparr>])]"
  let ?rows = "projr (example_conditioning (rawtrial_encoding ?te 1))"
  let ?rows' = "projr (example_conditioning (rawtrial_encoding ?te' 1))"
  let ?tbl = "projr (get_trial_events_recall (sort_key row_index) six_trial_session)"
  have h1: "clean_trials_encoding example_conditioning ?te = Inr ?res" by code_simp
  have "\<not> isl (clean_trials_recall recall_conditioning six_trial_session ?tbl)" by code_simp
  then obtain res' where
    r: "clean_trials_recall recall_conditioning six_trial_session ?tbl = Inr res'"
    by (cases "clean_trials_recall recall_conditioning six_trial_session ?tbl") simp_all
  note th = undefined_baseline_propagates[where conditioning = example_conditioning
      and trialevents = ?te and res = ?res and trial = 1 and rows' = recall_trial_blind
      and condition = "Some ''Letter''" and conditioning' = recall_conditioning
      and df = six_trial_session and tbl = ?tbl and res' = res' and trialnum = 1]
  from th[THEN conjunct1] h1 have c1: "map fst ?res = unique (map fst ?te)" by blast
  have h3: "example_conditioning (rawtrial_encoding ?te 1) = Inr ?rows"
    by (simp add: example_conditioning_def)
  have h4: "valid (baseline_window_encoding ?rows) = []" by code_simp
  have "list_all (\<lambda>r. Object r \<noteq> None) ?rows" by code_simp
  then have h5: "\<forall>r \<in> set ?rows. Object r \<noteq> None" by (simp only: list_all_iff)
  have "filter is_PlayWord ?rows =
      [\<lparr>Timestamp = ms 100, Object = Some ''PlayWord1'', Phase = None,
        DiameterPupilLRFilt = Some 3, Baseline = None, Dilation = None,
        TrialCondition = None\<rparr>]" by code_simp
  then have h6: "filter is_PlayWord ?rows \<noteq> []" by simp
  have v: "map (\<lambda>r. r\<lparr>Baseline := None, Dilation := None,
                 Timestamp := Timestamp r - Timestamp (hd (filter is_PlayWord ?rows))\<rparr>)
             (filter is_PlayWord ?rows) = ?out1" by code_simp
  from th[THEN conjunct2, THEN conjunct2, THEN conjunct1, THEN spec, THEN mp,
      OF conjI[OF h3 conjI[OF h4 conjI[OF h5 h6]]]]
  have c2: "trial_encoding example_conditioning ?te 1 = Inr ?out1" by (simp only: v)
  note th' = undefined_baseline_propagates[where conditioning = example_conditioning
      and trialevents = ?te' and trial = 1]
  have g3: "example_conditioning (rawtrial_encoding ?te' 1) = Inr ?rows'"
    by (simp add: example_conditioning_def)
  have "list_all (\<lambda>r. Object r \<noteq> None) ?rows'" by code_simp
  then have g5: "\<forall>r \<in> set ?rows'. Object r \<noteq> None" by (simp only: list_all_iff)
  have g6: "filter is_PlayWord ?rows' = []" by code_simp
  have "list_ex (\<lambda>t. t = 1) (map fst ?te')" by code_simp
  then have g7: "1 \<in> set (map fst ?te')" by (simp only: list_ex_iff) simp
  note ab = th'[THEN conjunct2, THEN conjunct2, THEN conjunct2, THEN conjunct1, THEN spec,
      THEN mp, OF conjI[OF g3 conjI[OF g5 conjI[OF g6 g7]]]]
  from ab have c3: "trial_encoding example_conditioning ?te' 1 = Inl IndexError"
    by (rule conjunct1)
  from ab have c4: "isl (clean_trials_encoding example_conditioning ?te')" by (rule conjunct2)
  have k5: "valid (baseline_window_recall recall_trial_blind) = []" by code_simp
  note c5 = th[THEN conjunct2, THEN conjunct2, THEN conjunct2, THEN conjunct2, THEN conjunct2,
      THEN conjunct2, THEN mp, OF k5]
  have u: "unique (concat (map (\<lambda>e. case Trial e of None \<Rightarrow> [] | Some n \<Rightarrow> [n]) ?tbl)) =
      [1, 2, 3, 4, 5, 6]" by code_simp
  from th[THEN conjunct2, THEN conjunct2, THEN conjunct2, THEN conjunct2, THEN conjunct1] r u
  have m: "map fst res' = [1, 2, 3, 4, 5, 6]" by simp
  from r m have c6: "\<exists>res. clean_trials_recall recall_conditioning six_trial_session ?tbl = Inr res \<and>
          map fst res = [1, 2, 3, 4, 5, 6]" by (intro exI[of _ res'] conjI)
  from h1 c1 h4 c2 g6 c3 c4 k5 c5 c6 show ?thesis by (intro conjI)
qed

text \<open>
  Claim C3 as stated fails: the first trial of the encoding session has no valid sample in
  its baseline window, and its Response row is in the output of \<open>clean_trials\<close> with NaN as
  dilation, next to the second trial; the same holds for the recall trial.
\<close>

theorem blind_baseline_reaches_output:
  "valid (baseline_window_encoding
            (projr (example_conditioning
               (rawtrial_encoding (numbered_runs (label_runs encoding_session)) 1)))) = [] \<and>
   clean_trials_encoding example_conditioning (numbered_runs (label_runs encoding_session)) =
     Inr [(1, [\<lparr>Timestamp = 0, Object = Some ''PlayWord1'', Phase = None,
                DiameterPupilLRFilt = Some 3, Baseline = None, Dilation = None,
                TrialCondition = None\<rparr>]),
          (2, [\<lparr>Timestamp = 0, Object = Some ''PlayWord2'', Phase = None,
                DiameterPupilLRFilt = Some 3, Baseline = Some 2, Dilation = Some 1,
                TrialCondition = None\<rparr>])] \<and>
   valid (baseline_window_recall recall_trial_blind) = [] \<and>
   map (\<lambda>r. (Phase r, DiameterPupilLRFilt r, Baseline r, Dilation r))
       (clean_trial_recall (Some ''Letter'') recall_trial_blind) =
     [(Some ''Response'', Some 5, None, None), (Some ''Response'', Some 6, None, None)]"
  by code_simp

end
